theory Spec2Isabelle
  imports Complex_Main "HOL-Library.AList" "HOL-Library.Log_Nat" "HOL-Library.Char_ord"
    "HOL-Library.List_Lexorder"
begin

section \<open>Conventions of the embedding\<close>

text \<open>
  The Go packages \<open>types\<close>, \<open>responses\<close>, \<open>middleware\<close>, \<open>server\<close>, \<open>config\<close> and
  \<open>database\<close> of microservice-commons are embedded function by function.

  \<^item> A Go struct is a record. Several structs of the repository share field names
    (\<open>Page\<close>, \<open>PageSize\<close>, \<open>Status\<close>, ...), so every field carries a short prefix for
    its struct: \<open>rq_\<close> for \<open>types.PaginationRequest\<close>, \<open>hc_\<close> for \<open>HealthCheck\<close>, and so on.
  \<^item> A Go \<open>int\<close> is 64 bits wide on the platforms the library targets. Where the code only
    compares and copies it, it is an \<open>int\<close> here; where the code computes with it, the
    wrap-around is written out with \<open>wrap64\<close>.
  \<^item> A Go string is a sequence of bytes: a \<open>string\<close> here, each \<open>char\<close> one byte. Go compares
    strings byte by byte, which is the lexicographic order of \<open>char list\<close>.
  \<^item> A Go map is an association list with one entry per key; \<open>for ... range\<close> visits the
    entries in the order of the list. Go leaves that order open, so a theorem about a
    loop over a map is stated for every list with one entry per key.
  \<^item> \<open>time.Time\<close> is the instant in nanoseconds (\<open>UTC()\<close> changes the location a time
    prints in, not the instant), and \<open>time.Duration\<close> a number of nanoseconds. The clock is
    read by the caller of the model and passed in; it shows a year from 0 to 9999, the
    years \<open>time.Time\<close> can be written to JSON in.
  \<^item> A panic and an error are values: a function that can panic returns \<open>panic + 'a\<close>, an
    encoder that can fail returns an option.
\<close>

type_synonym time = int
type_synonym duration = int

definition StatusOK :: int where
  "StatusOK = 200"

definition StatusServiceUnavailable :: int where
  "StatusServiceUnavailable = 503"

section \<open>encoding/json\<close>

subsection \<open>Strings\<close>

text \<open>
  \<open>encoding/json\<close> writes a Go string as a JSON string of valid UTF-8: it walks the bytes
  with \<open>utf8.DecodeRuneInString\<close> and writes the replacement character U+FFFD for
  every byte at which no valid encoding starts. \<open>DecodeRune_size\<close> is the width that
  function returns for a valid encoding at the head of the string, and 0 where it returns
  \<open>(RuneError, 1)\<close>; \<open>leading\<close> is its table of first bytes: the length of the encoding
  and the range the second byte has to lie in. The escapes of the encoder (of a quote, a control character, an angle bracket)
  are other spellings of the same characters and leave the text of the string as it is.
\<close>

definition byte :: "char \<Rightarrow> nat" where
  "byte c = of_char c"

definition continuation :: "char \<Rightarrow> bool" where
  "continuation c = (128 \<le> byte c \<and> byte c \<le> 191)"

definition leading :: "char \<Rightarrow> (nat \<times> nat \<times> nat) option" where
  "leading c =
     (let b = byte c
      in if 194 \<le> b \<and> b \<le> 223 then Some (2, 128, 191)
         else if b = 224 then Some (3, 160, 191)
         else if b = 237 then Some (3, 128, 159)
         else if 225 \<le> b \<and> b \<le> 239 then Some (3, 128, 191)
         else if b = 240 then Some (4, 144, 191)
         else if 241 \<le> b \<and> b \<le> 243 then Some (4, 128, 191)
         else if b = 244 then Some (4, 128, 143)
         else None)"

definition DecodeRune_size :: "string \<Rightarrow> nat" where
  "DecodeRune_size s =
     (case s of
        [] \<Rightarrow> 0
      | c # cs \<Rightarrow>
          if byte c < 128 then 1
          else (case leading c of
                  None \<Rightarrow> 0
                | Some (sz, lo, hi) \<Rightarrow>
                    if length s < sz then 0
                    else if \<not> (lo \<le> byte (s ! 1) \<and> byte (s ! 1) \<le> hi) then 0
                    else if sz = 2 then 2
                    else if \<not> continuation (s ! 2) then 0
                    else if sz = 3 then 3
                    else if \<not> continuation (s ! 3) then 0
                    else 4))"

text \<open>The UTF-8 encoding of U+FFFD, the replacement character.\<close>

definition replacement :: string where
  "replacement = [CHR 0xEF, CHR 0xBF, CHR 0xBD]"

text \<open>
  The loop of the encoder over the bytes of the string. The first argument counts the
  bytes that remain of the encoding the loop is in; at 0 the next byte starts an encoding
  or is replaced.
\<close>

fun encode_from :: "nat \<Rightarrow> string \<Rightarrow> string" where
  "encode_from k [] = []"
| "encode_from (Suc k) (c # cs) = c # encode_from k cs"
| "encode_from 0 (c # cs) =
     (let sz = DecodeRune_size (c # cs)
      in if sz = 0 then replacement @ encode_from 0 cs
         else c # encode_from (sz - 1) cs)"

definition encode_string :: "string \<Rightarrow> string" where
  "encode_string s = encode_from 0 s"

text \<open>
  Valid UTF-8 as RFC 3629 defines it, one rule for each length of an encoding; \<open>lead3\<close>
  and \<open>lead4\<close> are the first two bytes of an encoding of three and of four bytes, which
  exclude the surrogates, the overlong forms and the code points above U+10FFFF. This is
  the notion the theorems compare the encoder with.
\<close>

definition lead3 :: "char \<Rightarrow> char \<Rightarrow> bool" where
  "lead3 a b =
     ((byte a = 224 \<and> 160 \<le> byte b \<and> byte b \<le> 191) \<or>
      (225 \<le> byte a \<and> byte a \<le> 236 \<and> continuation b) \<or>
      (byte a = 237 \<and> 128 \<le> byte b \<and> byte b \<le> 159) \<or>
      (238 \<le> byte a \<and> byte a \<le> 239 \<and> continuation b))"

definition lead4 :: "char \<Rightarrow> char \<Rightarrow> bool" where
  "lead4 a b =
     ((byte a = 240 \<and> 144 \<le> byte b \<and> byte b \<le> 191) \<or>
      (241 \<le> byte a \<and> byte a \<le> 243 \<and> continuation b) \<or>
      (byte a = 244 \<and> 128 \<le> byte b \<and> byte b \<le> 143))"

inductive valid_utf8 :: "string \<Rightarrow> bool" where
  empty: "valid_utf8 []"
| one: "byte a < 128 \<Longrightarrow> valid_utf8 s \<Longrightarrow> valid_utf8 (a # s)"
| two: "194 \<le> byte a \<Longrightarrow> byte a \<le> 223 \<Longrightarrow> continuation b \<Longrightarrow> valid_utf8 s
        \<Longrightarrow> valid_utf8 (a # b # s)"
| three: "lead3 a b \<Longrightarrow> continuation c \<Longrightarrow> valid_utf8 s \<Longrightarrow> valid_utf8 (a # b # c # s)"
| four: "lead4 a b \<Longrightarrow> continuation c \<Longrightarrow> continuation d \<Longrightarrow> valid_utf8 s
        \<Longrightarrow> valid_utf8 (a # b # c # d # s)"

code_pred valid_utf8 .

subsection \<open>Documents\<close>

text \<open>
  A JSON document as \<open>encoding/json\<close> writes it. An object is the list of its members in
  the order they are written. \<open>JString\<close> holds the text of a string, in UTF-8; \<open>JNumber\<close> is
  an integer, \<open>JFloat x\<close> the number written for the \<open>float64\<close> \<open>x\<close> (the shortest decimal
  that reads back as \<open>x\<close>), and \<open>JTime\<close> a \<open>time.Time\<close>, which is written as one string in
  the format of RFC 3339.
\<close>

datatype json =
    JNull
  | JBool bool
  | JNumber int
  | JFloat real
  | JString string
  | JTime time
  | JArray "json list"
  | JObject "(string \<times> json) list"

definition field :: "json \<Rightarrow> string \<Rightarrow> json option" where
  "field j name = (case j of JObject members \<Rightarrow> map_of members name | _ \<Rightarrow> None)"

definition field_names :: "json \<Rightarrow> string list" where
  "field_names j = (case j of JObject members \<Rightarrow> map fst members | _ \<Rightarrow> [])"

text \<open>
  The members of an object, each with the result of encoding its value; the object is
  written when every value is.
\<close>

definition members :: "(string \<times> json option) list \<Rightarrow> json option" where
  "members kvs = map_option JObject (those (map (\<lambda>(k, v). map_option (Pair k) v) kvs))"

subsection \<open>Values of type interface\<close>

text \<open>
  What an \<open>interface{}\<close> can hold, by the way \<open>json.Marshal\<close> treats it.

  \<^item> \<open>ANil\<close> is the nil interface. It is the one value \<open>omitempty\<close> leaves out of a field of
    type \<open>interface{}\<close>, and the one value that is \<open>== nil\<close>.
  \<^item> \<open>ABool\<close>, \<open>AInt\<close> and \<open>AString\<close> are a \<open>bool\<close>, an integer of any width and a \<open>string\<close>.
  \<^item> \<open>AFloat\<close> is a \<open>float64\<close>: a number, a NaN or an infinity. \<open>json.Marshal\<close> returns an
    \<open>UnsupportedValueError\<close> for the last three.
  \<^item> \<open>ATypedNil\<close> is a nil pointer, a nil map or a nil slice in the interface. The
    interface is not nil, so \<open>omitempty\<close> keeps the field, and the value is written \<open>null\<close>.
  \<^item> \<open>AList\<close> is a slice that is not nil, \<open>AMap\<close> a map with string keys that is not nil,
    written with its keys in sorted order, and \<open>AStruct\<close> a struct: the members its tags
    select, under their JSON names, in the order of the fields.
  \<^item> \<open>AOther\<close> is a value of any other type (a named string, a \<open>time.Time\<close>, a type with
    its own \<open>MarshalJSON\<close>, a channel, a function, ...), given by what \<open>json.Marshal\<close> makes
    of it: a document, or \<open>None\<close> when it returns an error, as it does for a channel and a
    function.
\<close>

datatype f64 = Finite real | NaN | PosInf | NegInf

datatype any =
    ANil
  | ABool bool
  | AInt int
  | AFloat f64
  | AString string
  | ATypedNil
  | AList "any list"
  | AMap "(string \<times> any) list"
  | AStruct "(string \<times> any) list"
  | AOther "json option"

text \<open>\<open>json.Marshal\<close> on such a value; \<open>None\<close> is an error, and then nothing is written.\<close>

primrec json_of_any :: "any \<Rightarrow> json option" where
  "json_of_any ANil = Some JNull"
| "json_of_any (ABool b) = Some (JBool b)"
| "json_of_any (AInt i) = Some (JNumber i)"
| "json_of_any (AFloat x) = (case x of Finite r \<Rightarrow> Some (JFloat r) | _ \<Rightarrow> None)"
| "json_of_any (AString s) = Some (JString (encode_string s))"
| "json_of_any ATypedNil = Some JNull"
| "json_of_any (AList xs) = map_option JArray (those (map json_of_any xs))"
| "json_of_any (AMap m) =
     members (map (map_prod encode_string id)
       (sort_key fst (map (map_prod id json_of_any) m)))"
| "json_of_any (AStruct fs) = members (map (map_prod id json_of_any) fs)"
| "json_of_any (AOther j) = j"

text \<open>A \<open>map[string]interface{}\<close>; with \<open>omitempty\<close> it is left out when it has no entry.\<close>

definition json_of_map :: "(string \<times> any) list \<Rightarrow> json option" where
  "json_of_map m = json_of_any (AMap m)"

section \<open>strconv.Atoi\<close>

text \<open>
  \<open>strconv.Atoi\<close> belongs to Go's standard library. The model follows \<open>ParseInt(s, 10, 0)\<close>
  on a 64-bit platform, which \<open>Atoi\<close> calls for long strings and whose result its fast path
  for short strings reproduces: an optional sign, then \<open>ParseUint\<close>'s loop over at least one
  decimal digit, with a syntax error on any other byte and a range error when the value
  leaves the unsigned and then the signed 64-bit range.
\<close>

datatype NumError = ErrSyntax | ErrRange

definition isDigit :: "char \<Rightarrow> bool" where
  "isDigit c = (48 \<le> (of_char c :: int) \<and> (of_char c :: int) \<le> 57)"

definition digitVal :: "char \<Rightarrow> int" where
  "digitVal c = of_char c - 48"

definition maxUint64 :: int where
  "maxUint64 = 18446744073709551615"

definition MaxInt64 :: int where
  "MaxInt64 = 9223372036854775807"

definition MinInt64 :: int where
  "MinInt64 = - 9223372036854775808"

text \<open>
  The loop of \<open>ParseUint\<close> for base 10: \<open>n >= cutoff\<close> with
  \<open>cutoff = maxUint64/10 + 1\<close> says that \<open>n * 10\<close> overflows, and the test on \<open>n1\<close> that
  adding the digit does.
\<close>

fun parseUintLoop :: "string \<Rightarrow> int \<Rightarrow> NumError + int" where
  "parseUintLoop [] n = Inr n"
| "parseUintLoop (c # cs) n =
     (if \<not> isDigit c then Inl ErrSyntax
      else if n \<ge> maxUint64 div 10 + 1 then Inl ErrRange
      else (let n1 = n * 10 + digitVal c
            in if n1 > maxUint64 then Inl ErrRange else parseUintLoop cs n1))"

definition Atoi :: "string \<Rightarrow> NumError + int" where
  "Atoi s =
     (if s = [] then Inl ErrSyntax
      else (let neg = (hd s = CHR ''-'');
                s1 = (if hd s = CHR ''+'' \<or> hd s = CHR ''-'' then tl s else s)
            in if s1 = [] then Inl ErrSyntax
               else (case parseUintLoop s1 0 of
                       Inl e \<Rightarrow> Inl e
                     | Inr un \<Rightarrow>
                         if \<not> neg \<and> un \<ge> 2 ^ 63 then Inl ErrRange
                         else if neg \<and> un > 2 ^ 63 then Inl ErrRange
                         else Inr (if neg then - un else un))))"

text \<open>
  The words of the claims, for comparison with \<open>Atoi\<close>: a decimal integer is an optional
  sign followed by one or more decimal digits, and its value is the number the digits
  write in base 10, negated after a minus sign.
\<close>

definition is_decimal_integer :: "string \<Rightarrow> bool" where
  "is_decimal_integer s =
     (case s of
        [] \<Rightarrow> False
      | c # cs \<Rightarrow>
          if c = CHR ''+'' \<or> c = CHR ''-'' then cs \<noteq> [] \<and> list_all isDigit cs
          else list_all isDigit s)"

definition digits_value :: "string \<Rightarrow> int" where
  "digits_value ds = foldl (\<lambda>n c. n * 10 + digitVal c) 0 ds"

definition decimal_value :: "string \<Rightarrow> int" where
  "decimal_value s =
     (case s of
        [] \<Rightarrow> 0
      | c # cs \<Rightarrow>
          if c = CHR ''-'' then - digits_value cs
          else if c = CHR ''+'' then digits_value cs
          else digits_value s)"

section \<open>config: DatabaseConfig.Validate\<close>

record DatabaseConfig =
  dc_Host :: string
  dc_Port :: string
  dc_User :: string
  dc_Password :: string
  dc_DatabaseName :: string
  dc_SSLMode :: string
  dc_TimeZone :: string
  dc_MaxIdleConns :: int
  dc_MaxOpenConns :: int
  dc_LogLevel :: string

text \<open>
  The errors \<open>Validate\<close> builds with \<open>fmt.Errorf\<close>, one constructor per message, in the
  order of the source; the one for the port wraps the error of \<open>Atoi\<close>.
\<close>

datatype ConfigError =
    HostRequired
  | PortRequired
  | PortMustBeNumber NumError
  | UserRequired
  | PasswordRequired
  | NameRequired
  | MaxIdleNegative
  | MaxOpenNegative
  | MaxIdleExceedsMaxOpen

text \<open>
  \<open>Validate\<close> has a pointer receiver; the model returns the error (\<open>None\<close> for \<open>nil\<close>) and
  the configuration as the call leaves it.
\<close>

definition DatabaseConfig_Validate ::
  "DatabaseConfig \<Rightarrow> ConfigError option \<times> DatabaseConfig" where
  "DatabaseConfig_Validate dc =
     (if dc_Host dc = '''' then (Some HostRequired, dc)
      else if dc_Port dc = '''' then (Some PortRequired, dc)
      else (case Atoi (dc_Port dc) of
              Inl err \<Rightarrow> (Some (PortMustBeNumber err), dc)
            | Inr _ \<Rightarrow>
                if dc_User dc = '''' then (Some UserRequired, dc)
                else if dc_Password dc = '''' then (Some PasswordRequired, dc)
                else if dc_DatabaseName dc = '''' then (Some NameRequired, dc)
                else if dc_MaxIdleConns dc < 0 then (Some MaxIdleNegative, dc)
                else if dc_MaxOpenConns dc < 0 then (Some MaxOpenNegative, dc)
                else if dc_MaxOpenConns dc > 0 \<and> dc_MaxIdleConns dc > dc_MaxOpenConns dc
                then (Some MaxIdleExceedsMaxOpen, dc)
                else (None, dc)))"

text \<open>The configuration \<open>LoadDatabaseConfig\<close> builds when no variable is set.\<close>

definition default_DatabaseConfig :: DatabaseConfig where
  "default_DatabaseConfig =
     \<lparr> dc_Host = ''localhost'', dc_Port = ''5432'', dc_User = ''postgres'',
       dc_Password = ''postgres'', dc_DatabaseName = ''defaultdb'', dc_SSLMode = ''disable'',
       dc_TimeZone = ''UTC'', dc_MaxIdleConns = 10, dc_MaxOpenConns = 100,
       dc_LogLevel = ''silent'' \<rparr>"

section \<open>config: Config.Validate\<close>

record KeycloakConfig =
  kc_URL :: string
  kc_Realm :: string
  kc_PublicKeyBase64 :: string
  kc_RequiredClaims :: "string list"
  kc_SkipPaths :: "string list"
  kc_KeyRefreshInterval :: duration
  kc_HTTPTimeout :: duration

datatype KeycloakError =
    KeyOrJWKSRequired
  | KeyRefreshIntervalNotPositive
  | HTTPTimeoutNotPositive

definition KeycloakConfig_Validate :: "KeycloakConfig \<Rightarrow> KeycloakError option" where
  "KeycloakConfig_Validate kc =
     (let hasStaticKey = (kc_PublicKeyBase64 kc \<noteq> '''');
          hasJWKS = (kc_URL kc \<noteq> '''' \<and> kc_Realm kc \<noteq> '''')
      in if \<not> hasStaticKey \<and> \<not> hasJWKS then Some KeyOrJWKSRequired
         else if kc_KeyRefreshInterval kc \<le> 0 then Some KeyRefreshIntervalNotPositive
         else if kc_HTTPTimeout kc \<le> 0 then Some HTTPTimeoutNotPositive
         else None)"

record Config =
  cf_Port :: string
  cf_AllowedOrigins :: "string list"
  cf_DatabaseConfig :: DatabaseConfig
  cf_KeycloakConfig :: KeycloakConfig
  cf_LogLevel :: string
  cf_Environment :: string
  cf_ServiceName :: string
  cf_ServiceVersion :: string

text \<open>
  The errors of \<open>Config.Validate\<close>; the last two wrap the error of the part of the
  configuration that is not valid.
\<close>

datatype ValidationError =
    ConfigPortRequired
  | ConfigServiceNameRequired
  | DatabaseConfigError ConfigError
  | KeycloakConfigError KeycloakError

definition Config_Validate :: "Config \<Rightarrow> ValidationError option" where
  "Config_Validate c =
     (if cf_Port c = '''' then Some ConfigPortRequired
      else if cf_ServiceName c = '''' then Some ConfigServiceNameRequired
      else (case fst (DatabaseConfig_Validate (cf_DatabaseConfig c)) of
              Some err \<Rightarrow> Some (DatabaseConfigError err)
            | None \<Rightarrow>
                (case KeycloakConfig_Validate (cf_KeycloakConfig c) of
                   Some err \<Rightarrow> Some (KeycloakConfigError err)
                 | None \<Rightarrow> None)))"

text \<open>
  \<open>LoadWithServiceInfo\<close> reads the configuration from the environment with \<open>LoadFromEnv\<close>
  and puts in the name and the version of the service where the environment has left the
  defaults. The environment is outside the repository: \<open>fromEnv\<close> is what \<open>LoadFromEnv\<close>
  returns.
\<close>

definition LoadWithServiceInfo :: "Config \<Rightarrow> string \<Rightarrow> string \<Rightarrow> Config" where
  "LoadWithServiceInfo fromEnv serviceName version =
     (let config1 = (if cf_ServiceName fromEnv = ''microservice''
                     then fromEnv\<lparr>cf_ServiceName := serviceName\<rparr> else fromEnv);
          config2 = (if cf_ServiceVersion config1 = ''1.0.0''
                     then config1\<lparr>cf_ServiceVersion := version\<rparr> else config1)
      in config2)"

definition IsProduction :: "Config \<Rightarrow> bool" where
  "IsProduction c = (cf_Environment c = ''prod'' \<or> cf_Environment c = ''production'')"

text \<open>
  The configuration \<open>LoadFromEnv\<close> builds in an environment that sets \<open>KEYCLOAK_URL\<close> and
  no other variable: every other field has its default. (With no variable set the
  configuration is not valid, for want of a Keycloak key or URL.)
\<close>

definition example_Config :: Config where
  "example_Config =
     \<lparr> cf_Port = ''8000'',
       cf_AllowedOrigins = [''http://localhost:3000''],
       cf_DatabaseConfig = default_DatabaseConfig,
       cf_KeycloakConfig =
         \<lparr> kc_URL = ''http://localhost:8080'', kc_Realm = ''master'',
           kc_PublicKeyBase64 = '''',
           kc_RequiredClaims = [''sub'', ''preferred_username''],
           kc_SkipPaths = [''/health'', ''/metrics''],
           kc_KeyRefreshInterval = 3600000000000, kc_HTTPTimeout = 10000000000 \<rparr>,
       cf_LogLevel = ''info'',
       cf_Environment = ''dev'',
       cf_ServiceName = ''microservice'',
       cf_ServiceVersion = ''1.0.0'' \<rparr>"

section \<open>gin: the request context and \<open>c.JSON\<close>\<close>

text \<open>
  gin (v1.9.1 in the guides of the repository) is a dependency, not a part of it; of
  \<open>*gin.Context\<close> the model keeps what the helpers read. \<open>c.Request\<close> is a pointer and is nil
  in a context that serves no request (\<open>gin.CreateTestContext\<close> makes such a one).
  A request has a URL, as every request has that a server receives: \<open>req_Path\<close> is
  \<open>c.Request.URL.Path\<close> and \<open>req_Query\<close> gives each key of the URL's query its first
  value. \<open>ctx_Keys\<close> is the map behind \<open>c.Set\<close> and \<open>c.Get\<close>.
\<close>

text \<open>
  The panics of the embedded code: a nil pointer that is dereferenced, the panics of
  \<open>NewServer\<close>, and the panics of the libraries it calls, each with the value it is raised
  with.
\<close>

datatype panic =
    NilPointerDereference
  | InvalidWriteHeaderCode int
  | InvalidServerOptions string
  | InvalidConfiguration ValidationError
  | UnknownGinMode string
  | InvalidCORSConfig string
  | HandlersAlreadyRegistered string

record Request =
  req_Path :: string
  req_Query :: "(string \<times> string) list"

record Context =
  ctx_Request :: "Request option"
  ctx_Keys :: "(string \<times> any) list"

text \<open>\<open>c.Query(key)\<close>: the first value of the key, or the empty string.\<close>

definition Query :: "Context \<Rightarrow> string \<Rightarrow> string" where
  "Query c key =
     (case ctx_Request c of
        None \<Rightarrow> ''''
      | Some r \<Rightarrow> (case map_of (req_Query r) key of None \<Rightarrow> '''' | Some v \<Rightarrow> v))"

text \<open>\<open>c.Get(key)\<close>: the value and whether the key is set, as an option.\<close>

definition Get :: "Context \<Rightarrow> string \<Rightarrow> any option" where
  "Get c key = map_of (ctx_Keys c) key"

text \<open>A request for one URL: the path and the query, no keys set on the context.\<close>

definition request_for ::
  "string \<Rightarrow> (string \<times> string) list \<Rightarrow> Context" where
  "request_for path query =
     \<lparr> ctx_Request = Some \<lparr> req_Path = path, req_Query = query \<rparr>, ctx_Keys = [] \<rparr>"

text \<open>
  The response a handler leaves: the status that goes to \<open>WriteHeader\<close> of the
  \<open>http.ResponseWriter\<close>, and the document written as the body, \<open>None\<close> when no byte is
  written. The handler is the first to write to its response and runs in a gin engine,
  which sends the header after the handler when nothing has been written.
\<close>

record Response =
  resp_Status :: int
  resp_Body :: "json option"

definition bodyAllowedForStatus :: "int \<Rightarrow> bool" where
  "bodyAllowedForStatus status =
     (if 100 \<le> status \<and> status \<le> 199 then False
      else if status = 204 then False
      else if status = 304 then False
      else True)"

text \<open>
  \<open>c.JSON(code, obj)\<close> is \<open>c.Render(code, render.JSON{Data: obj})\<close>. The second argument of
  the model is \<open>json.Marshal(obj)\<close>.

  \<^item> \<open>c.Status(code)\<close> sets the status of the response writer when \<open>code > 0\<close>; the writer
    starts at 200 and keeps that for any other code.
  \<^item> For a code that allows no body (1xx, 204, 304) the header is sent and nothing else.
  \<^item> Otherwise the object is encoded. When that fails, gin records the error and aborts
    the context, and nothing is written; when it succeeds, the header is sent and the
    document written.
  \<^item> Sending the header ends in \<open>WriteHeader\<close> of \<open>net/http\<close>, which panics for a status
    below 100 or above 999.
\<close>

definition JSON :: "int \<Rightarrow> json option \<Rightarrow> panic + Response" where
  "JSON code obj =
     (let status = (if code > 0 then code else 200)
      in if \<not> bodyAllowedForStatus code
         then Inr \<lparr> resp_Status = status, resp_Body = None \<rparr>
         else if status < 100 \<or> status > 999 then Inl (InvalidWriteHeaderCode status)
         else Inr \<lparr> resp_Status = status, resp_Body = obj \<rparr>)"

section \<open>types/pagination.go: PaginationRequest.Validate\<close>

record PaginationRequest =
  rq_Page :: int
  rq_PageSize :: int
  rq_SortBy :: string
  rq_SortOrder :: string

text \<open>
  \<open>Validate\<close> has a pointer receiver and assigns to its fields; the model returns the
  error (\<open>None\<close> is Go's \<open>nil\<close>) together with the request as the call leaves it. The four
  \<open>if\<close> statements run in sequence, each on the result of the one before.
\<close>

definition PaginationRequest_Validate ::
  "PaginationRequest \<Rightarrow> string option \<times> PaginationRequest" where
  "PaginationRequest_Validate p =
     (let p1 = (if rq_Page p < 1 then p\<lparr>rq_Page := 1\<rparr> else p);
          p2 = (if rq_PageSize p1 < 1 then p1\<lparr>rq_PageSize := 10\<rparr> else p1);
          p3 = (if rq_PageSize p2 > 100 then p2\<lparr>rq_PageSize := 100\<rparr> else p2);
          p4 = (if rq_SortOrder p3 \<noteq> ''asc'' \<and> rq_SortOrder p3 \<noteq> ''desc''
                then p3\<lparr>rq_SortOrder := ''desc''\<rparr> else p3)
      in (None, p4))"

section \<open>middleware/healthy.go\<close>

type_synonym HealthStatus = string

definition HealthStatusHealthy :: HealthStatus where
  "HealthStatusHealthy = ''healthy''"

definition HealthStatusUnhealthy :: HealthStatus where
  "HealthStatusUnhealthy = ''unhealthy''"

definition HealthStatusDegraded :: HealthStatus where
  "HealthStatusDegraded = ''degraded''"

record HealthCheck =
  hc_Name :: string
  hc_Status :: HealthStatus
  hc_Message :: string
  hc_LastChecked :: time
  hc_Duration :: duration
  hc_Metadata :: "(string \<times> any) list"

record HealthResponse =
  hr_Status :: HealthStatus
  hr_Timestamp :: time
  hr_Service :: string
  hr_Version :: string
  hr_Uptime :: duration
  hr_Checks :: "(string \<times> HealthCheck) list"
  hr_Metadata :: "(string \<times> any) list"

text \<open>
  The struct tags: \<open>message\<close>, \<open>metadata\<close> and \<open>checks\<close> carry \<open>omitempty\<close>, which leaves out
  an empty string and a map without entries. A \<open>time.Duration\<close> is written as its number
  of nanoseconds, the map of checks with its names in sorted order.
\<close>

definition marshal_HealthCheck :: "HealthCheck \<Rightarrow> json option" where
  "marshal_HealthCheck check =
     members
       ([(''name'', Some (JString (encode_string (hc_Name check)))),
         (''status'', Some (JString (encode_string (hc_Status check))))] @
        (if hc_Message check = '''' then []
         else [(''message'', Some (JString (encode_string (hc_Message check))))]) @
        [(''last_checked'', Some (JTime (hc_LastChecked check))),
         (''duration'', Some (JNumber (hc_Duration check)))] @
        (if hc_Metadata check = [] then []
         else [(''metadata'', json_of_map (hc_Metadata check))]))"

definition marshal_HealthResponse :: "HealthResponse \<Rightarrow> json option" where
  "marshal_HealthResponse r =
     members
       ([(''status'', Some (JString (encode_string (hr_Status r)))),
         (''timestamp'', Some (JTime (hr_Timestamp r))),
         (''service'', Some (JString (encode_string (hr_Service r)))),
         (''version'', Some (JString (encode_string (hr_Version r)))),
         (''uptime'', Some (JNumber (hr_Uptime r)))] @
        (if hr_Checks r = [] then []
         else [(''checks'',
                members (map (map_prod encode_string marshal_HealthCheck)
                           (sort_key fst (hr_Checks r))))]) @
        (if hr_Metadata r = [] then []
         else [(''metadata'', json_of_map (hr_Metadata r))]))"

text \<open>
  A \<open>HealthChecker\<close> is a Go closure \<open>func() HealthCheck\<close>. What it returns and how long it
  runs may depend on when it is called, so it is a function of the clock reading at its
  start that gives the check and the time it took.
\<close>

type_synonym HealthChecker = "time \<Rightarrow> HealthCheck \<times> duration"

record HealthConfig =
  cfg_ServiceName :: string
  cfg_ServiceVersion :: string
  cfg_StartTime :: time
  cfg_Checkers :: "(string \<times> HealthChecker) list"
  cfg_HealthPath :: string
  cfg_ReadinessPath :: string
  cfg_LivenessPath :: string

definition DefaultHealthConfig ::
  "string \<Rightarrow> string \<Rightarrow> time \<Rightarrow> HealthConfig" where
  "DefaultHealthConfig serviceName version now =
     \<lparr> cfg_ServiceName = serviceName,
       cfg_ServiceVersion = version,
       cfg_StartTime = now,
       cfg_Checkers = [],
       cfg_HealthPath = ''/health'',
       cfg_ReadinessPath = ''/ready'',
       cfg_LivenessPath = ''/live'' \<rparr>"

text \<open>
  \<open>runHealthChecks\<close>: the loop body runs the checker, overwrites \<open>Duration\<close> and
  \<open>LastChecked\<close> and stores the check under the checker's name. The second component is
  the clock after the loop.
\<close>

fun runHealthChecksLoop ::
  "(string \<times> HealthChecker) list \<Rightarrow> (string \<times> HealthCheck) list \<Rightarrow> time
     \<Rightarrow> (string \<times> HealthCheck) list \<times> time" where
  "runHealthChecksLoop [] checks now = (checks, now)"
| "runHealthChecksLoop ((name, checker) # rest) checks now =
     (let start = now;
          (check, took) = checker start;
          check1 = check\<lparr>hc_Duration := took\<rparr>;
          check2 = check1\<lparr>hc_LastChecked := start + took\<rparr>
      in runHealthChecksLoop rest (AList.update name check2 checks) (start + took))"

definition runHealthChecks ::
  "(string \<times> HealthChecker) list \<Rightarrow> time
     \<Rightarrow> (string \<times> HealthCheck) list \<times> time" where
  "runHealthChecks checkers now = runHealthChecksLoop checkers [] now"

text \<open>
  \<open>determineOverallStatus\<close>: the loop sets the two flags; a status that is neither
  \<open>unhealthy\<close> nor \<open>degraded\<close> (the type is a string) sets none.
\<close>

fun statusFlags ::
  "(string \<times> HealthCheck) list \<Rightarrow> bool \<times> bool \<Rightarrow> bool \<times> bool" where
  "statusFlags [] flags = flags"
| "statusFlags ((name, check) # rest) (hasUnhealthy, hasDegraded) =
     statusFlags rest
       (if hc_Status check = HealthStatusUnhealthy then (True, hasDegraded)
        else if hc_Status check = HealthStatusDegraded then (hasUnhealthy, True)
        else (hasUnhealthy, hasDegraded))"

definition determineOverallStatus ::
  "(string \<times> HealthCheck) list \<Rightarrow> HealthStatus" where
  "determineOverallStatus checks =
     (if length checks = 0 then HealthStatusHealthy
      else (case statusFlags checks (False, False) of
              (hasUnhealthy, hasDegraded) \<Rightarrow>
                if hasUnhealthy then HealthStatusUnhealthy
                else if hasDegraded then HealthStatusDegraded
                else HealthStatusHealthy))"

text \<open>
  \<open>handleHealthCheck\<close> in two steps: \<open>healthResponse\<close> is the function up to its last
  statement and gives the status code and the response it has built, and
  \<open>handleHealthCheck\<close> adds the last statement, \<open>c.JSON(statusCode, response)\<close>. \<open>now\<close> is
  the reading of \<open>time.Now()\<close> on entry.
\<close>

definition healthResponse ::
  "HealthConfig \<Rightarrow> bool \<Rightarrow> time \<Rightarrow> int \<times> HealthResponse" where
  "healthResponse config detailed now =
     (let response = \<lparr> hr_Status = HealthStatusHealthy,
                        hr_Timestamp = now,
                        hr_Service = cfg_ServiceName config,
                        hr_Version = cfg_ServiceVersion config,
                        hr_Uptime = now - cfg_StartTime config,
                        hr_Checks = [],
                        hr_Metadata = [] \<rparr>;
          response1 =
            (if detailed \<and> length (cfg_Checkers config) > 0
             then (let checks = fst (runHealthChecks (cfg_Checkers config) now)
                   in response\<lparr>hr_Checks := checks,
                               hr_Status := determineOverallStatus checks\<rparr>)
             else response);
          statusCode = (if hr_Status response1 = HealthStatusUnhealthy
                        then StatusServiceUnavailable else StatusOK)
      in (statusCode, response1))"

definition handleHealthCheck ::
  "HealthConfig \<Rightarrow> bool \<Rightarrow> time \<Rightarrow> panic + Response" where
  "handleHealthCheck config detailed now =
     (case healthResponse config detailed now of
        (statusCode, response) \<Rightarrow> JSON statusCode (marshal_HealthResponse response))"

text \<open>
  \<open>HealthMiddleware\<close> switches on the request path; Go takes the first case that
  matches. The model names the handler the request goes to.
\<close>

datatype health_dispatch =
    HandleHealthCheck bool
  | HandleReadinessCheck
  | HandleLivenessCheck
  | Next

definition HealthMiddleware ::
  "HealthConfig \<Rightarrow> string \<Rightarrow> health_dispatch" where
  "HealthMiddleware config path =
     (if path = cfg_HealthPath config then HandleHealthCheck True
      else if path = cfg_ReadinessPath config then HandleReadinessCheck
      else if path = cfg_LivenessPath config then HandleLivenessCheck
      else Next)"

text \<open>
  The statuses the registered checkers return when they are called one after the other
  from \<open>now\<close> on, each at the instant the one before it has finished. This is what the
  overall status is compared with.
\<close>

fun returned_statuses :: "(string \<times> HealthChecker) list \<Rightarrow> time \<Rightarrow> HealthStatus list" where
  "returned_statuses [] now = []"
| "returned_statuses ((name, checker) # rest) now =
     hc_Status (fst (checker now)) # returned_statuses rest (now + snd (checker now))"

section \<open>server: options, middleware and default routes\<close>

subsection \<open>Route paths in gin\<close>

text \<open>
  \<open>router.GET(relativePath, handler)\<close> registers the handler under
  \<open>joinPaths(basePath, relativePath)\<close>, where the base path of the engine is \<open>/\<close>.
  \<open>joinPaths\<close> joins the two with \<open>path.Join\<close>, which cleans the result with \<open>path.Clean\<close>,
  and puts back a slash that the relative path ended with.

  \<open>path.Clean\<close> drops empty elements and \<open>.\<close>, and lets \<open>..\<close> take away the element before
  it; at the root there is none to take away and the \<open>..\<close> is dropped, in a relative path
  it is kept. \<open>elements\<close> splits a path at its slashes, \<open>resolve\<close> works through the
  elements with the ones kept so far, last first.
\<close>

fun elements :: "string \<Rightarrow> string \<Rightarrow> string list" where
  "elements cur [] = [rev cur]"
| "elements cur (c # cs) =
     (if c = CHR ''/'' then rev cur # elements [] cs else elements (c # cur) cs)"

fun resolve :: "bool \<Rightarrow> string list \<Rightarrow> string list \<Rightarrow> string list" where
  "resolve rooted kept [] = rev kept"
| "resolve rooted kept (e # es) =
     (if e = '''' \<or> e = ''.'' then resolve rooted kept es
      else if e = ''..''
      then (if kept \<noteq> [] \<and> hd kept \<noteq> ''..'' then resolve rooted (tl kept) es
            else if rooted then resolve rooted kept es
            else resolve rooted (e # kept) es)
      else resolve rooted (e # kept) es)"

fun join_elements :: "string list \<Rightarrow> string" where
  "join_elements [] = ''''"
| "join_elements [e] = e"
| "join_elements (e # es) = e @ ''/'' @ join_elements es"

definition Clean :: "string \<Rightarrow> string" where
  "Clean p =
     (if p = '''' then ''.''
      else if hd p = CHR ''/'' then ''/'' @ join_elements (resolve True [] (elements [] p))
      else (let out = join_elements (resolve False [] (elements [] p))
            in if out = '''' then ''.'' else out))"

text \<open>
  \<open>path.Join\<close> of two elements: a slash goes between them once the first is not empty,
  and the result is cleaned.
\<close>

definition Join :: "string \<Rightarrow> string \<Rightarrow> string" where
  "Join a b =
     (if a = '''' \<and> b = '''' then ''''
      else Clean (if a = '''' then b else a @ ''/'' @ b))"

definition joinPaths :: "string \<Rightarrow> string \<Rightarrow> string" where
  "joinPaths absolutePath relativePath =
     (if relativePath = '''' then absolutePath
      else (let finalPath = Join absolutePath relativePath
            in if last relativePath = CHR ''/'' \<and> last finalPath \<noteq> CHR ''/''
               then finalPath @ ''/'' else finalPath))"

subsection \<open>The engine\<close>

text \<open>
  The handlers the library installs, by name: the middleware of gin, the handler
  \<open>cors.New\<close> returns for a list of allowed origins, the closure \<open>HealthMiddleware\<close> returns
  for a configuration, the two health handlers of the server, and any other handler of
  the application.
\<close>

datatype HandlerFunc =
    gin_Recovery
  | gin_Logger
  | cors_New "string list"
  | middleware_HealthMiddleware HealthConfig
  | healthCheckHandler
  | detailedHealthHandler
  | application_handler string

text \<open>
  Of \<open>gin.Engine\<close>: the middleware installed with \<open>Use\<close>, in order, and the routes, each
  with its method, its path and its chain of handlers. \<open>GET\<close> puts the middleware
  installed so far in front of the handler. The route tree of gin panics when a path is
  registered twice for a method. A \<open>:\<close> or \<open>*\<close> in a path starts a parameter; the model
  keeps the path as it is registered and does not tell parameters from text.
\<close>

record Engine =
  eng_Handlers :: "HandlerFunc list"
  eng_routes :: "(string \<times> string \<times> HandlerFunc list) list"

definition gin_New :: Engine where
  "gin_New = \<lparr> eng_Handlers = [], eng_routes = [] \<rparr>"

definition Use :: "Engine \<Rightarrow> HandlerFunc \<Rightarrow> Engine" where
  "Use e h = e\<lparr>eng_Handlers := eng_Handlers e @ [h]\<rparr>"

definition GET :: "Engine \<Rightarrow> string \<Rightarrow> HandlerFunc \<Rightarrow> panic + Engine" where
  "GET e relativePath h =
     (let absolutePath = joinPaths ''/'' relativePath;
          handlers = eng_Handlers e @ [h]
      in if (''GET'', absolutePath) \<in> set (map (\<lambda>(m, p, hs). (m, p)) (eng_routes e))
         then Inl (HandlersAlreadyRegistered absolutePath)
         else Inr (e\<lparr>eng_routes := eng_routes e @ [(''GET'', absolutePath, handlers)]\<rparr>))"

definition route_paths :: "Engine \<Rightarrow> (string \<times> string) list" where
  "route_paths e = map (\<lambda>(m, p, hs). (m, p)) (eng_routes e)"

text \<open>\<open>gin.SetMode\<close> knows three modes and panics for any other name that is not empty.\<close>

definition ReleaseMode :: string where
  "ReleaseMode = ''release''"

definition SetMode :: "string \<Rightarrow> panic option" where
  "SetMode mode =
     (if mode = '''' \<or> mode = ''debug'' \<or> mode = ''release'' \<or> mode = ''test''
      then None
      else Some (UnknownGinMode mode))"

subsection \<open>The server\<close>

text \<open>
  Of \<open>ServerOptions\<close>: \<open>SetupRoutes\<close> is a function on the router and the configuration,
  and \<open>Config\<close> a pointer to a configuration; \<open>None\<close> is nil.
\<close>

record ServerOptions =
  so_ServiceName :: string
  so_ServiceVersion :: string
  so_SetupRoutes :: "(Engine \<Rightarrow> Config \<Rightarrow> panic + Engine) option"
  so_Config :: "Config option"
  so_Port :: string
  so_GinMode :: string
  so_DisableLogging :: bool
  so_DisableCORS :: bool
  so_DisableHealth :: bool
  so_DisableRecover :: bool
  so_CustomMiddleware :: "HandlerFunc list"
  so_HealthPath :: string
  so_MetricsPath :: string

definition DefaultServerOptions :: ServerOptions where
  "DefaultServerOptions =
     \<lparr> so_ServiceName = '''',
       so_ServiceVersion = '''',
       so_SetupRoutes = None,
       so_Config = None,
       so_Port = '''',
       so_GinMode = ReleaseMode,
       so_DisableLogging = False,
       so_DisableCORS = False,
       so_DisableHealth = False,
       so_DisableRecover = False,
       so_CustomMiddleware = [],
       so_HealthPath = ''/health'',
       so_MetricsPath = ''/metrics'' \<rparr>"

text \<open>\<open>ServerOptions.Validate\<close>: the message of the error, \<open>None\<close> for nil.\<close>

definition ServerOptions_Validate :: "ServerOptions \<Rightarrow> string option" where
  "ServerOptions_Validate options =
     (if so_ServiceName options = '''' then Some ''ServiceName is required''
      else if so_ServiceVersion options = '''' then Some ''ServiceVersion is required''
      else if so_SetupRoutes options = None then Some ''SetupRoutes function is required''
      else None)"

text \<open>
  \<open>setupCORS\<close> builds the handler with \<open>cors.New\<close> of \<open>gin-contrib/cors\<close>, which validates
  its configuration and panics with the error when there is one. That validation is
  outside the repository: it is the argument \<open>corsValidate\<close>, a function of the allowed
  origins, the one part of the configuration that \<open>setupCORS\<close> does not fix.
\<close>

definition setupCORS ::
  "(string list \<Rightarrow> string option) \<Rightarrow> Config \<Rightarrow> Engine \<Rightarrow> panic + Engine" where
  "setupCORS corsValidate config e =
     (case corsValidate (cf_AllowedOrigins config) of
        Some err \<Rightarrow> Inl (InvalidCORSConfig err)
      | None \<Rightarrow> Inr (Use e (cors_New (cf_AllowedOrigins config))))"

definition setupMiddleware ::
  "(string list \<Rightarrow> string option) \<Rightarrow> ServerOptions \<Rightarrow> Config \<Rightarrow> Engine
     \<Rightarrow> panic + Engine" where
  "setupMiddleware corsValidate options config e =
     (let e1 = (if \<not> so_DisableRecover options then Use e gin_Recovery else e);
          e2 = (if \<not> so_DisableLogging options then Use e1 gin_Logger else e1)
      in case (if \<not> so_DisableCORS options then setupCORS corsValidate config e2
               else Inr e2) of
           Inl p \<Rightarrow> Inl p
         | Inr e3 \<Rightarrow> Inr (foldl Use e3 (so_CustomMiddleware options)))"

definition setupHealthRoutes :: "ServerOptions \<Rightarrow> Engine \<Rightarrow> panic + Engine" where
  "setupHealthRoutes options e =
     (let healthPath = (if so_HealthPath options = '''' then ''/health''
                        else so_HealthPath options)
      in case GET e healthPath healthCheckHandler of
           Inl p \<Rightarrow> Inl p
         | Inr e1 \<Rightarrow> GET e1 (healthPath @ ''/detailed'') detailedHealthHandler)"

definition setupDefaultRoutes :: "ServerOptions \<Rightarrow> Engine \<Rightarrow> panic + Engine" where
  "setupDefaultRoutes options e =
     (if \<not> so_DisableHealth options then setupHealthRoutes options e else Inr e)"

text \<open>
  \<open>NewServer\<close> up to the router it has built. \<open>fromEnv\<close> is the configuration in the
  environment, which is loaded when the options carry none. The options and the
  configuration are validated, the mode of gin is set, and the middleware, the default
  routes and the routes of the application follow on a new engine.
\<close>

definition NewServer ::
  "(string list \<Rightarrow> string option) \<Rightarrow> ServerOptions \<Rightarrow> Config \<Rightarrow> panic + Engine" where
  "NewServer corsValidate options fromEnv =
     (case ServerOptions_Validate options of
        Some err \<Rightarrow> Inl (InvalidServerOptions err)
      | None \<Rightarrow>
          (let cfg = (case so_Config options of
                        None \<Rightarrow> LoadWithServiceInfo fromEnv (so_ServiceName options)
                                  (so_ServiceVersion options)
                      | Some c \<Rightarrow> c)
           in case Config_Validate cfg of
                Some err \<Rightarrow> Inl (InvalidConfiguration err)
              | None \<Rightarrow>
                  (case (if so_GinMode options \<noteq> '''' then SetMode (so_GinMode options)
                         else if IsProduction cfg then SetMode ReleaseMode
                         else None) of
                     Some p \<Rightarrow> Inl p
                   | None \<Rightarrow>
                       (case setupMiddleware corsValidate options cfg gin_New of
                          Inl p \<Rightarrow> Inl p
                        | Inr e \<Rightarrow>
                            (case setupDefaultRoutes options e of
                               Inl p \<Rightarrow> Inl p
                             | Inr router \<Rightarrow>
                                 (case so_SetupRoutes options of
                                    None \<Rightarrow> Inl NilPointerDereference
                                  | Some setupRoutes \<Rightarrow> setupRoutes router cfg))))))"

section \<open>responses: pagination parameters\<close>

text \<open>
  A product of two \<open>int\<close>s wraps around in Go; \<open>wrap64\<close> takes the mathematical result to
  the 64-bit two's complement value the machine keeps.
\<close>

definition wrap64 :: "int \<Rightarrow> int" where
  "wrap64 x = (x + 2 ^ 63) mod 2 ^ 64 - 2 ^ 63"

record PaginationParams =
  pp_Page :: int
  pp_PageSize :: int
  pp_Offset :: int
  pp_Limit :: int

definition DefaultPage :: int where
  "DefaultPage = 1"

definition DefaultPageSize :: int where
  "DefaultPageSize = 10"

definition MaxPageSize :: int where
  "MaxPageSize = 100"

definition getIntParam :: "Context \<Rightarrow> string \<Rightarrow> int \<Rightarrow> int" where
  "getIntParam c key defaultValue =
     (let param = Query c key
      in if param = '''' then defaultValue
         else (case Atoi param of
                 Inl err \<Rightarrow> defaultValue
               | Inr v \<Rightarrow> v))"

definition GetPaginationParams :: "Context \<Rightarrow> PaginationParams" where
  "GetPaginationParams c =
     (let page0 = getIntParam c ''page'' DefaultPage;
          pageSize0 = getIntParam c ''page_size'' DefaultPageSize;
          page = (if page0 < 1 then DefaultPage else page0);
          pageSize1 = (if pageSize0 < 1 then DefaultPageSize else pageSize0);
          pageSize = (if pageSize1 > MaxPageSize then MaxPageSize else pageSize1);
          offset = wrap64 ((page - 1) * pageSize)
      in \<lparr> pp_Page = page, pp_PageSize = pageSize, pp_Offset = offset,
           pp_Limit = pageSize \<rparr>)"

section \<open>responses: the JSON envelopes\<close>

subsection \<open>Error responses\<close>

record ErrorResponse =
  er_Error :: string
  er_Code :: string
  er_Details :: string
  er_Timestamp :: time
  er_Path :: string
  er_RequestID :: string
  er_Metadata :: any

text \<open>
  The struct tags of \<open>ErrorResponse\<close>: \<open>error\<close>, \<open>code\<close> and \<open>timestamp\<close> are always
  written; \<open>details\<close>, \<open>path\<close> and \<open>request_id\<close> carry \<open>omitempty\<close> and are left out when
  the string is empty, \<open>metadata\<close> when the interface is nil.
\<close>

definition marshal_ErrorResponse :: "ErrorResponse \<Rightarrow> json option" where
  "marshal_ErrorResponse r =
     members
       ([(''error'', Some (JString (encode_string (er_Error r)))),
         (''code'', Some (JString (encode_string (er_Code r))))] @
        (if er_Details r = '''' then []
         else [(''details'', Some (JString (encode_string (er_Details r))))]) @
        [(''timestamp'', Some (JTime (er_Timestamp r)))] @
        (if er_Path r = '''' then []
         else [(''path'', Some (JString (encode_string (er_Path r))))]) @
        (if er_RequestID r = '''' then []
         else [(''request_id'', Some (JString (encode_string (er_RequestID r))))]) @
        (if er_Metadata r = ANil then []
         else [(''metadata'', json_of_any (er_Metadata r))]))"

record APIError =
  ae_StatusCode :: int
  ae_Code :: string
  ae_Message :: string
  ae_Details :: string
  ae_Metadata :: any

text \<open>
  The block shared by \<open>Error\<close> and \<open>HandleAPIError\<close>: the request ID is copied when the key
  is set and its value is a string.
\<close>

definition addRequestID :: "Context \<Rightarrow> ErrorResponse \<Rightarrow> ErrorResponse" where
  "addRequestID c response =
     (case Get c ''request_id'' of
        Some (AString ident) \<Rightarrow> response\<lparr>er_RequestID := ident\<rparr>
      | _ \<Rightarrow> response)"

text \<open>
  \<open>Error\<close> reads \<open>c.Request.URL.Path\<close>, which panics on a context without a request.
  \<open>now\<close> is the reading of \<open>time.Now().UTC()\<close>.
\<close>

definition Error ::
  "Context \<Rightarrow> int \<Rightarrow> string \<Rightarrow> string \<Rightarrow> time \<Rightarrow> panic + Response" where
  "Error c status code message now =
     (case ctx_Request c of
        None \<Rightarrow> Inl NilPointerDereference
      | Some request \<Rightarrow>
          (let response = \<lparr> er_Error = message, er_Code = code, er_Details = '''',
                             er_Timestamp = now, er_Path = req_Path request,
                             er_RequestID = '''', er_Metadata = ANil \<rparr>
           in JSON status (marshal_ErrorResponse (addRequestID c response))))"

text \<open>\<open>HandleAPIError\<close> takes a pointer to the error; \<open>None\<close> is the nil pointer.\<close>

definition HandleAPIError ::
  "Context \<Rightarrow> APIError option \<Rightarrow> time \<Rightarrow> panic + Response" where
  "HandleAPIError c err now =
     (case err of
        None \<Rightarrow> Inl NilPointerDereference
      | Some e \<Rightarrow>
          (case ctx_Request c of
             None \<Rightarrow> Inl NilPointerDereference
           | Some request \<Rightarrow>
               (let response = \<lparr> er_Error = ae_Message e, er_Code = ae_Code e,
                                  er_Details = ae_Details e, er_Timestamp = now,
                                  er_Path = req_Path request, er_RequestID = '''',
                                  er_Metadata = ae_Metadata e \<rparr>
                in JSON (ae_StatusCode e)
                     (marshal_ErrorResponse (addRequestID c response)))))"

subsection \<open>Success responses\<close>

record SuccessResponse =
  sr_Message :: string
  sr_Data :: any
  sr_Timestamp :: time

text \<open>The tag of \<open>Data\<close> is \<open>json:"data,omitempty"\<close>: a nil interface is left out.\<close>

definition marshal_SuccessResponse ::
  "SuccessResponse \<Rightarrow> json option" where
  "marshal_SuccessResponse r =
     members
       ([(''message'', Some (JString (encode_string (sr_Message r))))] @
        (if sr_Data r = ANil then [] else [(''data'', json_of_any (sr_Data r))]) @
        [(''timestamp'', Some (JTime (sr_Timestamp r)))])"

definition Success ::
  "Context \<Rightarrow> string \<Rightarrow> any \<Rightarrow> time \<Rightarrow> panic + Response" where
  "Success c message data now =
     (let response = \<lparr> sr_Message = message, sr_Data = data, sr_Timestamp = now \<rparr>
      in JSON StatusOK (marshal_SuccessResponse response))"

text \<open>\<open>OK\<close>, the helper of the package that calls \<open>Success\<close> with nil data.\<close>

definition OK :: "Context \<Rightarrow> string \<Rightarrow> time \<Rightarrow> panic + Response" where
  "OK c message now = Success c message ANil now"

section \<open>database: ConnectionManager.Connect\<close>

text \<open>
  \<open>Connect\<close> calls \<open>pgconnect.New\<close>, prints and sleeps. The calls that matter for the retry
  logic are recorded as events: \<open>Attempt n\<close> for the call of \<open>pgconnect.New\<close> made while
  the loop counter is \<open>n\<close>, and \<open>Sleep d\<close> for \<open>time.Sleep(d)\<close>; the \<open>Printf\<close> lines are
  left out. The database is the function \<open>dial\<close>: its value at \<open>i\<close> is what the call of
  \<open>pgconnect.New\<close> that follows \<open>i\<close> earlier calls returns, a connection (possibly nil) and
  an error (\<open>None\<close> for nil).

  \<open>maxRetries\<close> and \<open>retryDelay\<close> come from the environment through \<open>utils.GetEnvInt\<close>,
  which is not among the sources; they are parameters. The construction of \<open>pgConfig\<close>
  does not reach the loop and is left out.
\<close>

datatype event = Attempt int | Sleep duration

record 'db ConnectState =
  cm_db :: "'db option"
  dials :: nat
  trace :: "event list"

datatype ConnectError = FailedAfter int "string option"

text \<open>
  The loop \<open>for attempt := 1; attempt <= maxRetries; attempt++\<close>. The counter is a Go
  \<open>int\<close> and \<open>attempt++\<close> wraps around. Nothing bounds the number of iterations from
  outside, so the loop is a partial function: \<open>None\<close> means that it does not return.
  \<open>lastErr\<close> is the variable \<open>err\<close>, declared before the loop.
\<close>

partial_function (option) connectLoop ::
  "(nat \<Rightarrow> 'db option \<times> string option) \<Rightarrow> int \<Rightarrow> duration \<Rightarrow> int \<Rightarrow> string option
     \<Rightarrow> 'db ConnectState
     \<Rightarrow> (('db option \<times> ConnectError option) \<times> 'db ConnectState) option" where
  "connectLoop dial maxRetries retryDelay attempt lastErr s =
     (if attempt \<le> maxRetries
      then (case dial (dials s) of
              (db, err) \<Rightarrow>
                (let s1 = s\<lparr>cm_db := db, dials := dials s + 1,
                            trace := trace s @ [Attempt attempt]\<rparr>
                 in if err = None then Some ((db, None), s1)
                    else (let s2 = (if attempt < maxRetries
                                    then s1\<lparr>trace := trace s1 @ [Sleep retryDelay]\<rparr>
                                    else s1)
                          in connectLoop dial maxRetries retryDelay (wrap64 (attempt + 1))
                               err s2)))
      else Some ((None, Some (FailedAfter maxRetries lastErr)), s))"

definition Connect ::
  "(nat \<Rightarrow> 'db option \<times> string option) \<Rightarrow> int \<Rightarrow> duration
     \<Rightarrow> (('db option \<times> ConnectError option) \<times> 'db ConnectState) option" where
  "Connect dial maxRetries retryDelay =
     connectLoop dial maxRetries retryDelay 1 None
       \<lparr> cm_db = None, dials = 0, trace = [] \<rparr>"

text \<open>Counting the events of a trace.\<close>

fun attempts :: "event list \<Rightarrow> nat" where
  "attempts [] = 0"
| "attempts (Attempt n # es) = Suc (attempts es)"
| "attempts (Sleep d # es) = attempts es"

fun sleeps :: "event list \<Rightarrow> nat" where
  "sleeps [] = 0"
| "sleeps (Attempt n # es) = sleeps es"
| "sleeps (Sleep d # es) = Suc (sleeps es)"

text \<open>
  The words of the claim: \<open>k\<close> attempts numbered from \<open>n\<close>, with one sleep of the fixed
  delay between each two that follow one another and nothing else.
\<close>

fun retry_trace :: "duration \<Rightarrow> int \<Rightarrow> nat \<Rightarrow> event list" where
  "retry_trace d n 0 = []"
| "retry_trace d n (Suc 0) = [Attempt n]"
| "retry_trace d n (Suc (Suc k)) = Attempt n # Sleep d # retry_trace d (n + 1) (Suc k)"

text \<open>
  What a run of the loop that starts with the counter at \<open>attempt\<close> and has \<open>m\<close>
  iterations left has done when it returns \<open>r\<close> in the state \<open>s'\<close> after \<open>k\<close> attempts.
\<close>

definition run_outcome ::
  "(nat \<Rightarrow> 'db option \<times> string option) \<Rightarrow> int \<Rightarrow> duration \<Rightarrow> int \<Rightarrow> string option
     \<Rightarrow> 'db ConnectState \<Rightarrow> nat \<Rightarrow> ('db option \<times> ConnectError option)
     \<Rightarrow> 'db ConnectState \<Rightarrow> nat \<Rightarrow> bool" where
  "run_outcome dial maxRetries retryDelay attempt lastErr s m r s' k \<longleftrightarrow>
     k \<le> m \<and> (0 < m \<longrightarrow> 0 < k) \<and>
     dials s' = dials s + k \<and>
     trace s' = trace s @ retry_trace retryDelay attempt k \<and>
     (\<forall>j. j + 1 < k \<longrightarrow> snd (dial (dials s + j)) \<noteq> None) \<and>
     (snd r = None \<longrightarrow>
        0 < k \<and> snd (dial (dials s + k - 1)) = None \<and> fst r = fst (dial (dials s + k - 1))) \<and>
     (snd r \<noteq> None \<longrightarrow>
        k = m \<and> fst r = None \<and> (\<forall>j < m. snd (dial (dials s + j)) \<noteq> None) \<and>
        snd r = Some (FailedAfter maxRetries
                  (if m = 0 then lastErr else snd (dial (dials s + m - 1)))))"

text \<open>A database that refuses every connection.\<close>

definition refuse_all :: "nat \<Rightarrow> nat option \<times> string option" where
  "refuse_all i = (None, Some ''connection refused'')"

section \<open>responses: pagination metadata\<close>

subsection \<open>float64 arithmetic\<close>

text \<open>
  \<open>Paginated\<close>, \<open>CreatePaginationMeta\<close> and \<open>CalculateTotalPages\<close> compute in \<open>float64\<close>.
  A finite \<open>float64\<close> is the real number it stands for. Go rounds a conversion and
  a quotient to the nearest \<open>float64\<close>, ties to the even significand (IEEE 754);
  \<open>round_f64\<close> does so for a number in the range of the normal \<open>float64\<close>s, where the
  significand has 53 bits. The numbers that occur here, integers of 64 bits and their
  quotients, have magnitudes between \<open>2 powi -63\<close> and \<open>2 ^ 63\<close> and are in that range.

  \<open>f64_exponent q\<close> is the exponent \<open>e\<close> with \<open>2 powi e \<le> q < 2 powi (e + 1)\<close> of a
  positive \<open>q\<close>.
\<close>

definition f64_exponent :: "real \<Rightarrow> int" where
  "f64_exponent q = (if 1 \<le> q then bitlen \<lfloor>q\<rfloor> - 1 else - bitlen (\<lceil>1 / q\<rceil> - 1))"

definition round_half_even :: "real \<Rightarrow> int" where
  "round_half_even m =
     (let f = \<lfloor>m\<rfloor>
      in if m - of_int f < 1 / 2 then f
         else if m - of_int f > 1 / 2 then f + 1
         else if even f then f else f + 1)"

definition round_f64 :: "real \<Rightarrow> real" where
  "round_f64 q =
     (if q = 0 then 0
      else (let ulp = 2 powi (f64_exponent \<bar>q\<bar> - 52)
            in sgn q * of_int (round_half_even (\<bar>q\<bar> / ulp)) * ulp))"

text \<open>The conversion \<open>float64(n)\<close> of an integer and the quotient of two \<open>float64\<close>s.\<close>

definition float64 :: "int \<Rightarrow> real" where
  "float64 n = round_f64 (of_int n)"

definition f64_div :: "real \<Rightarrow> real \<Rightarrow> real" where
  "f64_div x y = round_f64 (x / y)"

text \<open>\<open>math.Ceil\<close> is exact: the least integer not below a \<open>float64\<close> is a \<open>float64\<close>.\<close>

definition Ceil :: "real \<Rightarrow> real" where
  "Ceil x = of_int \<lceil>x\<rceil>"

text \<open>
  The conversion \<open>int(x)\<close> of a \<open>float64\<close> drops the fraction. For a value outside the
  range of \<open>int\<close> the Go specification leaves the result to the implementation; the
  model has no result there.
\<close>

definition int_of_f64 :: "real \<Rightarrow> int option" where
  "int_of_f64 x =
     (let t = (if 0 \<le> x then \<lfloor>x\<rfloor> else \<lceil>x\<rceil>)
      in if MinInt64 \<le> t \<and> t \<le> MaxInt64 then Some t else None)"

subsection \<open>The metadata\<close>

text \<open>
  \<open>totalPages := int(math.Ceil(float64(total) / float64(pageSize)))\<close>, the expression
  shared by \<open>Paginated\<close>, \<open>CreatePaginationMeta\<close> and \<open>CalculateTotalPages\<close>. Division by
  \<open>float64(0)\<close> gives an infinity or a NaN, whose conversion to \<open>int\<close> is again left to
  the implementation: no result.
\<close>

definition CalculateTotalPages :: "int \<Rightarrow> int \<Rightarrow> int option" where
  "CalculateTotalPages totalItems pageSize =
     (if float64 pageSize = 0 then None
      else int_of_f64 (Ceil (f64_div (float64 totalItems) (float64 pageSize))))"

record PaginationMeta =
  pm_Total :: int
  pm_Page :: int
  pm_PageSize :: int
  pm_TotalPages :: int
  pm_HasNext :: bool
  pm_HasPrev :: bool

definition CreatePaginationMeta ::
  "int \<Rightarrow> int \<Rightarrow> int \<Rightarrow> PaginationMeta option" where
  "CreatePaginationMeta totalItems page pageSize =
     (case CalculateTotalPages totalItems pageSize of
        None \<Rightarrow> None
      | Some totalPages \<Rightarrow>
          Some \<lparr> pm_Total = totalItems, pm_Page = page, pm_PageSize = pageSize,
                 pm_TotalPages = totalPages, pm_HasNext = (page < totalPages),
                 pm_HasPrev = (page > 1) \<rparr>)"

record PaginationResponse =
  pr_Data :: any
  pr_Total :: int
  pr_Page :: int
  pr_PageSize :: int
  pr_TotalPages :: int
  pr_HasNext :: bool
  pr_HasPrev :: bool
  pr_Timestamp :: time

text \<open>No member of \<open>PaginationResponse\<close> carries \<open>omitempty\<close>.\<close>

definition marshal_PaginationResponse ::
  "PaginationResponse \<Rightarrow> json option" where
  "marshal_PaginationResponse r =
     members [(''data'', json_of_any (pr_Data r)),
              (''total'', Some (JNumber (pr_Total r))),
              (''page'', Some (JNumber (pr_Page r))),
              (''page_size'', Some (JNumber (pr_PageSize r))),
              (''total_pages'', Some (JNumber (pr_TotalPages r))),
              (''has_next'', Some (JBool (pr_HasNext r))),
              (''has_prev'', Some (JBool (pr_HasPrev r))),
              (''timestamp'', Some (JTime (pr_Timestamp r)))]"

definition Paginated ::
  "Context \<Rightarrow> any \<Rightarrow> int \<Rightarrow> int \<Rightarrow> int \<Rightarrow> time
     \<Rightarrow> (panic + Response) option" where
  "Paginated c data totalItems page pageSize now =
     (case CalculateTotalPages totalItems pageSize of
        None \<Rightarrow> None
      | Some totalPages \<Rightarrow>
          (let response = \<lparr> pr_Data = data, pr_Total = totalItems, pr_Page = page,
                             pr_PageSize = pageSize, pr_TotalPages = totalPages,
                             pr_HasNext = (page < totalPages), pr_HasPrev = (page > 1),
                             pr_Timestamp = now \<rparr>
           in Some (JSON StatusOK (marshal_PaginationResponse response))))"

section \<open>Theorems\<close>

subsection \<open>C10: PaginationRequest.Validate\<close>

lemma Validate_unfold:
  "PaginationRequest_Validate p =
     (None,
      p\<lparr> rq_Page := (if rq_Page p < 1 then 1 else rq_Page p),
         rq_PageSize := (if rq_PageSize p < 1 then 10
                         else if rq_PageSize p > 100 then 100 else rq_PageSize p),
         rq_SortOrder := (if rq_SortOrder p \<noteq> ''asc'' \<and> rq_SortOrder p \<noteq> ''desc''
                          then ''desc'' else rq_SortOrder p) \<rparr>)"
  by (simp add: PaginationRequest_Validate_def Let_def)

text \<open>
  C10. For every PaginationRequest, \<open>Validate\<close> returns nil, and the request it leaves
  has \<open>Page \<ge> 1\<close>, \<open>1 \<le> PageSize \<le> 100\<close> and \<open>SortOrder\<close> one of \<open>asc\<close> and \<open>desc\<close>. A field
  that met its constraint before the call is unchanged, \<open>SortBy\<close> is never touched, and a
  field that did not is replaced without an error: \<open>Page\<close> by 1, a \<open>PageSize\<close> below 1 by
  10, a \<open>PageSize\<close> above 100 by 100, any other \<open>SortOrder\<close> by \<open>desc\<close>.
\<close>

theorem Validate_never_fails_and_normalises:
  "fst (PaginationRequest_Validate p) = None \<and>
   rq_Page (snd (PaginationRequest_Validate p)) \<ge> 1 \<and>
   1 \<le> rq_PageSize (snd (PaginationRequest_Validate p)) \<and> rq_PageSize (snd (PaginationRequest_Validate p)) \<le> 100 \<and>
   rq_SortOrder (snd (PaginationRequest_Validate p)) \<in> {''asc'', ''desc''} \<and>
   rq_SortBy (snd (PaginationRequest_Validate p)) = rq_SortBy p \<and>
   rq_Page (snd (PaginationRequest_Validate p)) = (if rq_Page p \<ge> 1 then rq_Page p else 1) \<and>
   rq_PageSize (snd (PaginationRequest_Validate p)) =
     (if 1 \<le> rq_PageSize p \<and> rq_PageSize p \<le> 100 then rq_PageSize p
      else if rq_PageSize p < 1 then 10 else 100) \<and>
   rq_SortOrder (snd (PaginationRequest_Validate p)) =
     (if rq_SortOrder p \<in> {''asc'', ''desc''} then rq_SortOrder p else ''desc'')"
  by (simp add: Validate_unfold)

theorem Validate_never_fails_and_normalises_witness:
  "PaginationRequest_Validate \<lparr>rq_Page = 0, rq_PageSize = 250, rq_SortBy = ''name'', rq_SortOrder = ''up''\<rparr>
     = (None, \<lparr>rq_Page = 1, rq_PageSize = 100, rq_SortBy = ''name'', rq_SortOrder = ''desc''\<rparr>)"
proof -
  let ?p = "\<lparr>rq_Page = 0, rq_PageSize = 250, rq_SortBy = ''name'', rq_SortOrder = ''up''\<rparr>"
  have "fst (PaginationRequest_Validate ?p) = None"
    and "rq_Page (snd (PaginationRequest_Validate ?p)) = 1"
    and "rq_PageSize (snd (PaginationRequest_Validate ?p)) = 100"
    and "rq_SortOrder (snd (PaginationRequest_Validate ?p)) = ''desc''"
    and "rq_SortBy (snd (PaginationRequest_Validate ?p)) = ''name''"
    using Validate_never_fails_and_normalises [of ?p] by simp_all
  then show ?thesis
    by (cases "PaginationRequest_Validate ?p") (auto intro: PaginationRequest.equality)
qed

subsection \<open>The encoder of strings against valid UTF-8\<close>

lemma leading_cases:
  "leading a = Some (sz, lo, hi) \<Longrightarrow>
     (sz = 2 \<and> 194 \<le> byte a \<and> byte a \<le> 223 \<and> lo = 128 \<and> hi = 191) \<or>
     (sz = 3 \<and> byte a = 224 \<and> lo = 160 \<and> hi = 191) \<or>
     (sz = 3 \<and> byte a = 237 \<and> lo = 128 \<and> hi = 159) \<or>
     (sz = 3 \<and> ((225 \<le> byte a \<and> byte a \<le> 236) \<or> (238 \<le> byte a \<and> byte a \<le> 239))
        \<and> lo = 128 \<and> hi = 191) \<or>
     (sz = 4 \<and> byte a = 240 \<and> lo = 144 \<and> hi = 191) \<or>
     (sz = 4 \<and> 241 \<le> byte a \<and> byte a \<le> 243 \<and> lo = 128 \<and> hi = 191) \<or>
     (sz = 4 \<and> byte a = 244 \<and> lo = 128 \<and> hi = 143)"
  by (auto simp: leading_def Let_def split: if_splits)

text \<open>The width of the encoding at the head of a string, case by case.\<close>

lemma DecodeRune_size_one:
  "DecodeRune_size (a # s) = Suc 0 \<longleftrightarrow> byte a < 128"
proof (cases "byte a < 128")
  case True
  then show ?thesis by (simp add: DecodeRune_size_def)
next
  case False
  show ?thesis
  proof (cases "leading a")
    case None
    with False show ?thesis by (simp add: DecodeRune_size_def)
  next
    case (Some triple)
    obtain sz lo hi where "triple = (sz, lo, hi)"
      by (cases triple)
    with Some False show ?thesis
      by (simp add: DecodeRune_size_def)
  qed
qed

lemma DecodeRune_size_two:
  "DecodeRune_size (a # b # s) = 2 \<longleftrightarrow> 194 \<le> byte a \<and> byte a \<le> 223 \<and> continuation b"
proof (cases "leading a")
  case None
  then show ?thesis
    by (auto simp: DecodeRune_size_def leading_def Let_def split: if_splits)
next
  case (Some triple)
  obtain sz lo hi where triple: "triple = (sz, lo, hi)"
    by (cases triple)
  from leading_cases [OF Some [unfolded triple]] show ?thesis
    by (auto simp: DecodeRune_size_def Some triple continuation_def)
qed

lemma DecodeRune_size_three:
  "DecodeRune_size (a # b # c # s) = 3 \<longleftrightarrow> lead3 a b \<and> continuation c"
proof (cases "leading a")
  case None
  then show ?thesis
    by (auto simp: DecodeRune_size_def lead3_def leading_def Let_def continuation_def
        split: if_splits)
next
  case (Some triple)
  obtain sz lo hi where triple: "triple = (sz, lo, hi)"
    by (cases triple)
  from leading_cases [OF Some [unfolded triple]] show ?thesis
    by (auto simp: DecodeRune_size_def Some triple lead3_def continuation_def)
qed

lemma DecodeRune_size_four:
  "DecodeRune_size (a # b # c # d # s) = 4
     \<longleftrightarrow> lead4 a b \<and> continuation c \<and> continuation d"
proof (cases "leading a")
  case None
  then show ?thesis
    by (auto simp: DecodeRune_size_def lead4_def leading_def Let_def continuation_def
        split: if_splits)
next
  case (Some triple)
  obtain sz lo hi where triple: "triple = (sz, lo, hi)"
    by (cases triple)
  from leading_cases [OF Some [unfolded triple]] show ?thesis
    by (auto simp: DecodeRune_size_def Some triple lead4_def continuation_def)
qed

lemma DecodeRune_size_range:
  "DecodeRune_size s \<in> {0, 1, 2, 3, 4} \<and> DecodeRune_size s \<le> length s"
proof (cases s)
  case Nil
  then show ?thesis by (simp add: DecodeRune_size_def)
next
  case (Cons a t)
  show ?thesis
  proof (cases "leading a")
    case None
    then show ?thesis
      by (simp add: DecodeRune_size_def Cons)
  next
    case (Some triple)
    obtain sz lo hi where triple: "triple = (sz, lo, hi)"
      by (cases triple)
    from leading_cases [OF Some [unfolded triple]] have "sz = 2 \<or> sz = 3 \<or> sz = 4"
      by auto
    then show ?thesis
      by (auto simp: DecodeRune_size_def Cons Some triple Suc_le_eq)
  qed
qed

text \<open>Valid UTF-8 is written as it is.\<close>

lemma encode_from_valid: "valid_utf8 s \<Longrightarrow> encode_from 0 s = s"
proof (induction rule: valid_utf8.induct)
  case empty
  show ?case by simp
next
  case (one a s)
  then have "DecodeRune_size (a # s) = Suc 0"
    by (simp add: DecodeRune_size_one)
  with one.IH show ?case
    by simp
next
  case (two a b s)
  then have "DecodeRune_size (a # b # s) = 2"
    by (simp add: DecodeRune_size_two)
  with two.IH show ?case
    by (simp add: numeral_2_eq_2)
next
  case (three a b c s)
  then have "DecodeRune_size (a # b # c # s) = 3"
    by (simp add: DecodeRune_size_three)
  with three.IH show ?case
    by (simp add: numeral_3_eq_3)
next
  case (four a b c d s)
  then have "DecodeRune_size (a # b # c # d # s) = 4"
    by (simp add: DecodeRune_size_four)
  with four.IH show ?case
    by (simp add: eval_nat_numeral)
qed

text \<open>
  And nothing else is: a byte that is replaced makes the output longer than the input, so
  a string that comes out as it went in is a sequence of valid encodings.
\<close>

lemma length_encode_from: "length s \<le> length (encode_from k s)"
  by (induction k s rule: encode_from.induct) (auto simp: Let_def replacement_def)

lemma encode_from_fixed: "encode_from 0 s = s \<Longrightarrow> valid_utf8 s"
proof (induction s rule: length_induct)
  case (1 s)
  show ?case
  proof (cases s)
    case Nil
    then show ?thesis
      by (simp add: valid_utf8.empty)
  next
    case (Cons a t)
    have rest: "valid_utf8 u" if "encode_from 0 u = u" "length u < length s" for u
      using "1.IH" that by blast
    from DecodeRune_size_range [of "a # t"]
    consider (zero) "DecodeRune_size (a # t) = 0"
      | (one) "DecodeRune_size (a # t) = 1"
      | (two) "DecodeRune_size (a # t) = 2" "1 \<le> length t"
      | (three) "DecodeRune_size (a # t) = 3" "2 \<le> length t"
      | (four) "DecodeRune_size (a # t) = 4" "3 \<le> length t"
      by auto
    then show ?thesis
    proof cases
      case zero
      with "1.prems" Cons have "replacement @ encode_from 0 t = a # t"
        by simp
      then have "length (replacement @ encode_from 0 t) = length (a # t)"
        by simp
      with length_encode_from [of t 0] show ?thesis
        by (simp add: replacement_def)
    next
      case one
      with "1.prems" Cons have "encode_from 0 t = t"
        by simp
      with rest Cons have "valid_utf8 t"
        by simp
      moreover from one have "byte a < 128"
        by (simp add: DecodeRune_size_one)
      ultimately show ?thesis
        unfolding Cons by (intro valid_utf8.one)
    next
      case two
      then obtain b s' where t: "t = b # s'"
        by (cases t) auto
      from "1.prems" Cons two(1) t have "encode_from 0 s' = s'"
        by (simp add: numeral_2_eq_2)
      with rest Cons t have "valid_utf8 s'"
        by simp
      moreover from two(1) have "194 \<le> byte a" "byte a \<le> 223" "continuation b"
        by (simp_all add: t DecodeRune_size_two)
      ultimately show ?thesis
        unfolding Cons t by (intro valid_utf8.two)
    next
      case three
      then obtain b c s' where t: "t = b # c # s'"
        by (cases t; cases "tl t") auto
      from "1.prems" Cons three(1) t have "encode_from 0 s' = s'"
        by (simp add: numeral_3_eq_3)
      with rest Cons t have "valid_utf8 s'"
        by simp
      moreover from three(1) have "lead3 a b" "continuation c"
        by (simp_all add: t DecodeRune_size_three)
      ultimately show ?thesis
        unfolding Cons t by (intro valid_utf8.three)
    next
      case four
      then obtain b c d s' where t: "t = b # c # d # s'"
        by (cases t; cases "tl t"; cases "tl (tl t)") auto
      from "1.prems" Cons four(1) t have "encode_from 0 s' = s'"
        by (simp add: eval_nat_numeral)
      with rest Cons t have "valid_utf8 s'"
        by simp
      moreover from four(1) have "lead4 a b" "continuation c" "continuation d"
        by (simp_all add: t DecodeRune_size_four)
      ultimately show ?thesis
        unfolding Cons t by (intro valid_utf8.four)
    qed
  qed
qed

text \<open>The encoder writes a string as it is exactly when the string is valid UTF-8.\<close>

lemma encode_string_eq_iff: "encode_string s = s \<longleftrightarrow> valid_utf8 s"
  using encode_from_fixed [of s] encode_from_valid [of s]
  by (auto simp: encode_string_def)

lemma encode_string_valid: "valid_utf8 s \<Longrightarrow> encode_string s = s"
  by (simp add: encode_string_eq_iff)

lemma valid_utf8_ascii: "list_all (\<lambda>c. byte c < 128) s \<Longrightarrow> valid_utf8 s"
  by (induction s) (auto intro: valid_utf8.intros)

lemma encode_string_ascii: "list_all (\<lambda>c. byte c < 128) s \<Longrightarrow> encode_string s = s"
  by (simp add: encode_string_valid valid_utf8_ascii)

lemma encode_string_Nil_iff: "encode_string s = '''' \<longleftrightarrow> s = ''''"
  by (cases s) (simp_all add: encode_string_def Let_def replacement_def)

subsection \<open>\<open>c.JSON\<close> by status code\<close>

text \<open>The four ways \<open>c.JSON\<close> treats a status code.\<close>

lemma JSON_cases:
  "JSON code obj =
     (if (1 \<le> code \<and> code \<le> 99) \<or> 1000 \<le> code then Inl (InvalidWriteHeaderCode code)
      else if (100 \<le> code \<and> code \<le> 199) \<or> code = 204 \<or> code = 304
      then Inr \<lparr> resp_Status = code, resp_Body = None \<rparr>
      else Inr \<lparr> resp_Status = (if code \<le> 0 then 200 else code), resp_Body = obj \<rparr>)"
  by (simp add: JSON_def bodyAllowedForStatus_def Let_def)

text \<open>\<open>c.JSON\<close> with the status 200 writes what the encoder gives it.\<close>

lemma JSON_200: "JSON 200 obj = Inr \<lparr> resp_Status = 200, resp_Body = obj \<rparr>"
  by (simp add: JSON_def bodyAllowedForStatus_def)

subsection \<open>C9: the overall status of the detailed health check\<close>

lemma statusFlags_eq:
  "statusFlags checks (u, d) =
     (u \<or> (\<exists>c \<in> snd ` set checks. hc_Status c = HealthStatusUnhealthy),
      d \<or> (\<exists>c \<in> snd ` set checks. hc_Status c = HealthStatusDegraded))"
proof (induction checks arbitrary: u d)
  case Nil
  show ?case by simp
next
  case (Cons entry rest)
  obtain name check where entry: "entry = (name, check)"
    by (cases entry)
  have distinct_names: "HealthStatusUnhealthy \<noteq> HealthStatusDegraded"
    by (simp add: HealthStatusUnhealthy_def HealthStatusDegraded_def)
  show ?case
    using distinct_names by (auto simp: entry Cons.IH)
qed

lemma determineOverallStatus_eq:
  "determineOverallStatus checks =
     (if \<exists>c \<in> snd ` set checks. hc_Status c = HealthStatusUnhealthy
      then HealthStatusUnhealthy
      else if \<exists>c \<in> snd ` set checks. hc_Status c = HealthStatusDegraded
      then HealthStatusDegraded
      else HealthStatusHealthy)"
proof (cases checks)
  case Nil
  then show ?thesis by (simp add: determineOverallStatus_def)
next
  case (Cons entry rest)
  then have "length checks \<noteq> 0" by simp
  then show ?thesis
    by (simp add: determineOverallStatus_def statusFlags_eq)
qed

lemma determineOverallStatus_statuses:
  "determineOverallStatus checks =
     (if HealthStatusUnhealthy \<in> set (map (\<lambda>(name, check). hc_Status check) checks)
      then HealthStatusUnhealthy
      else if HealthStatusDegraded \<in> set (map (\<lambda>(name, check). hc_Status check) checks)
      then HealthStatusDegraded
      else HealthStatusHealthy)"
proof -
  have "(\<exists>c \<in> snd ` set checks. hc_Status c = s)
      \<longleftrightarrow> s \<in> set (map (\<lambda>(name, check). hc_Status check) checks)" for s
    by force
  then show ?thesis
    by (simp only: determineOverallStatus_eq)
qed

lemma update_new_key: "k \<notin> fst ` set al \<Longrightarrow> AList.update k v al = al @ [(k, v)]"
  by (induction al) auto

text \<open>
  The loop of \<open>runHealthChecks\<close> over checkers with different names, none of them in the
  map yet: it adds one check for each checker, in order, under the checker's name and
  with the status the checker returned.
\<close>

lemma runHealthChecksLoop_distinct:
  assumes "distinct (map fst checkers)" and "fst ` set checkers \<inter> fst ` set checks = {}"
  shows "map fst (fst (runHealthChecksLoop checkers checks now))
           = map fst checks @ map fst checkers \<and>
         map (\<lambda>(name, check). hc_Status check) (fst (runHealthChecksLoop checkers checks now))
           = map (\<lambda>(name, check). hc_Status check) checks @ returned_statuses checkers now"
  using assms
proof (induction checkers arbitrary: checks now)
  case Nil
  show ?case by simp
next
  case (Cons entry rest)
  obtain name checker where entry: "entry = (name, checker)"
    by (cases entry)
  obtain check took where run: "checker now = (check, took)"
    by (cases "checker now")
  let ?stored = "check\<lparr>hc_Duration := took, hc_LastChecked := now + took\<rparr>"
  from Cons.prems entry have new: "name \<notin> fst ` set checks"
    by auto
  then have update: "AList.update name ?stored checks = checks @ [(name, ?stored)]"
    by (rule update_new_key)
  from Cons.prems entry have rest: "distinct (map fst rest)"
    and disjoint: "fst ` set rest \<inter> fst ` set (checks @ [(name, ?stored)]) = {}"
    by auto
  have step: "runHealthChecksLoop (entry # rest) checks now
      = runHealthChecksLoop rest (checks @ [(name, ?stored)]) (now + took)"
    by (simp add: entry run update)
  from Cons.IH [OF rest disjoint, of "now + took"] show ?case
    unfolding step by (simp add: entry run)
qed

lemma runHealthChecks_distinct:
  assumes "distinct (map fst checkers)"
  shows "map fst (fst (runHealthChecks checkers now)) = map fst checkers"
    and "map (\<lambda>(name, check). hc_Status check) (fst (runHealthChecks checkers now))
           = returned_statuses checkers now"
  using runHealthChecksLoop_distinct [OF assms, of "[]" now]
  by (simp_all add: runHealthChecks_def)

lemma members_first:
  "members ((k, Some v) # rest) = Some j \<Longrightarrow> field j k = Some v"
  by (auto simp: members_def field_def split: option.splits)

lemma healthResponse_detailed:
  "healthResponse config True now =
     (let checks = (if cfg_Checkers config = [] then []
                    else fst (runHealthChecks (cfg_Checkers config) now));
          status = (if cfg_Checkers config = [] then HealthStatusHealthy
                    else determineOverallStatus checks)
      in (if status = HealthStatusUnhealthy then 503 else 200,
          \<lparr> hr_Status = status, hr_Timestamp = now,
            hr_Service = cfg_ServiceName config, hr_Version = cfg_ServiceVersion config,
            hr_Uptime = now - cfg_StartTime config, hr_Checks = checks,
            hr_Metadata = [] \<rparr>))"
  by (simp add: healthResponse_def Let_def StatusOK_def StatusServiceUnavailable_def
      HealthStatusHealthy_def HealthStatusUnhealthy_def)

lemma health_status_ascii:
  "encode_string HealthStatusHealthy = HealthStatusHealthy"
  "encode_string HealthStatusUnhealthy = HealthStatusUnhealthy"
  "encode_string HealthStatusDegraded = HealthStatusDegraded"
  by (simp_all add: encode_string_ascii byte_def HealthStatusHealthy_def
      HealthStatusUnhealthy_def HealthStatusDegraded_def)

text \<open>
  What the statuses of \<open>returned_statuses\<close> are: there is one for each registered checker,
  each is the status of a check that the checker under its name returned, and for
  checkers whose status does not depend on the time of the call they are the statuses of
  the checkers, in the order of the list.
\<close>

lemma returned_statuses_length: "length (returned_statuses checkers now) = length checkers"
  by (induction checkers now rule: returned_statuses.induct) simp_all

lemma returned_statuses_member:
  "s \<in> set (returned_statuses checkers now) \<Longrightarrow>
   \<exists>name checker start. (name, checker) \<in> set checkers \<and> s = hc_Status (fst (checker start))"
  by (induction checkers now rule: returned_statuses.induct) auto

lemma returned_statuses_constant:
  "\<forall>(name, checker) \<in> set checkers.
      \<forall>t. hc_Status (fst (checker t)) = hc_Status (fst (checker t0))
   \<Longrightarrow> returned_statuses checkers now
       = map (\<lambda>(name, checker). hc_Status (fst (checker t0))) checkers"
  by (induction checkers now rule: returned_statuses.induct) auto

text \<open>
  C9. For every set of registered health checkers (a Go map, so no two of them under one
  name), the detailed health check (\<open>handleHealthCheck\<close> with \<open>detailed = true\<close>, the
  handler \<open>HealthMiddleware\<close> gives the health path to) has one check for each registered
  checker, under the checker's name and with the status that checker returned when it was
  called. Its overall status is \<open>unhealthy\<close> if one of these statuses is \<open>unhealthy\<close>,
  otherwise \<open>degraded\<close> if one of them is \<open>degraded\<close>, otherwise \<open>healthy\<close>, and so
  \<open>healthy\<close> when no checker is registered. It responds with HTTP status 503 exactly when
  the overall status is \<open>unhealthy\<close> and with 200 in every other case, and the \<open>status\<close>
  member of the body it writes is the overall status. The statuses the checkers returned
  are those of \<open>returned_statuses\<close>: each checker is called once, at the instant the one
  before it has finished; where no status depends on the time of the call, they are
  the statuses of the registered checkers.
\<close>

theorem detailed_health_overall_status:
  fixes config :: HealthConfig and now :: time
  assumes "distinct (map fst (cfg_Checkers config))"
  defines "returned \<equiv> returned_statuses (cfg_Checkers config) now"
  defines "overall \<equiv> (if HealthStatusUnhealthy \<in> set returned then HealthStatusUnhealthy
                      else if HealthStatusDegraded \<in> set returned then HealthStatusDegraded
                      else HealthStatusHealthy)"
  defines "response \<equiv> snd (healthResponse config True now)"
  shows "map fst (hr_Checks response) = map fst (cfg_Checkers config) \<and>
         map (\<lambda>(name, check). hc_Status check) (hr_Checks response) = returned \<and>
         ((\<forall>(name, checker) \<in> set (cfg_Checkers config).
             \<forall>t. hc_Status (fst (checker t)) = hc_Status (fst (checker now)))
          \<longrightarrow> returned = map (\<lambda>(name, checker). hc_Status (fst (checker now)))
                           (cfg_Checkers config)) \<and>
         hr_Status response = overall \<and>
         (cfg_Checkers config = [] \<longrightarrow> hr_Status response = HealthStatusHealthy) \<and>
         handleHealthCheck config True now
           = Inr \<lparr> resp_Status = (if overall = HealthStatusUnhealthy then 503 else 200),
                   resp_Body = marshal_HealthResponse response \<rparr> \<and>
         (\<forall>j. marshal_HealthResponse response = Some j
            \<longrightarrow> field j ''status'' = Some (JString overall)) \<and>
         HealthMiddleware config (cfg_HealthPath config) = HandleHealthCheck True"
proof -
  let ?checkers = "cfg_Checkers config"
  have names: "map fst (hr_Checks response) = map fst ?checkers"
    and statuses: "map (\<lambda>(name, check). hc_Status check) (hr_Checks response) = returned"
    using runHealthChecks_distinct [OF assms(1), of now]
    by (simp_all add: response_def healthResponse_detailed Let_def returned_def)
  have status: "hr_Status response = overall"
  proof (cases "?checkers = []")
    case True
    then show ?thesis
      by (simp add: response_def healthResponse_detailed overall_def returned_def)
  next
    case False
    then have "hr_Status response = determineOverallStatus (hr_Checks response)"
      by (simp add: response_def healthResponse_detailed Let_def)
    then show ?thesis
      unfolding determineOverallStatus_statuses statuses overall_def .
  qed
  have none: "?checkers = [] \<longrightarrow> hr_Status response = HealthStatusHealthy"
    by (simp add: response_def healthResponse_detailed)
  have code: "fst (healthResponse config True now)
      = (if overall = HealthStatusUnhealthy then 503 else 200)"
    using status by (simp add: response_def healthResponse_detailed Let_def)
  have "handleHealthCheck config True now
      = JSON (fst (healthResponse config True now)) (marshal_HealthResponse response)"
    by (simp add: handleHealthCheck_def case_prod_unfold response_def)
  then have answer: "handleHealthCheck config True now
      = Inr \<lparr> resp_Status = (if overall = HealthStatusUnhealthy then 503 else 200),
              resp_Body = marshal_HealthResponse response \<rparr>"
    unfolding code by (simp add: JSON_cases)
  have overall_ascii: "encode_string overall = overall"
    by (simp add: overall_def health_status_ascii)
  have body: "\<forall>j. marshal_HealthResponse response = Some j
      \<longrightarrow> field j ''status'' = Some (JString overall)"
  proof (intro allI impI)
    fix j
    assume "marshal_HealthResponse response = Some j"
    then have "field j ''status'' = Some (JString (encode_string (hr_Status response)))"
      unfolding marshal_HealthResponse_def append_Cons by (rule members_first)
    then show "field j ''status'' = Some (JString overall)"
      by (simp add: status overall_ascii)
  qed
  have dispatch: "HealthMiddleware config (cfg_HealthPath config) = HandleHealthCheck True"
    by (simp add: HealthMiddleware_def)
  have fixed: "(\<forall>(name, checker) \<in> set ?checkers.
        \<forall>t. hc_Status (fst (checker t)) = hc_Status (fst (checker now)))
      \<longrightarrow> returned = map (\<lambda>(name, checker). hc_Status (fst (checker now))) ?checkers"
    unfolding returned_def using returned_statuses_constant [of ?checkers now now] by blast
  from names statuses fixed status none answer body dispatch show ?thesis
    by (intro conjI)
qed

theorem detailed_health_overall_status_witness:
  "map_sum id resp_Status (handleHealthCheck
      \<lparr> cfg_ServiceName = ''svc'', cfg_ServiceVersion = ''1'', cfg_StartTime = 0,
        cfg_Checkers =
          [(''memory'', \<lambda>t. (\<lparr>hc_Name = ''memory'', hc_Status = HealthStatusDegraded,
                hc_Message = '''', hc_LastChecked = 0, hc_Duration = 0,
                hc_Metadata = []\<rparr>, 3)),
           (''database'', \<lambda>t. (\<lparr>hc_Name = ''database'', hc_Status = HealthStatusUnhealthy,
                hc_Message = ''down'', hc_LastChecked = 0, hc_Duration = 0,
                hc_Metadata = []\<rparr>, 5))],
        cfg_HealthPath = ''/health'', cfg_ReadinessPath = ''/ready'',
        cfg_LivenessPath = ''/live'' \<rparr> True 100) = Inr 503 \<and>
   map_sum id resp_Status (handleHealthCheck
      \<lparr> cfg_ServiceName = ''svc'', cfg_ServiceVersion = ''1'', cfg_StartTime = 0,
        cfg_Checkers =
          [(''database'', \<lambda>t. (\<lparr>hc_Name = ''database'', hc_Status = HealthStatusHealthy,
                hc_Message = '''', hc_LastChecked = 0, hc_Duration = 0,
                hc_Metadata = []\<rparr>, 5))],
        cfg_HealthPath = ''/health'', cfg_ReadinessPath = ''/ready'',
        cfg_LivenessPath = ''/live'' \<rparr> True 100) = Inr 200"
proof -
  let ?down = "\<lparr> cfg_ServiceName = ''svc'', cfg_ServiceVersion = ''1'', cfg_StartTime = 0,
        cfg_Checkers =
          [(''memory'', \<lambda>t. (\<lparr>hc_Name = ''memory'', hc_Status = HealthStatusDegraded,
                hc_Message = '''', hc_LastChecked = 0, hc_Duration = 0,
                hc_Metadata = []\<rparr>, 3)),
           (''database'', \<lambda>t. (\<lparr>hc_Name = ''database'', hc_Status = HealthStatusUnhealthy,
                hc_Message = ''down'', hc_LastChecked = 0, hc_Duration = 0,
                hc_Metadata = []\<rparr>, 5))],
        cfg_HealthPath = ''/health'', cfg_ReadinessPath = ''/ready'',
        cfg_LivenessPath = ''/live'' \<rparr>"
  let ?up = "\<lparr> cfg_ServiceName = ''svc'', cfg_ServiceVersion = ''1'', cfg_StartTime = 0,
        cfg_Checkers =
          [(''database'', \<lambda>t. (\<lparr>hc_Name = ''database'', hc_Status = HealthStatusHealthy,
                hc_Message = '''', hc_LastChecked = 0, hc_Duration = 0,
                hc_Metadata = []\<rparr>, 5))],
        cfg_HealthPath = ''/health'', cfg_ReadinessPath = ''/ready'',
        cfg_LivenessPath = ''/live'' \<rparr>"
  have names: "distinct (map fst (cfg_Checkers ?down))" "distinct (map fst (cfg_Checkers ?up))"
    by simp_all
  have differ: "HealthStatusHealthy \<noteq> HealthStatusUnhealthy"
    "HealthStatusDegraded \<noteq> HealthStatusUnhealthy"
    "HealthStatusHealthy \<noteq> HealthStatusDegraded"
    by (simp_all add: HealthStatusHealthy_def HealthStatusUnhealthy_def
        HealthStatusDegraded_def)
  from detailed_health_overall_status [OF names(1), of 100]
  have "map_sum id resp_Status (handleHealthCheck ?down True 100) = Inr 503"
    by (simp add: differ differ [symmetric])
  moreover from detailed_health_overall_status [OF names(2), of 100]
  have "map_sum id resp_Status (handleHealthCheck ?up True 100) = Inr 200"
    by (simp add: differ differ [symmetric])
  ultimately show ?thesis
    by (intro conjI)
qed

subsection \<open>C3: the default health endpoints\<close>

text \<open>The paths gin registers the routes under.\<close>

lemma joinPaths_health:
  "joinPaths ''/'' ''/health'' = ''/health''"
  "joinPaths ''/'' ''/health/detailed'' = ''/health/detailed''"
  by (simp_all add: joinPaths_def Join_def Clean_def)

lemma joinPaths_examples:
  "joinPaths ''/'' ''/healthz/'' = ''/healthz/''"
  "joinPaths ''/'' ''/healthz//detailed'' = ''/healthz/detailed''"
  "joinPaths ''/'' ''status/./../health'' = ''/health''"
  "Clean ''a/../../b'' = ''../b''"
  "Clean '''' = ''.''"
  by (simp_all add: joinPaths_def Join_def Clean_def)

text \<open>
  The router after \<open>setupMiddleware\<close> and \<open>setupDefaultRoutes\<close>, for options that leave
  every switch and the health path at the default, and origins that \<open>cors.New\<close> accepts.
\<close>

lemma default_router:
  assumes "so_DisableRecover options = False" and "so_DisableLogging options = False"
    and "so_DisableCORS options = False" and "so_DisableHealth options = False"
    and "so_CustomMiddleware options = []"
    and "so_HealthPath options = ''/health'' \<or> so_HealthPath options = ''''"
    and "corsValidate (cf_AllowedOrigins config) = None"
  shows "\<exists>e. setupMiddleware corsValidate options config gin_New = Inr e \<and>
     setupDefaultRoutes options e =
     Inr \<lparr> eng_Handlers = [gin_Recovery, gin_Logger, cors_New (cf_AllowedOrigins config)],
           eng_routes =
             [(''GET'', ''/health'',
               [gin_Recovery, gin_Logger, cors_New (cf_AllowedOrigins config),
                healthCheckHandler]),
              (''GET'', ''/health/detailed'',
               [gin_Recovery, gin_Logger, cors_New (cf_AllowedOrigins config),
                detailedHealthHandler])] \<rparr>"
proof -
  let ?e = "\<lparr> eng_Handlers = [gin_Recovery, gin_Logger, cors_New (cf_AllowedOrigins config)],
             eng_routes = [] \<rparr>"
  have middleware: "setupMiddleware corsValidate options config gin_New = Inr ?e"
    using assms(1,2,3,5,7) by (simp add: setupMiddleware_def setupCORS_def Use_def gin_New_def)
  from assms(6) have path: "(if so_HealthPath options = '''' then ''/health''
      else so_HealthPath options) = ''/health''"
    by auto
  have "setupDefaultRoutes options ?e =
     Inr \<lparr> eng_Handlers = [gin_Recovery, gin_Logger, cors_New (cf_AllowedOrigins config)],
           eng_routes =
             [(''GET'', ''/health'',
               [gin_Recovery, gin_Logger, cors_New (cf_AllowedOrigins config),
                healthCheckHandler]),
              (''GET'', ''/health/detailed'',
               [gin_Recovery, gin_Logger, cors_New (cf_AllowedOrigins config),
                detailedHealthHandler])] \<rparr>"
    using assms(4)
    by (simp add: setupDefaultRoutes_def setupHealthRoutes_def path GET_def joinPaths_health)
  with middleware show ?thesis
    by blast
qed

lemma default_DatabaseConfig_valid: "fst (DatabaseConfig_Validate default_DatabaseConfig) = None"
  by (simp add: DatabaseConfig_Validate_def default_DatabaseConfig_def Atoi_def
      isDigit_def digitVal_def maxUint64_def)

lemma example_Config_loaded:
  "LoadWithServiceInfo example_Config ''orders'' ''1.0.0''
     = example_Config\<lparr>cf_ServiceName := ''orders''\<rparr>"
  by (simp add: LoadWithServiceInfo_def example_Config_def)

lemma example_Config_valid:
  "Config_Validate (example_Config\<lparr>cf_ServiceName := ''orders''\<rparr>) = None"
  by (simp add: Config_Validate_def example_Config_def default_DatabaseConfig_valid
      KeycloakConfig_Validate_def)

lemma example_Config_loaded_valid:
  "Config_Validate (LoadWithServiceInfo example_Config ''orders'' ''1.0.0'') = None"
  "cf_AllowedOrigins (LoadWithServiceInfo example_Config ''orders'' ''1.0.0'')
     = [''http://localhost:3000'']"
  by (simp_all add: example_Config_loaded example_Config_valid) (simp add: example_Config_def)

text \<open>
  The claim as it is written fails: \<open>/ready\<close> and \<open>/live\<close> are not registered by default.
  The server that \<open>NewServer\<close> builds for the service \<open>orders\<close> from the default options,
  with a valid configuration and a \<open>SetupRoutes\<close> that adds nothing, has the two routes
  \<open>/health\<close> and \<open>/health/detailed\<close> and the middleware of \<open>setupMiddleware\<close>, in which
  there is no health middleware.
\<close>

theorem default_server_probe_routes_counterexample:
  "(let router =
      \<lparr> eng_Handlers = [gin_Recovery, gin_Logger, cors_New [''http://localhost:3000'']],
        eng_routes =
          [(''GET'', ''/health'',
            [gin_Recovery, gin_Logger, cors_New [''http://localhost:3000''],
             healthCheckHandler]),
           (''GET'', ''/health/detailed'',
            [gin_Recovery, gin_Logger, cors_New [''http://localhost:3000''],
             detailedHealthHandler])] \<rparr>
    in NewServer (\<lambda>origins. None)
         (DefaultServerOptions\<lparr> so_ServiceName := ''orders'',
            so_ServiceVersion := ''1.0.0'',
            so_SetupRoutes := Some (\<lambda>router cfg. Inr router) \<rparr>)
         example_Config = Inr router \<and>
       route_paths router = [(''GET'', ''/health''), (''GET'', ''/health/detailed'')] \<and>
       (''GET'', ''/ready'') \<notin> set (route_paths router) \<and>
       (''GET'', ''/live'') \<notin> set (route_paths router))"
proof -
  let ?options = "DefaultServerOptions\<lparr> so_ServiceName := ''orders'',
      so_ServiceVersion := ''1.0.0'',
      so_SetupRoutes := Some (\<lambda>router cfg. Inr router) \<rparr>"
  let ?config = "LoadWithServiceInfo example_Config ''orders'' ''1.0.0''"
  have "so_DisableRecover ?options = False" "so_DisableLogging ?options = False"
    "so_DisableCORS ?options = False" "so_DisableHealth ?options = False"
    "so_CustomMiddleware ?options = []"
    "so_HealthPath ?options = ''/health'' \<or> so_HealthPath ?options = ''''"
    "(\<lambda>origins. None) (cf_AllowedOrigins ?config) = None"
    by (simp_all add: DefaultServerOptions_def)
  from default_router [of ?options "\<lambda>origins. None" ?config, OF this] obtain e
    where "setupMiddleware (\<lambda>origins. None) ?options ?config gin_New = Inr e"
      and "setupDefaultRoutes ?options e =
        Inr \<lparr> eng_Handlers = [gin_Recovery, gin_Logger, cors_New [''http://localhost:3000'']],
              eng_routes =
                [(''GET'', ''/health'',
                  [gin_Recovery, gin_Logger, cors_New [''http://localhost:3000''],
                   healthCheckHandler]),
                 (''GET'', ''/health/detailed'',
                  [gin_Recovery, gin_Logger, cors_New [''http://localhost:3000''],
                   detailedHealthHandler])] \<rparr>"
    unfolding example_Config_loaded_valid(2) by blast
  then show ?thesis
    by (simp add: NewServer_def ServerOptions_Validate_def DefaultServerOptions_def
        example_Config_loaded_valid(1) SetMode_def ReleaseMode_def route_paths_def)
qed

text \<open>
  C3, amended. The endpoints the server registers by default are \<open>/health\<close> and
  \<open>/health/detailed\<close>, and no others. For every service name and version, every
  environment whose configuration is valid and has origins that \<open>cors.New\<close> accepts, and
  every \<open>SetupRoutes\<close> function, \<open>NewServer\<close> with the default options hands that function
  a router with the middleware \<open>gin.Recovery\<close>, \<open>gin.Logger\<close> and the CORS handler and with
  exactly the routes \<open>GET /health\<close> and \<open>GET /health/detailed\<close>. \<open>/ready\<close> and \<open>/live\<close> are
  not among the routes, and no health middleware is installed. They are the default paths
  of \<open>HealthMiddleware\<close>, which the application has to install itself: with
  \<open>DefaultHealthConfig\<close> it answers \<open>/health\<close> with the detailed health check, \<open>/ready\<close>
  with the readiness check and \<open>/live\<close> with the liveness check, and passes every other
  path, \<open>/health/detailed\<close> among them, on to the next handler.
\<close>

theorem default_health_endpoints:
  fixes serviceName version :: string
    and setupRoutes :: "Engine \<Rightarrow> Config \<Rightarrow> panic + Engine"
    and corsValidate :: "string list \<Rightarrow> string option"
    and fromEnv :: Config and now :: time
  defines "config \<equiv> LoadWithServiceInfo fromEnv serviceName version"
  assumes "serviceName \<noteq> ''''" and "version \<noteq> ''''"
    and "Config_Validate config = None"
    and "corsValidate (cf_AllowedOrigins config) = None"
  defines "options \<equiv> DefaultServerOptions\<lparr> so_ServiceName := serviceName,
      so_ServiceVersion := version, so_SetupRoutes := Some setupRoutes \<rparr>"
  defines "middleware \<equiv> [gin_Recovery, gin_Logger, cors_New (cf_AllowedOrigins config)]"
  defines "router \<equiv>
     \<lparr> eng_Handlers = middleware,
       eng_routes =
         [(''GET'', ''/health'', middleware @ [healthCheckHandler]),
          (''GET'', ''/health/detailed'', middleware @ [detailedHealthHandler])] \<rparr>"
  defines "health \<equiv> HealthMiddleware (DefaultHealthConfig serviceName version now)"
  shows "NewServer corsValidate options fromEnv = setupRoutes router config \<and>
         route_paths router = [(''GET'', ''/health''), (''GET'', ''/health/detailed'')] \<and>
         (''GET'', ''/ready'') \<notin> set (route_paths router) \<and>
         (''GET'', ''/live'') \<notin> set (route_paths router) \<and>
         (\<forall>config. middleware_HealthMiddleware config \<notin> set (eng_Handlers router)) \<and>
         health ''/health'' = HandleHealthCheck True \<and>
         health ''/ready'' = HandleReadinessCheck \<and>
         health ''/live'' = HandleLivenessCheck \<and>
         health ''/health/detailed'' = Next \<and>
         (\<forall>path. path \<noteq> ''/health'' \<and> path \<noteq> ''/ready'' \<and> path \<noteq> ''/live''
            \<longrightarrow> health path = Next)"
proof -
  have valid: "ServerOptions_Validate options = None"
    using assms(2,3) by (simp add: ServerOptions_Validate_def options_def)
  have "so_DisableRecover options = False" "so_DisableLogging options = False"
    "so_DisableCORS options = False" "so_DisableHealth options = False"
    "so_CustomMiddleware options = []"
    "so_HealthPath options = ''/health'' \<or> so_HealthPath options = ''''"
    by (simp_all add: options_def DefaultServerOptions_def)
  from default_router [of options corsValidate config, OF this assms(5)] obtain e
    where "setupMiddleware corsValidate options config gin_New = Inr e"
      and "setupDefaultRoutes options e = Inr router"
    unfolding router_def middleware_def by auto
  moreover have "LoadWithServiceInfo fromEnv (so_ServiceName options)
      (so_ServiceVersion options) = config"
    by (simp add: options_def config_def)
  ultimately have server: "NewServer corsValidate options fromEnv = setupRoutes router config"
    using valid assms(4)
    by (simp add: NewServer_def options_def DefaultServerOptions_def SetMode_def
        ReleaseMode_def)
  have routes: "route_paths router = [(''GET'', ''/health''), (''GET'', ''/health/detailed'')]"
    "(''GET'', ''/ready'') \<notin> set (route_paths router)"
    "(''GET'', ''/live'') \<notin> set (route_paths router)"
    "\<forall>config. middleware_HealthMiddleware config \<notin> set (eng_Handlers router)"
    by (simp_all add: router_def route_paths_def middleware_def)
  have dispatch: "health ''/health'' = HandleHealthCheck True"
    "health ''/ready'' = HandleReadinessCheck"
    "health ''/live'' = HandleLivenessCheck"
    "health ''/health/detailed'' = Next"
    "\<forall>path. path \<noteq> ''/health'' \<and> path \<noteq> ''/ready'' \<and> path \<noteq> ''/live''
       \<longrightarrow> health path = Next"
    by (simp_all add: health_def HealthMiddleware_def DefaultHealthConfig_def)
  from server routes dispatch show ?thesis
    by (intro conjI)
qed

theorem default_health_endpoints_witness:
  "NewServer (\<lambda>origins. if origins = [] then Some ''all origins disabled'' else None)
     (DefaultServerOptions\<lparr> so_ServiceName := ''orders'',
        so_ServiceVersion := ''1.0.0'',
        so_SetupRoutes :=
          Some (\<lambda>router cfg. GET router ''/orders'' (application_handler ''listOrders'')) \<rparr>)
     example_Config
     = Inr \<lparr> eng_Handlers = [gin_Recovery, gin_Logger, cors_New [''http://localhost:3000'']],
             eng_routes =
               [(''GET'', ''/health'',
                 [gin_Recovery, gin_Logger, cors_New [''http://localhost:3000''],
                  healthCheckHandler]),
                (''GET'', ''/health/detailed'',
                 [gin_Recovery, gin_Logger, cors_New [''http://localhost:3000''],
                  detailedHealthHandler]),
                (''GET'', ''/orders'',
                 [gin_Recovery, gin_Logger, cors_New [''http://localhost:3000''],
                  application_handler ''listOrders''])] \<rparr> \<and>
   HealthMiddleware (DefaultHealthConfig ''orders'' ''1.0.0'' 0) ''/ready''
     = HandleReadinessCheck"
proof -
  have name: "''orders'' \<noteq> ''''" "''1.0.0'' \<noteq> ''''"
    by simp_all
  have origins: "(\<lambda>origins. if origins = [] then Some ''all origins disabled'' else None)
      (cf_AllowedOrigins (LoadWithServiceInfo example_Config ''orders'' ''1.0.0'')) = None"
    by (simp add: example_Config_loaded_valid(2))
  have orders: "joinPaths ''/'' ''/orders'' = ''/orders''"
    by (simp add: joinPaths_def Join_def Clean_def)
  from default_health_endpoints [of "''orders''" "''1.0.0''" example_Config
      "\<lambda>origins. if origins = [] then Some ''all origins disabled'' else None"
      "\<lambda>router cfg. GET router ''/orders'' (application_handler ''listOrders'')" 0,
      OF name example_Config_loaded_valid(1) origins]
  show ?thesis
    by (simp add: GET_def orders example_Config_loaded_valid(2))
qed

text \<open>
  Without a service name the server is not built, and neither is it in an environment
  that sets no variable at all, where the configuration has no Keycloak key or URL.
\<close>

lemma NewServer_default_options_panic:
  "NewServer corsValidate DefaultServerOptions fromEnv
     = Inl (InvalidServerOptions ''ServiceName is required'')"
  by (simp add: NewServer_def ServerOptions_Validate_def DefaultServerOptions_def)

lemma NewServer_no_keycloak_panic:
  "NewServer corsValidate
     (DefaultServerOptions\<lparr> so_ServiceName := ''orders'', so_ServiceVersion := ''1.0.0'',
        so_SetupRoutes := Some (\<lambda>router cfg. Inr router) \<rparr>)
     (example_Config\<lparr> cf_KeycloakConfig := (cf_KeycloakConfig example_Config)\<lparr> kc_URL := '''' \<rparr> \<rparr>)
     = Inl (InvalidConfiguration (KeycloakConfigError KeyOrJWKSRequired))"
  by (simp add: NewServer_def ServerOptions_Validate_def DefaultServerOptions_def
      Config_Validate_def example_Config_def default_DatabaseConfig_valid
      KeycloakConfig_Validate_def LoadWithServiceInfo_def)

subsection \<open>strconv.Atoi against the notion of a decimal integer\<close>

lemma digitVal_range: "isDigit c \<Longrightarrow> 0 \<le> digitVal c \<and> digitVal c \<le> 9"
  by (auto simp: isDigit_def digitVal_def)

lemma sign_is_no_digit: "\<not> isDigit (CHR ''+'')" "\<not> isDigit (CHR ''-'')"
  by (simp_all add: isDigit_def)

lemma digits_fold_ge:
  "0 \<le> n \<Longrightarrow> list_all isDigit cs \<Longrightarrow> n \<le> foldl (\<lambda>n c. n * 10 + digitVal c) n cs"
proof (induction cs arbitrary: n)
  case Nil
  show ?case by simp
next
  case (Cons c cs)
  from Cons.prems have d: "0 \<le> digitVal c" and rest: "list_all isDigit cs"
    by (simp_all add: digitVal_range)
  from Cons.prems(1) d have step: "n \<le> n * 10 + digitVal c"
    by linarith
  with Cons.prems(1) have "0 \<le> n * 10 + digitVal c"
    by linarith
  from Cons.IH [OF this rest] step show ?case
    by simp
qed

lemma parseUintLoop_Inr_iff:
  "0 \<le> n \<Longrightarrow>
   parseUintLoop cs n = Inr m \<longleftrightarrow>
     list_all isDigit cs \<and> m = foldl (\<lambda>n c. n * 10 + digitVal c) n cs \<and>
     (cs = [] \<or> m \<le> maxUint64)"
proof (induction cs arbitrary: n)
  case Nil
  show ?case by auto
next
  case (Cons c cs)
  let ?n1 = "n * 10 + digitVal c"
  let ?v = "foldl (\<lambda>n c. n * 10 + digitVal c) ?n1 cs"
  show ?case
  proof (cases "isDigit c")
    case False
    then show ?thesis by simp
  next
    case digit: True
    then have d: "0 \<le> digitVal c" "digitVal c \<le> 9"
      by (simp_all add: digitVal_range)
    with Cons.prems have n1: "0 \<le> ?n1"
      by linarith
    have ge: "list_all isDigit cs \<Longrightarrow> ?n1 \<le> ?v"
      by (rule digits_fold_ge [OF n1])
    show ?thesis
    proof (cases "n \<ge> maxUint64 div 10 + 1")
      case True
      with d have "?n1 > maxUint64"
        by (simp add: maxUint64_def)
      with ge have "list_all isDigit cs \<Longrightarrow> ?v > maxUint64"
        by fastforce
      with True digit show ?thesis
        by auto
    next
      case small: False
      show ?thesis
      proof (cases "?n1 > maxUint64")
        case True
        with ge have "list_all isDigit cs \<Longrightarrow> ?v > maxUint64"
          by fastforce
        with True digit small show ?thesis
          by (auto simp: Let_def)
      next
        case False
        with digit small have "parseUintLoop (c # cs) n = parseUintLoop cs ?n1"
          by (simp add: Let_def)
        moreover from False ge have "list_all isDigit cs \<Longrightarrow> cs = [] \<Longrightarrow> ?v \<le> maxUint64"
          by simp
        ultimately show ?thesis
          using digit by (auto simp: Cons.IH [OF n1])
      qed
    qed
  qed
qed

lemma parseUintLoop_digits:
  "parseUintLoop ds 0 = Inr m \<longleftrightarrow>
     list_all isDigit ds \<and> m = digits_value ds \<and> (ds = [] \<or> m \<le> maxUint64)"
  using parseUintLoop_Inr_iff [of 0 ds m] by (simp add: digits_value_def)

lemma digits_value_nonneg: "list_all isDigit ds \<Longrightarrow> 0 \<le> digits_value ds"
  using digits_fold_ge [of 0 ds] by (simp add: digits_value_def)

text \<open>
  \<open>Atoi\<close> succeeds exactly on the decimal integers whose value a 64-bit signed \<open>int\<close>
  holds, and then returns that value.
\<close>

lemma Atoi_Inr_iff:
  "Atoi s = Inr v \<longleftrightarrow>
     is_decimal_integer s \<and> v = decimal_value s \<and> MinInt64 \<le> v \<and> v \<le> MaxInt64"
proof (cases s)
  case Nil
  then show ?thesis
    by (simp add: Atoi_def is_decimal_integer_def)
next
  case (Cons c cs)
  consider (minus) "c = CHR ''-''" | (plus) "c = CHR ''+''"
    | (none) "c \<noteq> CHR ''-''" "c \<noteq> CHR ''+''"
    by blast
  then show ?thesis
  proof cases
    case minus
    show ?thesis
    proof (cases "cs = []")
      case True
      with Cons minus show ?thesis
        by (simp add: Atoi_def is_decimal_integer_def)
    next
      case False
      have "Atoi s = Inr v \<longleftrightarrow>
          (\<exists>un. parseUintLoop cs 0 = Inr un \<and> un \<le> 2 ^ 63 \<and> v = - un)"
        using Cons minus False
        by (auto simp: Atoi_def split: sum.splits)
      also have "\<dots> \<longleftrightarrow> list_all isDigit cs \<and> digits_value cs \<le> 2 ^ 63 \<and> v = - digits_value cs"
        using False by (auto simp: parseUintLoop_digits maxUint64_def)
      also have "\<dots> \<longleftrightarrow>
          is_decimal_integer s \<and> v = decimal_value s \<and> MinInt64 \<le> v \<and> v \<le> MaxInt64"
        using Cons minus False digits_value_nonneg [of cs]
        by (auto simp: is_decimal_integer_def decimal_value_def MinInt64_def MaxInt64_def)
      finally show ?thesis .
    qed
  next
    case plus
    show ?thesis
    proof (cases "cs = []")
      case True
      with Cons plus show ?thesis
        by (simp add: Atoi_def is_decimal_integer_def)
    next
      case False
      have "Atoi s = Inr v \<longleftrightarrow>
          (\<exists>un. parseUintLoop cs 0 = Inr un \<and> un < 2 ^ 63 \<and> v = un)"
        using Cons plus False
        by (auto simp: Atoi_def split: sum.splits)
      also have "\<dots> \<longleftrightarrow> list_all isDigit cs \<and> digits_value cs < 2 ^ 63 \<and> v = digits_value cs"
        using False by (auto simp: parseUintLoop_digits maxUint64_def)
      also have "\<dots> \<longleftrightarrow>
          is_decimal_integer s \<and> v = decimal_value s \<and> MinInt64 \<le> v \<and> v \<le> MaxInt64"
        using Cons plus False digits_value_nonneg [of cs]
        by (auto simp: is_decimal_integer_def decimal_value_def MinInt64_def MaxInt64_def)
      finally show ?thesis .
    qed
  next
    case none
    from Cons none have shape: "s \<noteq> []" "hd s \<noteq> CHR ''-''" "hd s \<noteq> CHR ''+''"
      by simp_all
    from Cons none have spec: "is_decimal_integer s = list_all isDigit s"
      "decimal_value s = digits_value s"
      by (simp_all add: is_decimal_integer_def decimal_value_def)
    have "Atoi s = Inr v \<longleftrightarrow>
        (\<exists>un. parseUintLoop s 0 = Inr un \<and> un < 2 ^ 63 \<and> v = un)"
      using shape by (auto simp: Atoi_def split: sum.splits)
    also have "\<dots> \<longleftrightarrow> list_all isDigit s \<and> digits_value s < 2 ^ 63 \<and> v = digits_value s"
      using shape(1) by (auto simp: parseUintLoop_digits maxUint64_def)
    also have "\<dots> \<longleftrightarrow>
        is_decimal_integer s \<and> v = decimal_value s \<and> MinInt64 \<le> v \<and> v \<le> MaxInt64"
      using digits_value_nonneg [of s]
      by (auto simp: spec MinInt64_def MaxInt64_def)
    finally show ?thesis .
  qed
qed

lemma Atoi_fails_iff:
  "(\<exists>e. Atoi s = Inl e) \<longleftrightarrow>
     \<not> (is_decimal_integer s \<and> MinInt64 \<le> decimal_value s \<and> decimal_value s \<le> MaxInt64)"
proof -
  have "(\<exists>e. Atoi s = Inl e) \<longleftrightarrow> \<not> (\<exists>v. Atoi s = Inr v)"
    by (cases "Atoi s") simp_all
  then show ?thesis
    by (auto simp: Atoi_Inr_iff)
qed

subsection \<open>C7: DatabaseConfig.Validate\<close>

lemma DatabaseConfig_Validate_unchanged: "snd (DatabaseConfig_Validate dc) = dc"
  by (simp add: DatabaseConfig_Validate_def split: sum.splits)

lemma DatabaseConfig_Validate_None_iff:
  "fst (DatabaseConfig_Validate dc) = None \<longleftrightarrow>
     dc_Host dc \<noteq> '''' \<and> dc_Port dc \<noteq> '''' \<and> (\<exists>v. Atoi (dc_Port dc) = Inr v) \<and>
     dc_User dc \<noteq> '''' \<and> dc_Password dc \<noteq> '''' \<and> dc_DatabaseName dc \<noteq> '''' \<and>
     0 \<le> dc_MaxIdleConns dc \<and> 0 \<le> dc_MaxOpenConns dc \<and>
     \<not> (dc_MaxOpenConns dc > 0 \<and> dc_MaxIdleConns dc > dc_MaxOpenConns dc)"
  by (cases "Atoi (dc_Port dc)") (auto simp: DatabaseConfig_Validate_def)

text \<open>
  The claim as it is written fails: the port \<open>9223372036854775808\<close> is a decimal integer
  and every other field of the configuration is in order, and \<open>Validate\<close> returns the port
  error, because \<open>Atoi\<close> reports a value outside the range of \<open>int\<close>.
\<close>

theorem DatabaseConfig_Validate_port_range_counterexample:
  "fst (DatabaseConfig_Validate (default_DatabaseConfig\<lparr>dc_Port := ''9223372036854775808''\<rparr>))
     = Some (PortMustBeNumber ErrRange) \<and>
   is_decimal_integer (dc_Port (default_DatabaseConfig\<lparr>dc_Port := ''9223372036854775808''\<rparr>)) \<and>
   dc_Host default_DatabaseConfig \<noteq> '''' \<and>
   dc_User default_DatabaseConfig \<noteq> '''' \<and>
   dc_Password default_DatabaseConfig \<noteq> '''' \<and>
   dc_DatabaseName default_DatabaseConfig \<noteq> '''' \<and>
   0 \<le> dc_MaxIdleConns default_DatabaseConfig \<and>
   0 \<le> dc_MaxOpenConns default_DatabaseConfig \<and>
   dc_MaxIdleConns default_DatabaseConfig \<le> dc_MaxOpenConns default_DatabaseConfig"
  by (simp add: DatabaseConfig_Validate_def default_DatabaseConfig_def Atoi_def
      isDigit_def digitVal_def maxUint64_def is_decimal_integer_def)

text \<open>
  C7, amended. \<open>Validate\<close> returns an error if and only if one of these holds: \<open>Host\<close>,
  \<open>Port\<close>, \<open>User\<close>, \<open>Password\<close> or \<open>DatabaseName\<close> is the empty string; \<open>Port\<close> is not a
  decimal integer (an optional sign, then digits) whose value lies in the range of a
  64-bit signed \<open>int\<close>; \<open>MaxIdleConns\<close> is negative; \<open>MaxOpenConns\<close> is negative; or
  \<open>MaxOpenConns > 0\<close> and \<open>MaxIdleConns > MaxOpenConns\<close>. Otherwise it returns nil. It
  never changes the configuration.
\<close>

theorem DatabaseConfig_Validate_error_iff:
  "(fst (DatabaseConfig_Validate dc) \<noteq> None \<longleftrightarrow>
      dc_Host dc = '''' \<or> dc_Port dc = '''' \<or> dc_User dc = '''' \<or>
      dc_Password dc = '''' \<or> dc_DatabaseName dc = '''' \<or>
      \<not> (is_decimal_integer (dc_Port dc) \<and>
         MinInt64 \<le> decimal_value (dc_Port dc) \<and> decimal_value (dc_Port dc) \<le> MaxInt64) \<or>
      dc_MaxIdleConns dc < 0 \<or> dc_MaxOpenConns dc < 0 \<or>
      (dc_MaxOpenConns dc > 0 \<and> dc_MaxIdleConns dc > dc_MaxOpenConns dc)) \<and>
   snd (DatabaseConfig_Validate dc) = dc"
proof -
  have "(\<exists>v. Atoi (dc_Port dc) = Inr v) \<longleftrightarrow>
      is_decimal_integer (dc_Port dc) \<and>
      MinInt64 \<le> decimal_value (dc_Port dc) \<and> decimal_value (dc_Port dc) \<le> MaxInt64"
    by (auto simp: Atoi_Inr_iff)
  then have "fst (DatabaseConfig_Validate dc) = None \<longleftrightarrow>
      dc_Host dc \<noteq> '''' \<and> dc_Port dc \<noteq> '''' \<and>
      (is_decimal_integer (dc_Port dc) \<and>
       MinInt64 \<le> decimal_value (dc_Port dc) \<and> decimal_value (dc_Port dc) \<le> MaxInt64) \<and>
      dc_User dc \<noteq> '''' \<and> dc_Password dc \<noteq> '''' \<and> dc_DatabaseName dc \<noteq> '''' \<and>
      0 \<le> dc_MaxIdleConns dc \<and> 0 \<le> dc_MaxOpenConns dc \<and>
      \<not> (dc_MaxOpenConns dc > 0 \<and> dc_MaxIdleConns dc > dc_MaxOpenConns dc)"
    by (simp only: DatabaseConfig_Validate_None_iff)
  then show ?thesis
    using DatabaseConfig_Validate_unchanged [of dc] by auto
qed

theorem DatabaseConfig_Validate_error_iff_witness:
  "DatabaseConfig_Validate default_DatabaseConfig = (None, default_DatabaseConfig) \<and>
   fst (DatabaseConfig_Validate (default_DatabaseConfig\<lparr>dc_Port := ''5432x''\<rparr>)) \<noteq> None"
proof -
  have port: "is_decimal_integer ''5432''" "decimal_value ''5432'' = 5432"
    "\<not> is_decimal_integer ''5432x''"
    by (simp_all add: is_decimal_integer_def decimal_value_def digits_value_def
        isDigit_def digitVal_def)
  have "fst (DatabaseConfig_Validate default_DatabaseConfig) = None"
    using DatabaseConfig_Validate_error_iff [of default_DatabaseConfig] port
    by (simp add: default_DatabaseConfig_def MinInt64_def MaxInt64_def)
  moreover have "snd (DatabaseConfig_Validate default_DatabaseConfig) = default_DatabaseConfig"
    using DatabaseConfig_Validate_error_iff [of default_DatabaseConfig] by blast
  moreover have
    "fst (DatabaseConfig_Validate (default_DatabaseConfig\<lparr>dc_Port := ''5432x''\<rparr>)) \<noteq> None"
    using DatabaseConfig_Validate_error_iff [of "default_DatabaseConfig\<lparr>dc_Port := ''5432x''\<rparr>"]
      port by simp
  ultimately show ?thesis
    by (simp add: prod_eq_iff)
qed

subsection \<open>C8: GetPaginationParams\<close>

lemma getIntParam_range:
  "MinInt64 \<le> d \<Longrightarrow> d \<le> MaxInt64 \<Longrightarrow>
   MinInt64 \<le> getIntParam c key d \<and> getIntParam c key d \<le> MaxInt64"
  by (auto simp: getIntParam_def Let_def Atoi_Inr_iff split: sum.splits)

lemma wrap64_id: "- (2 ^ 63) \<le> x \<Longrightarrow> x < 2 ^ 63 \<Longrightarrow> wrap64 x = x"
  by (simp add: wrap64_def)

text \<open>
  What holds of every request: the page is at least 1, the page size lies between 1 and
  100, the limit is the page size and the offset is the product as a 64-bit \<open>int\<close> keeps
  it. The offset is the product itself as long as the page is at most
  92233720368547759, so that \<open>(Page - 1) * 100\<close> stays below \<open>2 ^ 63\<close>.
\<close>

lemma GetPaginationParams_invariants:
  "1 \<le> pp_Page (GetPaginationParams c) \<and>
   pp_Page (GetPaginationParams c) \<le> MaxInt64 \<and>
   1 \<le> pp_PageSize (GetPaginationParams c) \<and>
   pp_PageSize (GetPaginationParams c) \<le> 100 \<and>
   pp_Limit (GetPaginationParams c) = pp_PageSize (GetPaginationParams c) \<and>
   pp_Offset (GetPaginationParams c) =
     wrap64 ((pp_Page (GetPaginationParams c) - 1) * pp_PageSize (GetPaginationParams c))"
proof -
  have "getIntParam c ''page'' DefaultPage \<le> MaxInt64"
    using getIntParam_range [of DefaultPage c "''page''"]
    by (simp add: DefaultPage_def MinInt64_def MaxInt64_def)
  then show ?thesis
    by (simp add: GetPaginationParams_def Let_def DefaultPage_def DefaultPageSize_def
        MaxPageSize_def MaxInt64_def)
qed

lemma GetPaginationParams_offset_exact:
  assumes "pp_Page (GetPaginationParams c) \<le> 92233720368547759"
  shows "pp_Offset (GetPaginationParams c) =
     (pp_Page (GetPaginationParams c) - 1) * pp_PageSize (GetPaginationParams c)"
proof -
  let ?p = "GetPaginationParams c"
  have inv: "1 \<le> pp_Page ?p" "1 \<le> pp_PageSize ?p" "pp_PageSize ?p \<le> 100"
    "pp_Offset ?p = wrap64 ((pp_Page ?p - 1) * pp_PageSize ?p)"
    using GetPaginationParams_invariants [of c] by simp_all
  have lo: "0 \<le> (pp_Page ?p - 1) * pp_PageSize ?p"
    using inv by simp
  have "(pp_Page ?p - 1) * pp_PageSize ?p \<le> 92233720368547758 * 100"
    using assms inv by (intro mult_mono) simp_all
  then have hi: "(pp_Page ?p - 1) * pp_PageSize ?p < 2 ^ 63"
    by simp
  from lo have "- (2 ^ 63) \<le> (pp_Page ?p - 1) * pp_PageSize ?p"
    by simp
  from wrap64_id [OF this hi] inv(4) show ?thesis
    by simp
qed

text \<open>
  The claim as it is written fails: it reads that the offset is always
  \<open>(Page - 1) * PageSize\<close>. The request \<open>?page=9223372036854775807&page_size=100\<close>
  passes every check of \<open>GetPaginationParams\<close> (the page is not below 1, and nothing
  bounds it from above); the product \<open>9223372036854775806 * 100\<close> leaves the range of
  \<open>int\<close> and the offset that comes back is \<open>-200\<close>.
\<close>

theorem GetPaginationParams_offset_overflow_counterexample:
  "GetPaginationParams
     (request_for ''/items'' [(''page'', ''9223372036854775807''), (''page_size'', ''100'')])
   = \<lparr> pp_Page = 9223372036854775807, pp_PageSize = 100, pp_Offset = - 200,
       pp_Limit = 100 \<rparr> \<and>
   (9223372036854775807 - 1) * 100 \<noteq> (- 200 :: int)"
  by (simp add: GetPaginationParams_def request_for_def getIntParam_def Query_def Atoi_def
      isDigit_def digitVal_def maxUint64_def wrap64_def DefaultPage_def DefaultPageSize_def
      MaxPageSize_def)

text \<open>
  C8, amended. For every request, missing, non-numeric, zero, negative and oversized
  parameters included, \<open>GetPaginationParams\<close> returns \<open>Page \<ge> 1\<close>, \<open>1 \<le> PageSize \<le> 100\<close>
  and \<open>Limit = PageSize\<close>; and \<open>Offset = (Page - 1) * PageSize\<close> whenever that product
  is within the range of a 64-bit \<open>int\<close>, which it is for every page up to
  92233720368547759.
\<close>

theorem GetPaginationParams_constrained:
  fixes c :: Context
  defines "p \<equiv> GetPaginationParams c"
  shows "1 \<le> pp_Page p \<and> 1 \<le> pp_PageSize p \<and> pp_PageSize p \<le> 100 \<and>
    pp_Limit p = pp_PageSize p \<and>
    ((pp_Page p - 1) * pp_PageSize p \<le> MaxInt64
       \<longrightarrow> pp_Offset p = (pp_Page p - 1) * pp_PageSize p) \<and>
    (pp_Page p \<le> 92233720368547759
       \<longrightarrow> pp_Offset p = (pp_Page p - 1) * pp_PageSize p)"
proof -
  have inv: "1 \<le> pp_Page p" "1 \<le> pp_PageSize p" "pp_PageSize p \<le> 100"
    "pp_Limit p = pp_PageSize p"
    "pp_Offset p = wrap64 ((pp_Page p - 1) * pp_PageSize p)"
    unfolding p_def using GetPaginationParams_invariants [of c] by simp_all
  have lo: "- (2 ^ 63) \<le> (pp_Page p - 1) * pp_PageSize p"
  proof -
    from inv(1,2) have "0 \<le> (pp_Page p - 1) * pp_PageSize p"
      by simp
    then show ?thesis
      by simp
  qed
  have in_range: "(pp_Page p - 1) * pp_PageSize p \<le> MaxInt64
      \<longrightarrow> pp_Offset p = (pp_Page p - 1) * pp_PageSize p"
  proof
    assume "(pp_Page p - 1) * pp_PageSize p \<le> MaxInt64"
    then have "(pp_Page p - 1) * pp_PageSize p < 2 ^ 63"
      by (simp add: MaxInt64_def)
    from wrap64_id [OF lo this] inv(5)
    show "pp_Offset p = (pp_Page p - 1) * pp_PageSize p"
      by simp
  qed
  have small_page: "pp_Page p \<le> 92233720368547759
      \<longrightarrow> pp_Offset p = (pp_Page p - 1) * pp_PageSize p"
    unfolding p_def using GetPaginationParams_offset_exact [of c] by simp
  from inv(1-4) in_range small_page show ?thesis
    by (intro conjI)
qed

theorem GetPaginationParams_constrained_witness:
  "GetPaginationParams (request_for ''/items'' [(''page'', ''3''), (''page_size'', ''20'')])
     = \<lparr> pp_Page = 3, pp_PageSize = 20, pp_Offset = 40, pp_Limit = 20 \<rparr> \<and>
   GetPaginationParams (request_for ''/items'' [(''page'', ''-4''), (''page_size'', ''abc'')])
     = \<lparr> pp_Page = 1, pp_PageSize = 10, pp_Offset = 0, pp_Limit = 10 \<rparr>"
proof -
  let ?a = "request_for ''/items'' [(''page'', ''3''), (''page_size'', ''20'')]"
  let ?b = "request_for ''/items'' [(''page'', ''-4''), (''page_size'', ''abc'')]"
  have a: "pp_Page (GetPaginationParams ?a) = 3" "pp_PageSize (GetPaginationParams ?a) = 20"
    by (simp_all add: GetPaginationParams_def request_for_def getIntParam_def Query_def
        Atoi_def isDigit_def digitVal_def maxUint64_def DefaultPage_def DefaultPageSize_def
        MaxPageSize_def)
  have b: "pp_Page (GetPaginationParams ?b) = 1" "pp_PageSize (GetPaginationParams ?b) = 10"
    by (simp_all add: GetPaginationParams_def request_for_def getIntParam_def Query_def
        Atoi_def isDigit_def digitVal_def maxUint64_def DefaultPage_def DefaultPageSize_def
        MaxPageSize_def)
  have "pp_Offset (GetPaginationParams ?a) = 40" "pp_Limit (GetPaginationParams ?a) = 20"
    using GetPaginationParams_constrained [of ?a] by (simp_all add: a)
  moreover
  have "pp_Offset (GetPaginationParams ?b) = 0" "pp_Limit (GetPaginationParams ?b) = 10"
    using GetPaginationParams_constrained [of ?b] by (simp_all add: b)
  ultimately show ?thesis
    using a b by (auto intro!: PaginationParams.equality)
qed

subsection \<open>C5: the success envelope\<close>

lemma Success_body:
  "Success c message data now =
     Inr \<lparr> resp_Status = 200,
           resp_Body =
             (if data = ANil
              then Some (JObject [(''message'', JString (encode_string message)),
                                  (''timestamp'', JTime now)])
              else (case json_of_any data of
                      None \<Rightarrow> None
                    | Some d \<Rightarrow>
                        Some (JObject [(''message'', JString (encode_string message)),
                                       (''data'', d),
                                       (''timestamp'', JTime now)]))) \<rparr>"
  by (cases "json_of_any data")
    (simp_all add: Success_def JSON_200 StatusOK_def marshal_SuccessResponse_def members_def)

text \<open>
  The claim as it is written fails in three ways. For nil data, which the package itself
  passes in \<open>OK\<close>, the envelope has the two members \<open>message\<close> and \<open>timestamp\<close> and no
  \<open>data\<close>. For data that \<open>json.Marshal\<close> rejects, a NaN here, the response is the status
  200 without a body. And a message that is not valid UTF-8 is not written as it is: the
  byte \<open>0xFF\<close> becomes the replacement character.
\<close>

theorem Success_nil_data_counterexample:
  "Success (request_for ''/ping'' []) ''pong'' ANil 0
     = Inr \<lparr> resp_Status = 200,
             resp_Body = Some (JObject [(''message'', JString ''pong''),
                                        (''timestamp'', JTime 0)]) \<rparr> \<and>
   Success (request_for ''/ping'' []) ''pong'' (AFloat NaN) 0
     = Inr \<lparr> resp_Status = 200, resp_Body = None \<rparr> \<and>
   Success (request_for ''/ping'' []) [CHR ''p'', CHR 0xFF] (AInt 1) 0
     = Inr \<lparr> resp_Status = 200,
             resp_Body = Some (JObject [(''message'', JString [CHR ''p'', CHR 0xEF, CHR 0xBF, CHR 0xBD]),
                                        (''data'', JNumber 1),
                                        (''timestamp'', JTime 0)]) \<rparr>"
  by (simp add: Success_body encode_string_def DecodeRune_size_def byte_def leading_def
      replacement_def)

text \<open>
  C5, amended. For every message and every data value, \<open>Success\<close> responds with status
  200. When the data is the nil interface, the body is the envelope with the members
  \<open>message\<close> and \<open>timestamp\<close> and no others. When \<open>json.Marshal\<close> returns an error for the data
  (a NaN, an infinity, a channel, ...), no body is written. In every other case the body
  is the envelope with exactly the members \<open>message\<close>, \<open>data\<close> and \<open>timestamp\<close>, in this
  order, where \<open>data\<close> is the encoding of the given data. \<open>timestamp\<close> is the current UTC
  time. \<open>message\<close> is the given message with every byte that belongs to no valid UTF-8
  encoding replaced by U+FFFD, and so the given message itself when that is valid UTF-8.
\<close>

theorem Success_envelope:
  "Success c message data now =
     Inr \<lparr> resp_Status = 200,
           resp_Body =
             (if data = ANil
              then Some (JObject [(''message'', JString (encode_string message)),
                                  (''timestamp'', JTime now)])
              else (case json_of_any data of
                      None \<Rightarrow> None
                    | Some d \<Rightarrow>
                        Some (JObject [(''message'', JString (encode_string message)),
                                       (''data'', d),
                                       (''timestamp'', JTime now)]))) \<rparr> \<and>
   (encode_string message = message \<longleftrightarrow> valid_utf8 message)"
  by (simp add: Success_body encode_string_eq_iff)

theorem Success_envelope_witness:
  "Success (request_for ''/users/1'' []) ''found''
      (AMap [(''name'', AString ''Ada''), (''id'', AInt 1)]) 1700000000
   = Inr \<lparr> resp_Status = 200,
           resp_Body = Some (JObject [(''message'', JString ''found''),
              (''data'', JObject [(''id'', JNumber 1), (''name'', JString ''Ada'')]),
              (''timestamp'', JTime 1700000000)]) \<rparr>"
proof -
  have ascii: "list_all (\<lambda>c. byte c < 128) ''found''" "list_all (\<lambda>c. byte c < 128) ''Ada''"
    "list_all (\<lambda>c. byte c < 128) ''id''" "list_all (\<lambda>c. byte c < 128) ''name''"
    by (simp_all add: byte_def)
  then have valid: "valid_utf8 ''found''"
    by (simp add: valid_utf8_ascii)
  have data: "json_of_any (AMap [(''name'', AString ''Ada''), (''id'', AInt 1)])
      = Some (JObject [(''id'', JNumber 1), (''name'', JString ''Ada'')])"
    using ascii by (simp add: members_def encode_string_ascii)
  from Success_envelope [of "request_for ''/users/1'' []" "''found''"
        "AMap [(''name'', AString ''Ada''), (''id'', AInt 1)]" 1700000000] valid
  show ?thesis
    by (simp add: data del: json_of_any.simps)
qed

subsection \<open>C4 and C6: the error envelope\<close>

lemma addRequestID_fields:
  "er_Error (addRequestID c r) = er_Error r"
  "er_Code (addRequestID c r) = er_Code r"
  "er_Details (addRequestID c r) = er_Details r"
  "er_Timestamp (addRequestID c r) = er_Timestamp r"
  "er_Path (addRequestID c r) = er_Path r"
  "er_Metadata (addRequestID c r) = er_Metadata r"
  "er_RequestID (addRequestID c r)
     = (case Get c ''request_id'' of Some (AString ident) \<Rightarrow> ident | _ \<Rightarrow> er_RequestID r)"
  by (simp_all add: addRequestID_def split: option.splits any.splits)

lemma marshal_ErrorResponse_plain:
  "er_Metadata r = ANil \<Longrightarrow>
   marshal_ErrorResponse r =
     Some (JObject
       ([(''error'', JString (encode_string (er_Error r))),
         (''code'', JString (encode_string (er_Code r)))] @
        (if er_Details r = '''' then []
         else [(''details'', JString (encode_string (er_Details r)))]) @
        [(''timestamp'', JTime (er_Timestamp r))] @
        (if er_Path r = '''' then []
         else [(''path'', JString (encode_string (er_Path r)))]) @
        (if er_RequestID r = '''' then []
         else [(''request_id'', JString (encode_string (er_RequestID r)))])))"
  by (simp add: marshal_ErrorResponse_def members_def)

lemma marshal_ErrorResponse_metadata:
  "er_Metadata r \<noteq> ANil \<Longrightarrow>
   marshal_ErrorResponse r =
     (case json_of_any (er_Metadata r) of
        None \<Rightarrow> None
      | Some m \<Rightarrow>
         Some (JObject
           ([(''error'', JString (encode_string (er_Error r))),
             (''code'', JString (encode_string (er_Code r)))] @
            (if er_Details r = '''' then []
             else [(''details'', JString (encode_string (er_Details r)))]) @
            [(''timestamp'', JTime (er_Timestamp r))] @
            (if er_Path r = '''' then []
             else [(''path'', JString (encode_string (er_Path r)))]) @
            (if er_RequestID r = '''' then []
             else [(''request_id'', JString (encode_string (er_RequestID r)))]) @
            [(''metadata'', m)])))"
  by (cases "json_of_any (er_Metadata r)") (simp_all add: marshal_ErrorResponse_def members_def)

text \<open>
  The claim as it is written fails in several ways. Where the key \<open>request_id\<close> is set to
  a value that is not a string, the type assertion of \<open>Error\<close> skips it and the envelope
  has no \<open>request_id\<close> member. For the status 204 no envelope is written; for the status 0
  the envelope goes out with the status 200; for the status 1000 the call panics. A
  message that is not valid UTF-8 is not written as it is. And on a context without a
  request the call panics before it writes anything.
\<close>

theorem Error_request_id_counterexample:
  "Get \<lparr> ctx_Request = Some \<lparr> req_Path = ''/orders'', req_Query = [] \<rparr>,
         ctx_Keys = [(''request_id'', AInt 42)] \<rparr> ''request_id'' = Some (AInt 42) \<and>
   Error \<lparr> ctx_Request = Some \<lparr> req_Path = ''/orders'', req_Query = [] \<rparr>,
           ctx_Keys = [(''request_id'', AInt 42)] \<rparr> 404 ''not_found'' ''no such order'' 0
     = Inr \<lparr> resp_Status = 404,
             resp_Body = Some (JObject [(''error'', JString ''no such order''),
                                        (''code'', JString ''not_found''),
                                        (''timestamp'', JTime 0),
                                        (''path'', JString ''/orders'')]) \<rparr> \<and>
   Error (request_for ''/orders'' []) 204 ''not_found'' ''no such order'' 0
     = Inr \<lparr> resp_Status = 204, resp_Body = None \<rparr> \<and>
   Error (request_for ''/orders'' []) 0 ''not_found'' ''no such order'' 0
     = Inr \<lparr> resp_Status = 200,
             resp_Body = Some (JObject [(''error'', JString ''no such order''),
                                        (''code'', JString ''not_found''),
                                        (''timestamp'', JTime 0),
                                        (''path'', JString ''/orders'')]) \<rparr> \<and>
   Error (request_for ''/orders'' []) 1000 ''not_found'' ''no such order'' 0
     = Inl (InvalidWriteHeaderCode 1000) \<and>
   Error (request_for ''/orders'' []) 404 ''not_found'' [CHR 0xFF] 0
     = Inr \<lparr> resp_Status = 404,
             resp_Body = Some (JObject [(''error'', JString [CHR 0xEF, CHR 0xBF, CHR 0xBD]),
                                        (''code'', JString ''not_found''),
                                        (''timestamp'', JTime 0),
                                        (''path'', JString ''/orders'')]) \<rparr> \<and>
   Error \<lparr> ctx_Request = None, ctx_Keys = [] \<rparr> 404 ''not_found'' ''no such order'' 0
     = Inl NilPointerDereference"
proof -
  have ascii: "encode_string ''no such order'' = ''no such order''"
    "encode_string ''not_found'' = ''not_found''" "encode_string ''/orders'' = ''/orders''"
    by (simp_all add: encode_string_ascii byte_def)
  have invalid: "encode_string [CHR 0xFF] = [CHR 0xEF, CHR 0xBF, CHR 0xBD]"
    by (simp add: encode_string_def DecodeRune_size_def byte_def leading_def replacement_def)
  show ?thesis
    by (simp add: Error_def request_for_def Get_def JSON_cases marshal_ErrorResponse_plain
        addRequestID_fields ascii invalid)
qed

text \<open>
  C4, amended. For every gin context that serves a request, every code string and
  message, \<open>Error\<close> does this with the status code:

  \<^item> from 200 to 999, 204 and 304 apart, it responds with that status and the envelope;
  \<^item> 0 or below, it responds with the status 200 and the envelope;
  \<^item> from 100 to 199, or 204, or 304, it responds with that status and no body;
  \<^item> from 1 to 99, or 1000 and above, it panics in \<open>WriteHeader\<close>.

  The envelope has the members \<open>error\<close> (the message), \<open>code\<close> (the code) and \<open>timestamp\<close>
  (the current UTC time), then \<open>path\<close> (the request's URL path) unless that path is empty,
  then \<open>request_id\<close> when the context's \<open>request_id\<close> value is a string that is not empty;
  \<open>request_id\<close> is left out when the key is not set, set to a value of another type, or
  set to the empty string. It has no \<open>details\<close> and no \<open>metadata\<close> member. Every string is
  written with the bytes that belong to no valid UTF-8 encoding replaced by U+FFFD, and so
  as it is when it is valid UTF-8.
\<close>

theorem Error_envelope:
  fixes c :: Context and request :: Request and status :: int
    and code message :: string and now :: time
  assumes "ctx_Request c = Some request"
  defines "ident \<equiv> (case Get c ''request_id'' of Some (AString s) \<Rightarrow> s | _ \<Rightarrow> '''')"
  defines "envelope \<equiv>
     JObject ([(''error'', JString (encode_string message)),
               (''code'', JString (encode_string code)),
               (''timestamp'', JTime now)] @
              (if req_Path request = '''' then []
               else [(''path'', JString (encode_string (req_Path request)))]) @
              (if ident = '''' then []
               else [(''request_id'', JString (encode_string ident))]))"
  shows "Error c status code message now =
           (if (1 \<le> status \<and> status \<le> 99) \<or> 1000 \<le> status
            then Inl (InvalidWriteHeaderCode status)
            else if (100 \<le> status \<and> status \<le> 199) \<or> status = 204 \<or> status = 304
            then Inr \<lparr> resp_Status = status, resp_Body = None \<rparr>
            else Inr \<lparr> resp_Status = (if status \<le> 0 then 200 else status),
                       resp_Body = Some envelope \<rparr>) \<and>
         field envelope ''error'' = Some (JString (encode_string message)) \<and>
         field envelope ''code'' = Some (JString (encode_string code)) \<and>
         field envelope ''timestamp'' = Some (JTime now) \<and>
         field envelope ''path''
           = (if req_Path request = '''' then None
              else Some (JString (encode_string (req_Path request)))) \<and>
         field envelope ''request_id''
           = (if ident = '''' then None else Some (JString (encode_string ident))) \<and>
         field envelope ''details'' = None \<and>
         field envelope ''metadata'' = None \<and>
         (field envelope ''error'' = Some (JString message) \<longleftrightarrow> valid_utf8 message) \<and>
         (field envelope ''code'' = Some (JString code) \<longleftrightarrow> valid_utf8 code) \<and>
         (field envelope ''path'' = Some (JString (req_Path request))
            \<longleftrightarrow> valid_utf8 (req_Path request) \<and> req_Path request \<noteq> '''') \<and>
         (field envelope ''request_id'' = Some (JString ident)
            \<longleftrightarrow> valid_utf8 ident \<and> ident \<noteq> '''')"
proof -
  let ?response = "\<lparr> er_Error = message, er_Code = code, er_Details = '''',
      er_Timestamp = now, er_Path = req_Path request, er_RequestID = '''',
      er_Metadata = ANil \<rparr>"
  have response: "addRequestID c ?response = ?response\<lparr>er_RequestID := ident\<rparr>"
    by (simp add: addRequestID_def ident_def split: option.splits any.splits)
  have "marshal_ErrorResponse (addRequestID c ?response) = Some envelope"
    unfolding response by (simp add: marshal_ErrorResponse_plain envelope_def)
  then have result: "Error c status code message now = JSON status (Some envelope)"
    using assms(1) by (simp add: Error_def)
  have fields: "field envelope ''error'' = Some (JString (encode_string message))"
    "field envelope ''code'' = Some (JString (encode_string code))"
    "field envelope ''timestamp'' = Some (JTime now)"
    "field envelope ''path''
       = (if req_Path request = '''' then None
          else Some (JString (encode_string (req_Path request))))"
    "field envelope ''request_id''
       = (if ident = '''' then None else Some (JString (encode_string ident)))"
    "field envelope ''details'' = None"
    "field envelope ''metadata'' = None"
    by (simp_all add: field_def envelope_def)
  show ?thesis
    unfolding result JSON_cases using fields by (auto simp: encode_string_eq_iff)
qed

theorem Error_envelope_witness:
  "Error \<lparr> ctx_Request = Some \<lparr> req_Path = ''/orders/7'', req_Query = [] \<rparr>,
           ctx_Keys = [(''request_id'', AString ''req-123'')] \<rparr>
         404 ''not_found'' ''no such order'' 1700000000
     = Inr \<lparr> resp_Status = 404,
             resp_Body = Some (JObject [(''error'', JString ''no such order''),
                                  (''code'', JString ''not_found''),
                                  (''timestamp'', JTime 1700000000),
                                  (''path'', JString ''/orders/7''),
                                  (''request_id'', JString ''req-123'')]) \<rparr>"
proof -
  let ?c = "\<lparr> ctx_Request = Some \<lparr> req_Path = ''/orders/7'', req_Query = [] \<rparr>,
           ctx_Keys = [(''request_id'', AString ''req-123'')] \<rparr>"
  have request: "ctx_Request ?c = Some \<lparr> req_Path = ''/orders/7'', req_Query = [] \<rparr>"
    by simp
  have ascii: "encode_string ''no such order'' = ''no such order''"
    "encode_string ''not_found'' = ''not_found''"
    "encode_string ''/orders/7'' = ''/orders/7''"
    "encode_string ''req-123'' = ''req-123''"
    by (simp_all add: encode_string_ascii byte_def)
  from Error_envelope [OF request, of 404 "''not_found''" "''no such order''" 1700000000]
  show ?thesis
    by (simp add: Get_def ascii)
qed

text \<open>
  The claim as it is written fails: the status the client gets is not always the
  \<open>StatusCode\<close> of the error, and an envelope is not always written. A \<open>StatusCode\<close> of 0,
  the zero value of the field, goes out as 200; for 304 there is no body; for 99 the call
  panics; metadata that \<open>json.Marshal\<close> rejects leaves the status 409 without a body; and a
  message that is not valid UTF-8 is not written as it is.
\<close>

theorem HandleAPIError_status_counterexample:
  "HandleAPIError (request_for ''/orders'' [])
      (Some \<lparr> ae_StatusCode = 0, ae_Code = ''conflict'', ae_Message = ''order exists'',
              ae_Details = '''', ae_Metadata = ANil \<rparr>) 0
     = Inr \<lparr> resp_Status = 200,
             resp_Body = Some (JObject [(''error'', JString ''order exists''),
                                        (''code'', JString ''conflict''),
                                        (''timestamp'', JTime 0),
                                        (''path'', JString ''/orders'')]) \<rparr> \<and>
   HandleAPIError (request_for ''/orders'' [])
      (Some \<lparr> ae_StatusCode = 304, ae_Code = ''conflict'', ae_Message = ''order exists'',
              ae_Details = '''', ae_Metadata = ANil \<rparr>) 0
     = Inr \<lparr> resp_Status = 304, resp_Body = None \<rparr> \<and>
   HandleAPIError (request_for ''/orders'' [])
      (Some \<lparr> ae_StatusCode = 99, ae_Code = ''conflict'', ae_Message = ''order exists'',
              ae_Details = '''', ae_Metadata = ANil \<rparr>) 0
     = Inl (InvalidWriteHeaderCode 99) \<and>
   HandleAPIError (request_for ''/orders'' [])
      (Some \<lparr> ae_StatusCode = 409, ae_Code = ''conflict'', ae_Message = ''order exists'',
              ae_Details = '''', ae_Metadata = AFloat NaN \<rparr>) 0
     = Inr \<lparr> resp_Status = 409, resp_Body = None \<rparr> \<and>
   HandleAPIError (request_for ''/orders'' [])
      (Some \<lparr> ae_StatusCode = 409, ae_Code = ''conflict'', ae_Message = [CHR 0xFF],
              ae_Details = '''', ae_Metadata = ANil \<rparr>) 0
     = Inr \<lparr> resp_Status = 409,
             resp_Body = Some (JObject [(''error'', JString [CHR 0xEF, CHR 0xBF, CHR 0xBD]),
                                        (''code'', JString ''conflict''),
                                        (''timestamp'', JTime 0),
                                        (''path'', JString ''/orders'')]) \<rparr>"
proof -
  have ascii: "encode_string ''order exists'' = ''order exists''"
    "encode_string ''conflict'' = ''conflict''" "encode_string ''/orders'' = ''/orders''"
    by (simp_all add: encode_string_ascii byte_def)
  have invalid: "encode_string [CHR 0xFF] = [CHR 0xEF, CHR 0xBF, CHR 0xBD]"
    by (simp add: encode_string_def DecodeRune_size_def byte_def leading_def replacement_def)
  show ?thesis
    by (simp add: HandleAPIError_def request_for_def Get_def JSON_cases
        marshal_ErrorResponse_plain marshal_ErrorResponse_metadata addRequestID_fields
        ascii invalid)
qed

text \<open>
  C6, amended. For every APIError, \<open>HandleAPIError\<close>, called on a context that serves a
  request, does this with the error's \<open>StatusCode\<close>:

  \<^item> from 200 to 999, 204 and 304 apart, it responds with exactly that status;
  \<^item> 0 or below, it responds with the status 200;
  \<^item> from 100 to 199, or 204, or 304, it responds with that status and no body;
  \<^item> from 1 to 99, or 1000 and above, it panics in \<open>WriteHeader\<close>.

  In the first two cases the body is the error envelope, unless \<open>json.Marshal\<close> returns an
  error for the \<open>Metadata\<close> of the error, and then no body is written. The envelope has the
  members \<open>error\<close> and \<open>code\<close>, \<open>details\<close> unless empty, \<open>timestamp\<close>, \<open>path\<close> and
  \<open>request_id\<close> as for \<open>Error\<close>, and \<open>metadata\<close> unless the \<open>Metadata\<close> is nil. Its \<open>error\<close>
  member is the \<open>Message\<close> and its \<open>code\<close> member the \<open>Code\<close> of the error, each with the
  bytes that belong to no valid UTF-8 encoding replaced by U+FFFD, and so each as it is
  when it is valid UTF-8.
\<close>

theorem HandleAPIError_envelope:
  fixes c :: Context and request :: Request and err :: APIError and now :: time
  assumes "ctx_Request c = Some request"
  defines "status \<equiv> ae_StatusCode err"
  defines "ident \<equiv> (case Get c ''request_id'' of Some (AString s) \<Rightarrow> s | _ \<Rightarrow> '''')"
  defines "envelope \<equiv> (\<lambda>metadata.
     JObject ([(''error'', JString (encode_string (ae_Message err))),
               (''code'', JString (encode_string (ae_Code err)))] @
              (if ae_Details err = '''' then []
               else [(''details'', JString (encode_string (ae_Details err)))]) @
              [(''timestamp'', JTime now)] @
              (if req_Path request = '''' then []
               else [(''path'', JString (encode_string (req_Path request)))]) @
              (if ident = '''' then []
               else [(''request_id'', JString (encode_string ident))]) @
              metadata))"
  defines "body \<equiv>
     (if ae_Metadata err = ANil then Some (envelope [])
      else (case json_of_any (ae_Metadata err) of
              None \<Rightarrow> None
            | Some m \<Rightarrow> Some (envelope [(''metadata'', m)])))"
  shows "HandleAPIError c (Some err) now =
           (if (1 \<le> status \<and> status \<le> 99) \<or> 1000 \<le> status
            then Inl (InvalidWriteHeaderCode status)
            else if (100 \<le> status \<and> status \<le> 199) \<or> status = 204 \<or> status = 304
            then Inr \<lparr> resp_Status = status, resp_Body = None \<rparr>
            else Inr \<lparr> resp_Status = (if status \<le> 0 then 200 else status),
                       resp_Body = body \<rparr>) \<and>
         (body = None \<longleftrightarrow> json_of_any (ae_Metadata err) = None) \<and>
         (\<forall>j. body = Some j \<longrightarrow>
            field j ''error'' = Some (JString (encode_string (ae_Message err))) \<and>
            field j ''code'' = Some (JString (encode_string (ae_Code err))) \<and>
            (field j ''error'' = Some (JString (ae_Message err))
               \<longleftrightarrow> valid_utf8 (ae_Message err)) \<and>
            (field j ''code'' = Some (JString (ae_Code err)) \<longleftrightarrow> valid_utf8 (ae_Code err)))"
proof -
  let ?response = "\<lparr> er_Error = ae_Message err, er_Code = ae_Code err,
      er_Details = ae_Details err, er_Timestamp = now, er_Path = req_Path request,
      er_RequestID = '''', er_Metadata = ae_Metadata err \<rparr>"
  have response: "addRequestID c ?response = ?response\<lparr>er_RequestID := ident\<rparr>"
    by (simp add: addRequestID_def ident_def split: option.splits any.splits)
  have "marshal_ErrorResponse (addRequestID c ?response) = body"
  proof (cases "ae_Metadata err = ANil")
    case True
    then show ?thesis
      unfolding response by (simp add: marshal_ErrorResponse_plain body_def envelope_def)
  next
    case False
    then show ?thesis
      unfolding response
      by (simp add: marshal_ErrorResponse_metadata body_def envelope_def split: option.splits)
  qed
  then have result: "HandleAPIError c (Some err) now = JSON status body"
    using assms(1) by (simp add: HandleAPIError_def status_def)
  have written: "body = None \<longleftrightarrow> json_of_any (ae_Metadata err) = None"
    by (auto simp: body_def split: option.splits)
  have fields: "field (envelope metadata) ''error''
        = Some (JString (encode_string (ae_Message err)))"
    "field (envelope metadata) ''code'' = Some (JString (encode_string (ae_Code err)))"
    for metadata
    by (simp_all add: field_def envelope_def)
  have "field j ''error'' = Some (JString (encode_string (ae_Message err))) \<and>
        field j ''code'' = Some (JString (encode_string (ae_Code err)))"
    if "body = Some j" for j
    using that fields by (auto simp: body_def split: if_splits option.splits)
  then have members: "\<forall>j. body = Some j \<longrightarrow>
      field j ''error'' = Some (JString (encode_string (ae_Message err))) \<and>
      field j ''code'' = Some (JString (encode_string (ae_Code err))) \<and>
      (field j ''error'' = Some (JString (ae_Message err))
         \<longleftrightarrow> valid_utf8 (ae_Message err)) \<and>
      (field j ''code'' = Some (JString (ae_Code err)) \<longleftrightarrow> valid_utf8 (ae_Code err))"
    by (simp add: encode_string_eq_iff)
  have "HandleAPIError c (Some err) now =
      (if (1 \<le> status \<and> status \<le> 99) \<or> 1000 \<le> status
       then Inl (InvalidWriteHeaderCode status)
       else if (100 \<le> status \<and> status \<le> 199) \<or> status = 204 \<or> status = 304
       then Inr \<lparr> resp_Status = status, resp_Body = None \<rparr>
       else Inr \<lparr> resp_Status = (if status \<le> 0 then 200 else status),
                  resp_Body = body \<rparr>)"
    unfolding result by (rule JSON_cases)
  from this written members show ?thesis
    by (intro conjI)
qed

theorem HandleAPIError_envelope_witness:
  "HandleAPIError (request_for ''/orders'' [])
      (Some \<lparr> ae_StatusCode = 409, ae_Code = ''conflict'', ae_Message = ''order exists'',
              ae_Details = '''', ae_Metadata = AMap [(''id'', AInt 7)] \<rparr>) 1700000000
     = Inr \<lparr> resp_Status = 409,
             resp_Body = Some (JObject [(''error'', JString ''order exists''),
                                  (''code'', JString ''conflict''),
                                  (''timestamp'', JTime 1700000000),
                                  (''path'', JString ''/orders''),
                                  (''metadata'', JObject [(''id'', JNumber 7)])]) \<rparr>"
proof -
  have request: "ctx_Request (request_for ''/orders'' [])
      = Some \<lparr> req_Path = ''/orders'', req_Query = [] \<rparr>"
    by (simp add: request_for_def)
  have ascii: "encode_string ''order exists'' = ''order exists''"
    "encode_string ''conflict'' = ''conflict''" "encode_string ''/orders'' = ''/orders''"
    "encode_string ''id'' = ''id''"
    by (simp_all add: encode_string_ascii byte_def)
  from HandleAPIError_envelope [OF request,
      of "\<lparr> ae_StatusCode = 409, ae_Code = ''conflict'', ae_Message = ''order exists'',
              ae_Details = '''', ae_Metadata = AMap [(''id'', AInt 7)] \<rparr>" 1700000000]
  show ?thesis
    by (simp add: Get_def request_for_def ascii members_def)
qed

subsection \<open>C2: ConnectionManager.Connect\<close>

lemma wrap64_le_MaxInt64: "wrap64 x \<le> MaxInt64"
proof -
  have "(x + 2 ^ 63) mod 2 ^ 64 < (2 ^ 64 :: int)"
    by simp
  then show ?thesis
    by (simp add: wrap64_def MaxInt64_def)
qed

text \<open>
  The claim as it is written fails at the largest \<open>int\<close>: with
  \<open>maxRetries = 9223372036854775807\<close> the test \<open>attempt <= maxRetries\<close> holds for every
  value of the counter, \<open>attempt++\<close> wraps around after the last of the \<open>maxRetries\<close>
  attempts, and against a database that refuses every connection the loop goes on
  instead of returning the error.
\<close>

lemma connectLoop_refuse_all_no_result:
  assumes "connectLoop dial maxRetries retryDelay attempt lastErr s = Some y"
  shows "dial = refuse_all \<longrightarrow> maxRetries = MaxInt64 \<longrightarrow> attempt \<le> MaxInt64 \<longrightarrow> False"
proof (rule connectLoop.raw_induct
    [where P = "\<lambda>f n d a e s y. f = refuse_all \<longrightarrow> n = MaxInt64 \<longrightarrow> a \<le> MaxInt64 \<longrightarrow> False",
      OF _ assms])
  fix loop f n d a e and s :: "nat ConnectState" and y
  assume IH: "\<And>n d a e s b y. loop n d a e s b = Some y \<Longrightarrow>
      n = refuse_all \<longrightarrow> d = MaxInt64 \<longrightarrow> e \<le> MaxInt64 \<longrightarrow> False"
    and step: "(if a \<le> n
      then case f (dials s) of
           (db, err) \<Rightarrow>
             let s1 = s\<lparr>cm_db := db, dials := dials s + 1, trace := trace s @ [Attempt a]\<rparr>
             in if err = None then Some ((db, None), s1)
                else Let (if a < n then s1\<lparr>trace := trace s1 @ [Sleep d]\<rparr> else s1)
                      (loop f n d (wrap64 (a + 1)) err)
      else Some ((None, Some (FailedAfter n e)), s)) = Some y"
  show "f = refuse_all \<longrightarrow> n = MaxInt64 \<longrightarrow> a \<le> MaxInt64 \<longrightarrow> False"
  proof (intro impI)
    assume "f = refuse_all" and "n = MaxInt64" and "a \<le> MaxInt64"
    with step
    have "\<exists>s2. loop refuse_all MaxInt64 d (wrap64 (a + 1)) (Some ''connection refused'') s2
        = Some y"
      by (simp add: refuse_all_def Let_def) blast
    then obtain s2 where "loop refuse_all MaxInt64 d (wrap64 (a + 1))
        (Some ''connection refused'') s2 = Some y"
      by blast
    from IH [OF this] show False
      by (simp add: wrap64_le_MaxInt64)
  qed
qed

theorem Connect_MaxInt64_counterexample:
  "Connect refuse_all 9223372036854775807 30000000000 = None"
proof (cases "Connect refuse_all 9223372036854775807 30000000000")
  case None
  then show ?thesis .
next
  case (Some y)
  then have "connectLoop refuse_all MaxInt64 30000000000 1 None
      \<lparr>cm_db = None, dials = 0, trace = []\<rparr> = Some y"
    by (simp add: Connect_def MaxInt64_def)
  from connectLoop_refuse_all_no_result [OF this] show ?thesis
    by (simp add: MaxInt64_def)
qed

lemma retry_trace_Suc: "retry_trace d n (Suc k) = Attempt n # (if k = 0 then [] else Sleep d # retry_trace d (n + 1) k)"
  by (cases k) simp_all

lemma attempts_retry_trace: "attempts (retry_trace d n k) = k"
  by (induction d n k rule: retry_trace.induct) simp_all

lemma sleeps_retry_trace: "sleeps (retry_trace d n k) = k - 1"
  by (induction d n k rule: retry_trace.induct) simp_all

lemma attempts_append: "attempts (xs @ ys) = attempts xs + attempts ys"
  by (induction xs rule: attempts.induct) simp_all

lemma sleeps_append: "sleeps (xs @ ys) = sleeps xs + sleeps ys"
  by (induction xs rule: sleeps.induct) simp_all

lemma connectLoop_returns:
  assumes "maxRetries < MaxInt64" and "1 \<le> attempt" and "attempt + int m = maxRetries + 1"
  shows "\<exists>r s' k. connectLoop dial maxRetries retryDelay attempt lastErr s = Some (r, s') \<and>
      run_outcome dial maxRetries retryDelay attempt lastErr s m r s' k"
  using assms(2,3)
proof (induction m arbitrary: attempt lastErr s)
  case 0
  then have "\<not> attempt \<le> maxRetries"
    by simp
  then have "connectLoop dial maxRetries retryDelay attempt lastErr s
      = Some ((None, Some (FailedAfter maxRetries lastErr)), s)"
    by (subst connectLoop.simps) simp
  moreover have "run_outcome dial maxRetries retryDelay attempt lastErr s 0
      (None, Some (FailedAfter maxRetries lastErr)) s 0"
    by (simp add: run_outcome_def)
  ultimately show ?case
    by blast
next
  case (Suc m)
  from Suc.prems have le: "attempt \<le> maxRetries"
    by simp
  obtain db err where d: "dial (dials s) = (db, err)"
    by (cases "dial (dials s)")
  let ?s1 = "s\<lparr>cm_db := db, dials := dials s + 1, trace := trace s @ [Attempt attempt]\<rparr>"
  show ?case
  proof (cases err)
    case None
    with le d have "connectLoop dial maxRetries retryDelay attempt lastErr s
        = Some ((db, None), ?s1)"
      by (subst connectLoop.simps) (simp add: Let_def)
    moreover have "run_outcome dial maxRetries retryDelay attempt lastErr s (Suc m)
        (db, None) ?s1 1"
      using d None by (simp add: run_outcome_def)
    ultimately show ?thesis
      by blast
  next
    case (Some e)
    define s2 where "s2 = (if attempt < maxRetries
        then ?s1\<lparr>trace := trace ?s1 @ [Sleep retryDelay]\<rparr> else ?s1)"
    from Suc.prems assms(1) have next_attempt: "wrap64 (attempt + 1) = attempt + 1"
      by (intro wrap64_id) (simp_all add: MaxInt64_def)
    from le d Some next_attempt
    have unfold: "connectLoop dial maxRetries retryDelay attempt lastErr s
        = connectLoop dial maxRetries retryDelay (attempt + 1) err s2"
      by (subst connectLoop.simps) (simp add: Let_def s2_def)
    from Suc.prems have "1 \<le> attempt + 1" "attempt + 1 + int m = maxRetries + 1"
      by simp_all
    from Suc.IH [OF this, of err s2]
    obtain r s' k where run: "connectLoop dial maxRetries retryDelay (attempt + 1) err s2
          = Some (r, s')"
      and post: "run_outcome dial maxRetries retryDelay (attempt + 1) err s2 m r s' k"
      by blast
    have d2: "dials s2 = Suc (dials s)"
      by (simp add: s2_def)
    have t2: "trace s2 = trace s @ Attempt attempt # (if 0 < m then [Sleep retryDelay] else [])"
      using Suc.prems by (auto simp: s2_def)
    from post have k: "k \<le> m" "0 < m \<longrightarrow> 0 < k"
      and dials: "dials s' = dials s2 + k"
      and trace: "trace s' = trace s2 @ retry_trace retryDelay (attempt + 1) k"
      and failed2: "\<forall>j. j + 1 < k \<longrightarrow> snd (dial (dials s2 + j)) \<noteq> None"
      and ok2: "snd r = None \<longrightarrow>
         0 < k \<and> snd (dial (dials s2 + k - 1)) = None \<and>
         fst r = fst (dial (dials s2 + k - 1))"
      and err2: "snd r \<noteq> None \<longrightarrow>
         k = m \<and> fst r = None \<and> (\<forall>j < m. snd (dial (dials s2 + j)) \<noteq> None) \<and>
         snd r = Some (FailedAfter maxRetries
                   (if m = 0 then err else snd (dial (dials s2 + m - 1))))"
      unfolding run_outcome_def by blast+
    from dials have dials: "dials s' = dials s + Suc k"
      by (simp add: d2)
    from failed2 have failed: "\<forall>j. j + 1 < k \<longrightarrow> snd (dial (dials s + Suc j)) \<noteq> None"
      by (simp add: d2)
    from ok2 have ok: "snd r = None \<longrightarrow>
         0 < k \<and> snd (dial (dials s + Suc k - 1)) = None \<and>
         fst r = fst (dial (dials s + Suc k - 1))"
      by (simp add: d2)
    from err2 have err: "snd r \<noteq> None \<longrightarrow>
         k = m \<and> fst r = None \<and> (\<forall>j < m. snd (dial (dials s + Suc j)) \<noteq> None) \<and>
         snd r = Some (FailedAfter maxRetries
                   (if m = 0 then err else snd (dial (dials s + Suc m - 1))))"
      by (cases "m = 0") (simp_all add: d2)
    have t: "trace s' = trace s @ retry_trace retryDelay attempt (Suc k)"
      unfolding trace t2 using k by (cases "0 < m") (simp_all add: retry_trace_Suc)
    have first: "snd (dial (dials s)) \<noteq> None"
      using d Some by simp
    have f: "\<forall>j. j + 1 < Suc k \<longrightarrow> snd (dial (dials s + j)) \<noteq> None"
    proof (intro allI impI)
      fix j assume j: "j + 1 < Suc k"
      show "snd (dial (dials s + j)) \<noteq> None"
      proof (cases j)
        case 0
        with first show ?thesis by simp
      next
        case (Suc i)
        with j failed show ?thesis by simp
      qed
    qed
    have e: "snd r \<noteq> None \<longrightarrow>
         Suc k = Suc m \<and> fst r = None \<and> (\<forall>j < Suc m. snd (dial (dials s + j)) \<noteq> None) \<and>
         snd r = Some (FailedAfter maxRetries (snd (dial (dials s + Suc m - 1))))"
    proof
      assume "snd r \<noteq> None"
      with err have km: "k = m" and none: "fst r = None"
        and all: "\<forall>j < m. snd (dial (dials s + Suc j)) \<noteq> None"
        and res: "snd r = Some (FailedAfter maxRetries
                   (if m = 0 then err else snd (dial (dials s + Suc m - 1))))"
        by simp_all
      have "\<forall>j < Suc m. snd (dial (dials s + j)) \<noteq> None"
      proof (intro allI impI)
        fix j assume "j < Suc m"
        then show "snd (dial (dials s + j)) \<noteq> None"
          using all first by (cases j) simp_all
      qed
      moreover have "(if m = 0 then err else snd (dial (dials s + Suc m - 1)))
          = snd (dial (dials s + Suc m - 1))"
        using d by simp
      ultimately show "Suc k = Suc m \<and> fst r = None \<and>
          (\<forall>j < Suc m. snd (dial (dials s + j)) \<noteq> None) \<and>
          snd r = Some (FailedAfter maxRetries (snd (dial (dials s + Suc m - 1))))"
        using km none res by simp
    qed
    have "run_outcome dial maxRetries retryDelay attempt lastErr s (Suc m) r s' (Suc k)"
      unfolding run_outcome_def using k(1) dials t f ok e by simp
    moreover from run unfold
    have "connectLoop dial maxRetries retryDelay attempt lastErr s = Some (r, s')"
      by simp
    ultimately show ?thesis
      by blast
  qed
qed

text \<open>
  C2, amended. For every \<open>maxRetries\<close> from 1 up to, but not including, the largest
  \<open>int\<close> (\<open>2 ^ 63 - 1\<close>), and every \<open>retryDelay\<close>, \<open>Connect\<close> returns and does what the
  claim says: it makes at least one and at most \<open>maxRetries\<close> attempts;
  its trace is these attempts with one sleep of \<open>retryDelay\<close> between each two that
  follow one another, and nothing else; every attempt but the last one failed; it
  returns the connection of the last attempt and no error exactly when that attempt
  succeeded; and it returns a nil connection and an error only when all \<open>maxRetries\<close>
  attempts were made and failed, after \<open>maxRetries - 1\<close> sleeps.
\<close>

theorem Connect_bounded_retry:
  assumes "1 \<le> maxRetries" and "maxRetries < MaxInt64"
  shows "\<exists>r s k. Connect dial maxRetries retryDelay = Some (r, s) \<and>
      k = attempts (trace s) \<and> 1 \<le> k \<and> k \<le> nat maxRetries \<and> dials s = k \<and>
      trace s = retry_trace retryDelay 1 k \<and>
      sleeps (trace s) = k - 1 \<and>
      (\<forall>j. j + 1 < k \<longrightarrow> snd (dial j) \<noteq> None) \<and>
      (snd r = None \<longleftrightarrow> snd (dial (k - 1)) = None) \<and>
      (snd r = None \<longrightarrow> fst r = fst (dial (k - 1))) \<and>
      (snd r \<noteq> None \<longrightarrow>
         fst r = None \<and> k = nat maxRetries \<and> sleeps (trace s) = nat maxRetries - 1 \<and>
         (\<forall>j < nat maxRetries. snd (dial j) \<noteq> None) \<and>
         snd r = Some (FailedAfter maxRetries (snd (dial (nat maxRetries - 1)))))"
proof -
  let ?m = "nat maxRetries"
  let ?s0 = "\<lparr>cm_db = None, dials = 0, trace = []\<rparr> :: 'a ConnectState"
  from assms(1) have "(1::int) \<le> 1" and "1 + int ?m = maxRetries + 1" and m: "0 < ?m"
    by simp_all
  from connectLoop_returns [OF assms(2) this(1,2), of dial retryDelay None ?s0]
  obtain r s k where run: "connectLoop dial maxRetries retryDelay 1 None ?s0 = Some (r, s)"
    and post: "run_outcome dial maxRetries retryDelay 1 None ?s0 ?m r s k"
    by blast
  from post m have k: "k \<le> ?m" "0 < k"
    and dials: "dials s = k"
    and trace: "trace s = retry_trace retryDelay 1 k"
    and failed: "\<forall>j. j + 1 < k \<longrightarrow> snd (dial j) \<noteq> None"
    and ok: "snd r = None \<longrightarrow> snd (dial (k - 1)) = None \<and> fst r = fst (dial (k - 1))"
    and err: "snd r \<noteq> None \<longrightarrow>
         k = ?m \<and> fst r = None \<and> (\<forall>j < ?m. snd (dial j) \<noteq> None) \<and>
         snd r = Some (FailedAfter maxRetries (snd (dial (?m - 1))))"
    by (simp_all add: run_outcome_def)
  have count: "attempts (trace s) = k" "sleeps (trace s) = k - 1"
    by (simp_all add: trace attempts_retry_trace sleeps_retry_trace)
  have last: "snd r = None \<longleftrightarrow> snd (dial (k - 1)) = None"
  proof
    assume "snd r = None"
    with ok show "snd (dial (k - 1)) = None" by simp
  next
    assume success: "snd (dial (k - 1)) = None"
    show "snd r = None"
    proof (rule ccontr)
      assume "snd r \<noteq> None"
      with err have "k = ?m" and "\<forall>j < ?m. snd (dial j) \<noteq> None"
        by simp_all
      with k(2) have "snd (dial (k - 1)) \<noteq> None"
        by simp
      with success show False by simp
    qed
  qed
  have e: "snd r \<noteq> None \<longrightarrow>
         fst r = None \<and> k = ?m \<and> sleeps (trace s) = ?m - 1 \<and>
         (\<forall>j < ?m. snd (dial j) \<noteq> None) \<and>
         snd r = Some (FailedAfter maxRetries (snd (dial (?m - 1))))"
    using err count by simp
  from run have result: "Connect dial maxRetries retryDelay = Some (r, s)"
    by (simp add: Connect_def)
  have bounds: "k = attempts (trace s)" "1 \<le> k"
    using count k by simp_all
  from ok have conn: "snd r = None \<longrightarrow> fst r = fst (dial (k - 1))"
    by simp
  from result bounds k(1) dials trace count(2) failed last conn e
  have "Connect dial maxRetries retryDelay = Some (r, s) \<and>
      k = attempts (trace s) \<and> 1 \<le> k \<and> k \<le> nat maxRetries \<and> dials s = k \<and>
      trace s = retry_trace retryDelay 1 k \<and>
      sleeps (trace s) = k - 1 \<and>
      (\<forall>j. j + 1 < k \<longrightarrow> snd (dial j) \<noteq> None) \<and>
      (snd r = None \<longleftrightarrow> snd (dial (k - 1)) = None) \<and>
      (snd r = None \<longrightarrow> fst r = fst (dial (k - 1))) \<and>
      (snd r \<noteq> None \<longrightarrow>
         fst r = None \<and> k = nat maxRetries \<and> sleeps (trace s) = nat maxRetries - 1 \<and>
         (\<forall>j < nat maxRetries. snd (dial j) \<noteq> None) \<and>
         snd r = Some (FailedAfter maxRetries (snd (dial (nat maxRetries - 1)))))"
    by (intro conjI)
  then show ?thesis
    by (intro exI)
qed

theorem Connect_bounded_retry_witness:
  "\<exists>r s. Connect refuse_all 3 30000000000 = Some (r, s) \<and>
     attempts (trace s) = 3 \<and> sleeps (trace s) = 2 \<and>
     trace s = [Attempt 1, Sleep 30000000000, Attempt 2, Sleep 30000000000, Attempt 3] \<and>
     fst r = None \<and> snd r = Some (FailedAfter 3 (Some ''connection refused''))"
proof -
  have bound: "(1::int) \<le> 3" "3 < MaxInt64"
    by (simp_all add: MaxInt64_def)
  from Connect_bounded_retry [OF bound, of refuse_all 30000000000]
  obtain r s k where result: "Connect refuse_all 3 30000000000 = Some (r, s)"
    and k: "k = attempts (trace s)"
    and trace: "trace s = retry_trace 30000000000 1 k"
    and last: "snd r = None \<longleftrightarrow> snd (refuse_all (k - 1)) = None"
    and err: "snd r \<noteq> None \<longrightarrow>
         fst r = None \<and> k = nat 3 \<and> sleeps (trace s) = nat 3 - 1 \<and>
         (\<forall>j < nat 3. snd (refuse_all j) \<noteq> None) \<and>
         snd r = Some (FailedAfter 3 (snd (refuse_all (nat 3 - 1))))"
    by (elim exE conjE) (rule that; assumption)
  from last have "snd r \<noteq> None"
    by (simp add: refuse_all_def)
  with err have "fst r = None" "k = 3" "sleeps (trace s) = 2"
    "snd r = Some (FailedAfter 3 (Some ''connection refused''))"
    by (simp_all add: refuse_all_def)
  moreover from trace \<open>k = 3\<close>
  have "trace s = [Attempt 1, Sleep 30000000000, Attempt 2, Sleep 30000000000, Attempt 3]"
    by (simp add: numeral_3_eq_3)
  ultimately show ?thesis
    using result k by (intro exI [of _ r] exI [of _ s]) simp
qed

text \<open>
  Two runs with the defaults of the source, three attempts thirty seconds apart: a
  database that accepts the third attempt, and one that refuses all three.
\<close>

lemma Connect_third_attempt_succeeds:
  "Connect (\<lambda>i. if i < 2 then (None, Some ''refused'') else (Some (7::nat), None))
      3 30000000000
   = Some ((Some 7, None),
           \<lparr> cm_db = Some 7, dials = 3,
             trace = [Attempt 1, Sleep 30000000000, Attempt 2, Sleep 30000000000,
                      Attempt 3] \<rparr>)"
  unfolding Connect_def
  apply (subst connectLoop.simps, simp add: Let_def wrap64_def)
  apply (subst connectLoop.simps, simp add: Let_def wrap64_def)
  apply (subst connectLoop.simps, simp add: Let_def wrap64_def)
  done

lemma Connect_all_three_refused:
  "Connect refuse_all 3 30000000000
   = Some ((None, Some (FailedAfter 3 (Some ''connection refused''))),
           \<lparr> cm_db = None, dials = 3,
             trace = [Attempt 1, Sleep 30000000000, Attempt 2, Sleep 30000000000,
                      Attempt 3] \<rparr>)"
  unfolding Connect_def
  apply (subst connectLoop.simps, simp add: Let_def wrap64_def refuse_all_def)
  apply (subst connectLoop.simps, simp add: Let_def wrap64_def refuse_all_def)
  apply (subst connectLoop.simps, simp add: Let_def wrap64_def refuse_all_def)
  apply (subst connectLoop.simps, simp add: Let_def wrap64_def refuse_all_def)
  done

subsection \<open>C1: the pagination metadata and float64 rounding\<close>

text \<open>
  The model on numbers whose \<open>float64\<close> is known: \<open>10 / 3\<close> is rounded up to
  \<open>0x400AAAAAAAAAAAAB\<close>, and of the two odd integers next above \<open>2 ^ 53\<close> the first is
  rounded down and the second up, each to the even significand.
\<close>

lemma f64_div_10_3: "f64_div 10 3 = 7505999378950827 / 2251799813685248"
  by (simp add: f64_div_def round_f64_def f64_exponent_def round_half_even_def
      compute_bitlen)

lemma float64_ties_to_even:
  "float64 9007199254740993 = 9007199254740992"
  "float64 9007199254740995 = 9007199254740996"
  by (simp_all add: float64_def round_f64_def f64_exponent_def round_half_even_def
      compute_bitlen)

lemma f64_exponent_bounds:
  assumes "0 < q"
  shows "2 powi f64_exponent q \<le> q" and "q < 2 powi (f64_exponent q + 1)"
proof -
  have "2 powi f64_exponent q \<le> q \<and> q < 2 powi (f64_exponent q + 1)"
  proof (cases "1 \<le> q")
    case True
    then have pos: "0 < \<lfloor>q\<rfloor>"
      by linarith
    let ?b = "bitlen \<lfloor>q\<rfloor>"
    from bitlen_bounds [OF pos]
    have lo: "2 ^ nat (?b - 1) \<le> \<lfloor>q\<rfloor>" and hi: "\<lfloor>q\<rfloor> < 2 ^ nat ?b"
      by simp_all
    have b: "1 \<le> ?b"
      using pos bitlen_eq_zero_iff [of "\<lfloor>q\<rfloor>"] bitlen_nonneg [of "\<lfloor>q\<rfloor>"] by linarith
    have e: "f64_exponent q = ?b - 1"
      using True by (simp add: f64_exponent_def)
    from lo have "(2::real) ^ nat (?b - 1) \<le> of_int \<lfloor>q\<rfloor>"
      by (metis of_int_le_iff of_int_numeral of_int_power)
    also have "\<dots> \<le> q"
      by simp
    finally have 1: "2 powi f64_exponent q \<le> q"
      using b by (simp add: e power_int_def)
    from hi have "\<lfloor>q\<rfloor> + 1 \<le> 2 ^ nat ?b"
      by simp
    then have "(of_int (\<lfloor>q\<rfloor> + 1) :: real) \<le> 2 ^ nat ?b"
      by (metis of_int_le_iff of_int_numeral of_int_power)
    moreover have "q < of_int (\<lfloor>q\<rfloor> + 1)"
      by linarith
    ultimately have "q < 2 ^ nat ?b"
      by linarith
    then have 2: "q < 2 powi (f64_exponent q + 1)"
      using b by (simp add: e power_int_def)
    from 1 2 show ?thesis ..
  next
    case False
    with assms have u: "1 < 1 / q"
      by simp
    let ?c = "\<lceil>1 / q\<rceil>"
    from u have pos: "0 < ?c - 1"
      by linarith
    let ?b = "bitlen (?c - 1)"
    from bitlen_bounds [OF pos]
    have lo: "2 ^ nat (?b - 1) \<le> ?c - 1" and hi: "?c - 1 < 2 ^ nat ?b"
      by simp_all
    have b: "1 \<le> ?b"
      using pos bitlen_eq_zero_iff [of "?c - 1"] bitlen_nonneg [of "?c - 1"] by linarith
    have e: "f64_exponent q = - ?b"
      using False by (simp add: f64_exponent_def)
    from hi have "?c \<le> 2 ^ nat ?b"
      by simp
    then have "(of_int ?c :: real) \<le> 2 ^ nat ?b"
      by (metis of_int_le_iff of_int_numeral of_int_power)
    moreover have "1 / q \<le> of_int ?c"
      by simp
    ultimately have "1 / q \<le> 2 ^ nat ?b"
      by linarith
    with assms have "1 / 2 ^ nat ?b \<le> q"
      by (simp add: field_simps)
    then have 1: "2 powi f64_exponent q \<le> q"
      using b by (simp add: e power_int_def field_simps)
    from lo have "(2::real) ^ nat (?b - 1) \<le> of_int (?c - 1)"
      by (metis of_int_le_iff of_int_numeral of_int_power)
    moreover have "of_int (?c - 1) < 1 / q"
      by linarith
    ultimately have "2 ^ nat (?b - 1) < 1 / q"
      by linarith
    with assms have q: "q < 1 / 2 ^ nat (?b - 1)"
      by (simp add: field_simps)
    have "2 powi (f64_exponent q + 1) = (1::real) / 2 ^ nat (?b - 1)"
    proof (cases "?b = 1")
      case True
      then show ?thesis by (simp add: e)
    next
      case False
      with b have "- ?b + 1 < 0" "nat (?b - 1) = nat (- (- ?b + 1))"
        by simp_all
      then show ?thesis
        by (simp add: e power_int_def field_simps del: minus_add_distrib)
    qed
    with q have 2: "q < 2 powi (f64_exponent q + 1)"
      by simp
    from 1 2 show ?thesis ..
  qed
  then show "2 powi f64_exponent q \<le> q" and "q < 2 powi (f64_exponent q + 1)"
    by simp_all
qed

lemma round_half_even_of_int [simp]: "round_half_even (of_int k) = k"
  by (simp add: round_half_even_def)

lemma round_half_even_numeral [simp]: "round_half_even (numeral k) = numeral k"
  using round_half_even_of_int [of "numeral k"] by simp

lemma round_half_even_ge: "of_int z \<le> m \<Longrightarrow> z \<le> round_half_even m"
proof -
  assume "of_int z \<le> m"
  then have "z \<le> \<lfloor>m\<rfloor>"
    by (simp add: le_floor_iff)
  then show ?thesis
    by (simp add: round_half_even_def Let_def)
qed

lemma round_half_even_le: "m \<le> of_int z \<Longrightarrow> round_half_even m \<le> z"
proof -
  assume le: "m \<le> of_int z"
  show ?thesis
  proof (cases "m = of_int \<lfloor>m\<rfloor>")
    case True
    then have "round_half_even m = \<lfloor>m\<rfloor>"
      by (metis round_half_even_of_int)
    with le show ?thesis
      by (simp add: floor_le_iff)
  next
    case False
    then have "of_int \<lfloor>m\<rfloor> < m"
      using of_int_floor_le [of m] by linarith
    with le have "\<lfloor>m\<rfloor> < z"
      by linarith
    then show ?thesis
      by (simp add: round_half_even_def Let_def)
  qed
qed

lemma round_half_even_gt: "of_int z + 1 / 2 < m \<Longrightarrow> z < round_half_even m"
proof -
  assume gt: "of_int z + 1 / 2 < m"
  then have "z \<le> \<lfloor>m\<rfloor>"
    by (simp add: le_floor_iff)
  then consider "z < \<lfloor>m\<rfloor>" | "z = \<lfloor>m\<rfloor>"
    by linarith
  then show ?thesis
  proof cases
    case 1
    then show ?thesis
      by (simp add: round_half_even_def Let_def)
  next
    case 2
    with gt have "m - of_int \<lfloor>m\<rfloor> > 1 / 2"
      by simp
    with 2 show ?thesis
      by (simp add: round_half_even_def Let_def)
  qed
qed

text \<open>
  \<open>round_f64\<close> on a positive number, against the multiples of the unit in the last
  place of its binade: rounding does not cross a multiple, and it leaves the multiple
  below only when the number is more than half a unit above it.
\<close>

lemma round_f64_pos_unfold:
  assumes "0 < q"
  shows "round_f64 q
    = of_int (round_half_even (q / 2 powi (f64_exponent q - 52))) * 2 powi (f64_exponent q - 52)"
  using assms by (simp add: round_f64_def Let_def)

lemma round_f64_ge_grid:
  assumes "0 < q" and "of_int z * 2 powi (f64_exponent q - 52) \<le> q"
  shows "of_int z * 2 powi (f64_exponent q - 52) \<le> round_f64 q"
proof -
  let ?ulp = "(2::real) powi (f64_exponent q - 52)"
  have ulp: "0 < ?ulp"
    by simp
  from assms(2) ulp have "of_int z \<le> q / ?ulp"
    by (simp add: field_simps)
  then have "z \<le> round_half_even (q / ?ulp)"
    by (rule round_half_even_ge)
  then have "(of_int z :: real) \<le> of_int (round_half_even (q / ?ulp))"
    by simp
  with ulp have "of_int z * ?ulp \<le> of_int (round_half_even (q / ?ulp)) * ?ulp"
    by (simp only: mult_le_cancel_right_pos)
  then show ?thesis
    by (simp only: round_f64_pos_unfold [OF assms(1)])
qed

lemma round_f64_le_grid:
  assumes "0 < q" and "q \<le> of_int z * 2 powi (f64_exponent q - 52)"
  shows "round_f64 q \<le> of_int z * 2 powi (f64_exponent q - 52)"
proof -
  let ?ulp = "(2::real) powi (f64_exponent q - 52)"
  have ulp: "0 < ?ulp"
    by simp
  from assms(2) ulp have "q / ?ulp \<le> of_int z"
    by (simp add: field_simps)
  then have "round_half_even (q / ?ulp) \<le> z"
    by (rule round_half_even_le)
  then have "(of_int (round_half_even (q / ?ulp)) :: real) \<le> of_int z"
    by simp
  with ulp have "of_int (round_half_even (q / ?ulp)) * ?ulp \<le> of_int z * ?ulp"
    by (simp only: mult_le_cancel_right_pos)
  then show ?thesis
    by (simp only: round_f64_pos_unfold [OF assms(1)])
qed

lemma round_f64_gt_grid:
  assumes "0 < q"
    and "of_int z * 2 powi (f64_exponent q - 52) + 2 powi (f64_exponent q - 52) / 2 < q"
  shows "of_int z * 2 powi (f64_exponent q - 52) < round_f64 q"
proof -
  let ?ulp = "(2::real) powi (f64_exponent q - 52)"
  have ulp: "0 < ?ulp"
    by simp
  from assms(2) ulp have "of_int z + 1 / 2 < q / ?ulp"
    by (simp add: field_simps)
  then have "z < round_half_even (q / ?ulp)"
    by (rule round_half_even_gt)
  then have "(of_int z :: real) < of_int (round_half_even (q / ?ulp))"
    by simp
  with ulp have "of_int z * ?ulp < of_int (round_half_even (q / ?ulp)) * ?ulp"
    by (simp only: mult_less_cancel_right_pos)
  then show ?thesis
    by (simp only: round_f64_pos_unfold [OF assms(1)])
qed

lemma round_f64_ge_binade:
  assumes "0 < q"
  shows "2 powi f64_exponent q \<le> round_f64 q"
proof -
  have split: "(2::real) powi f64_exponent q
      = of_int (2 ^ 52) * 2 powi (f64_exponent q - 52)"
    by (simp add: power_int_diff)
  from f64_exponent_bounds(1) [OF assms]
  have "of_int (2 ^ 52) * 2 powi (f64_exponent q - 52) \<le> q"
    by (simp only: split [symmetric])
  from round_f64_ge_grid [OF assms this] show ?thesis
    by (simp only: split [symmetric])
qed

lemma round_f64_pos: "0 < q \<Longrightarrow> 0 < round_f64 q"
  using round_f64_ge_binade [of q] zero_less_power_int [of "2::real" "f64_exponent q"]
  by linarith

text \<open>
  An integer \<open>n\<close> is a multiple of the unit in the last place of a binade with an
  exponent of at most 52.
\<close>

lemma int_on_grid:
  assumes "e \<le> 52"
  shows "of_int n = of_int (n * 2 ^ nat (52 - e)) * (2::real) powi (e - 52)"
proof -
  from assms have "(2::real) powi (e - 52) = 1 / 2 ^ nat (52 - e)"
    by (cases "e = 52") (simp_all add: power_int_def field_simps)
  then show ?thesis
    by simp
qed

lemma f64_exponent_le_52:
  assumes "0 < q" and "q < 2 ^ 53"
  shows "f64_exponent q \<le> 52"
proof (rule ccontr)
  assume "\<not> f64_exponent q \<le> 52"
  then have "53 \<le> f64_exponent q"
    by simp
  then have "(2::real) powi 53 \<le> 2 powi f64_exponent q"
    by (intro power_int_increasing) simp_all
  with f64_exponent_bounds(1) [OF assms(1)] assms(2) show False
    by simp
qed

text \<open>Integers of at most 53 bits are \<open>float64\<close>s: the conversion is exact.\<close>

lemma float64_exact:
  assumes "0 \<le> n" and "n \<le> 2 ^ 53"
  shows "float64 n = of_int n"
proof -
  consider "n = 0" | "n = 2 ^ 53" | "0 < n" "n < 2 ^ 53"
    using assms by linarith
  then show ?thesis
  proof cases
    case 1
    then show ?thesis
      by (simp add: float64_def round_f64_def)
  next
    case 2
    then show ?thesis
      by (simp add: float64_def round_f64_def f64_exponent_def compute_bitlen)
  next
    case 3
    let ?q = "of_int n :: real"
    from 3 have q: "0 < ?q" "?q < 2 ^ 53"
      by simp_all
    from f64_exponent_le_52 [OF q] have e: "f64_exponent ?q \<le> 52" .
    let ?g = "of_int (n * 2 ^ nat (52 - f64_exponent ?q)) * (2::real) powi (f64_exponent ?q - 52)"
    have grid: "?q = ?g"
      by (rule int_on_grid [OF e])
    have "round_f64 ?q \<le> ?g"
      by (rule round_f64_le_grid [OF q(1) eq_refl [OF grid]])
    also have "?g = ?q"
      by (rule grid [symmetric])
    finally have "round_f64 ?q \<le> ?q" .
    moreover have "?g \<le> round_f64 ?q"
      by (rule round_f64_ge_grid [OF q(1) eq_refl [OF grid [symmetric]]])
    then have "?q \<le> round_f64 ?q"
      by (simp only: grid [symmetric])
    ultimately show ?thesis
      by (simp add: float64_def)
  qed
qed

text \<open>
  The quotient of two integers of at most 53 bits: rounding it to a \<open>float64\<close> does not
  change its ceiling. With \<open>n\<close> the ceiling of \<open>q = t / p\<close>, both \<open>n - 1\<close> and \<open>n\<close> are
  multiples of the unit in the last place, \<open>q\<close> lies at least \<open>1 / p\<close> above \<open>n - 1\<close>,
  and half a unit is less than \<open>1 / p\<close> because \<open>t\<close> has no more than 53 bits.
\<close>

lemma ceiling_round_f64_quotient:
  assumes "0 \<le> t" and "t \<le> 2 ^ 53" and "1 \<le> p" and "p \<le> 2 ^ 53"
  shows "\<lceil>round_f64 (of_int t / of_int p)\<rceil> = \<lceil>of_int t / of_int p :: real\<rceil>"
proof -
  let ?q = "of_int t / of_int p :: real"
  let ?n = "\<lceil>?q\<rceil>"
  consider (zero) "t = 0" | (one) "p = 1" | (proper) "0 < t" "2 \<le> p"
    using assms by linarith
  then show ?thesis
  proof cases
    case zero
    then show ?thesis
      by (simp add: round_f64_def)
  next
    case one
    with float64_exact [OF assms(1,2)] show ?thesis
      by (simp add: float64_def)
  next
    case proper
    from proper assms have q: "0 < ?q"
      by simp
    have tp: "?q * of_int p = of_int t"
      using assms(3) by simp
    from proper assms(2) have "of_int t * 2 \<le> (2 ^ 53 :: real) * of_int p"
    proof -
      from proper assms(2) have "t * 2 \<le> 2 ^ 53 * p"
        by (intro mult_mono) simp_all
      then have "(of_int (t * 2) :: real) \<le> of_int (2 ^ 53 * p)"
        by (simp only: of_int_le_iff)
      then show ?thesis
        by simp
    qed
    with proper have "?q \<le> 2 ^ 53 / 2"
      by (simp add: field_simps)
    then have small: "?q < 2 ^ 53"
      by simp
    let ?e = "f64_exponent ?q"
    let ?ulp = "(2::real) powi (?e - 52)"
    from f64_exponent_le_52 [OF q small] have e52: "?e \<le> 52" .
    have upper: "round_f64 ?q \<le> of_int ?n"
    proof -
      have "?q \<le> of_int ?n"
        by simp
      then have "?q \<le> of_int (?n * 2 ^ nat (52 - ?e)) * ?ulp"
        by (simp only: int_on_grid [OF e52, symmetric])
      from round_f64_le_grid [OF q this] show ?thesis
        by (simp only: int_on_grid [OF e52, symmetric])
    qed
    have lower: "of_int ?n - 1 < round_f64 ?q"
    proof (cases "?n \<le> 1")
      case True
      then have "(of_int ?n :: real) \<le> of_int 1"
        by (simp only: of_int_le_iff)
      then have "(of_int ?n :: real) \<le> 1"
        by (simp only: of_int_1)
      with round_f64_pos [OF q] show ?thesis
        by linarith
    next
      case False
      then have n2: "2 \<le> ?n"
        by simp
      have below: "of_int (?n - 1) < ?q"
        by linarith
      with n2 have q1: "1 < ?q"
        by simp
      have e0: "0 \<le> ?e"
      proof (rule ccontr)
        assume "\<not> 0 \<le> ?e"
        then have "?e + 1 \<le> 0"
          by simp
        then have "(2::real) powi (?e + 1) \<le> 2 powi 0"
          by (intro power_int_increasing) simp_all
        with f64_exponent_bounds(2) [OF q] q1 show False
          by simp
      qed
      define E :: real where "E = 2 ^ nat ?e"
      have E: "1 \<le> E" "E \<le> 2 ^ 52"
      proof -
        show "1 \<le> E"
          by (simp add: E_def)
        from e0 e52 have "nat ?e \<le> 52"
          by simp
        then show "E \<le> 2 ^ 52"
          unfolding E_def by (intro power_increasing) simp_all
      qed
      have powE: "2 powi ?e = E"
        using e0 by (simp add: E_def power_int_def)
      have ulp: "?ulp = E / 2 ^ 52"
        using powE by (simp add: power_int_diff)
      have step: "of_int (?n - 1) + 1 / of_int p \<le> ?q"
      proof -
        from below assms(3) have "of_int (?n - 1) * of_int p < (of_int t :: real)"
          by (simp add: field_simps)
        then have "(of_int ((?n - 1) * p) :: real) < of_int t"
          by simp
        then have "(?n - 1) * p < t"
          by (simp only: of_int_less_iff)
        then have "(?n - 1) * p + 1 \<le> t"
          by simp
        then have "(of_int ((?n - 1) * p + 1) :: real) \<le> of_int t"
          by (simp only: of_int_le_iff)
        then have "of_int (?n - 1) * of_int p + 1 \<le> (of_int t :: real)"
          by simp
        moreover from assms(3) have p: "0 < (of_int p :: real)"
          by simp
        ultimately have "(of_int (?n - 1) * of_int p + 1) / of_int p \<le> ?q"
          by (intro divide_right_mono) simp_all
        moreover from p have "(of_int (?n - 1) * of_int p + 1) / of_int p
            = of_int (?n - 1) + 1 / (of_int p :: real)"
          by (simp add: add_divide_distrib)
        ultimately show ?thesis
          by (simp only:)
      qed
      have half: "?ulp / 2 < ?q - of_int (?n - 1)"
      proof (cases "?q = of_int ?n")
        case True
        from E(2) have "?ulp / 2 \<le> 1 / 2"
          by (simp add: ulp)
        with True show ?thesis
          by simp
      next
        case False
        have "E \<noteq> ?q"
        proof
          assume "E = ?q"
          then have "?q = of_int (2 ^ nat ?e)"
            by (simp add: E_def)
          then have "?q = of_int ?n"
            by (metis ceiling_of_int)
          with False show False ..
        qed
        with f64_exponent_bounds(1) [OF q] have "E < ?q"
          by (simp add: powE)
        with assms(3) have "E * of_int p < of_int t"
          by (simp add: field_simps)
        also from assms(2) have "(of_int t :: real) \<le> 2 ^ 53"
          by (metis of_int_le_iff of_int_numeral of_int_power)
        finally have "E * of_int p < 2 ^ 53" .
        with assms(3) have "E / 2 ^ 53 < 1 / of_int p"
          by (simp add: field_simps)
        moreover have "?ulp / 2 = E / 2 ^ 53"
          by (simp add: ulp)
        ultimately show ?thesis
          using step by linarith
      qed
      have "of_int ((?n - 1) * 2 ^ nat (52 - ?e)) * ?ulp + ?ulp / 2 < ?q"
        using half by (simp only: int_on_grid [OF e52, symmetric])
      from round_f64_gt_grid [OF q this] have "of_int (?n - 1) < round_f64 ?q"
        by (simp only: int_on_grid [OF e52, symmetric])
      then show ?thesis
        by simp
    qed
    from lower upper show ?thesis
      by (rule ceiling_unique)
  qed
qed

text \<open>
  A page size above \<open>2 ^ 53\<close> may be rounded, but stays at or above \<open>2 ^ 53\<close>, and a
  quotient between 0 and 1 is rounded to a number between 0 and 1.
\<close>

lemma float64_large:
  assumes "2 ^ 53 \<le> p"
  shows "2 ^ 53 \<le> float64 p"
proof -
  let ?q = "of_int p :: real"
  from assms have "(of_int (2 ^ 53) :: real) \<le> ?q"
    by (simp only: of_int_le_iff)
  then have big: "2 ^ 53 \<le> ?q"
    by simp
  moreover have "(0::real) < 2 ^ 53"
    by simp
  ultimately have q: "0 < ?q"
    by linarith
  have "53 \<le> f64_exponent ?q"
  proof (rule ccontr)
    assume "\<not> 53 \<le> f64_exponent ?q"
    then have "f64_exponent ?q + 1 \<le> 53"
      by simp
    then have "(2::real) powi (f64_exponent ?q + 1) \<le> 2 powi 53"
      by (intro power_int_increasing) simp_all
    with f64_exponent_bounds(2) [OF q] big show False
      by simp
  qed
  then have "(2::real) powi 53 \<le> 2 powi f64_exponent ?q"
    by (intro power_int_increasing) simp_all
  with round_f64_ge_binade [OF q] show ?thesis
    by (simp add: float64_def)
qed

lemma round_f64_unit_interval:
  assumes "0 < q" and "q \<le> 1"
  shows "0 < round_f64 q" and "round_f64 q \<le> 1"
proof -
  show "0 < round_f64 q"
    by (rule round_f64_pos [OF assms(1)])
  have "f64_exponent q \<le> 0"
  proof (rule ccontr)
    assume "\<not> f64_exponent q \<le> 0"
    then have "1 \<le> f64_exponent q"
      by simp
    then have "(2::real) powi 1 \<le> 2 powi f64_exponent q"
      by (intro power_int_increasing) simp_all
    with f64_exponent_bounds(1) [OF assms(1)] assms(2) show False
      by simp
  qed
  then have e: "f64_exponent q \<le> 52"
    by simp
  let ?g = "of_int (1 * 2 ^ nat (52 - f64_exponent q)) * (2::real) powi (f64_exponent q - 52)"
  have grid: "of_int 1 = ?g"
    by (rule int_on_grid [OF e])
  from assms(2) have "q \<le> of_int 1"
    by simp
  then have "q \<le> ?g"
    by (simp only: grid [symmetric])
  from round_f64_le_grid [OF assms(1) this] have "round_f64 q \<le> of_int 1"
    by (simp only: grid [symmetric])
  then show "round_f64 q \<le> 1"
    by simp
qed

lemma int_of_f64_Ceil:
  assumes "MinInt64 \<le> \<lceil>x\<rceil>" and "\<lceil>x\<rceil> \<le> MaxInt64"
  shows "int_of_f64 (Ceil x) = Some \<lceil>x\<rceil>"
  using assms by (simp add: int_of_f64_def Ceil_def)

text \<open>
  For a total of at most \<open>2 ^ 53 = 9007199254740992\<close> and every page size from 1 on,
  the \<open>float64\<close> expression computes the ceiling of the exact quotient.
\<close>

lemma CalculateTotalPages_exact:
  assumes "0 \<le> totalItems" and "totalItems \<le> 2 ^ 53" and "1 \<le> pageSize"
  shows "CalculateTotalPages totalItems pageSize
    = Some \<lceil>of_int totalItems / of_int pageSize :: real\<rceil>"
proof -
  let ?exact = "\<lceil>of_int totalItems / of_int pageSize :: real\<rceil>"
  have t: "float64 totalItems = of_int totalItems"
    by (rule float64_exact [OF assms(1,2)])
  from assms(1,3) have T0: "0 \<le> (of_int totalItems :: real)"
    and P1: "1 \<le> (of_int pageSize :: real)"
    by simp_all
  then have "(of_int totalItems / of_int pageSize :: real) \<le> of_int totalItems / 1"
    by (intro divide_left_mono) simp_all
  with T0 P1 have quotient: "0 \<le> (of_int totalItems / of_int pageSize :: real)"
    "(of_int totalItems / of_int pageSize :: real) \<le> of_int totalItems"
    by simp_all
  then have "0 \<le> ?exact" and "?exact \<le> totalItems"
    by (simp_all add: ceiling_le_iff)
  moreover from assms(2) have "totalItems \<le> 9007199254740992"
    by simp
  ultimately have range: "MinInt64 \<le> ?exact" "?exact \<le> MaxInt64"
    unfolding MinInt64_def MaxInt64_def by linarith+
  have ceil: "\<lceil>f64_div (float64 totalItems) (float64 pageSize)\<rceil> = ?exact"
    and nonzero: "float64 pageSize \<noteq> 0"
  proof -
    show "\<lceil>f64_div (float64 totalItems) (float64 pageSize)\<rceil> = ?exact"
    proof (cases "pageSize \<le> 2 ^ 53")
      case True
      with assms(3) have "float64 pageSize = of_int pageSize"
        by (intro float64_exact) simp_all
      with t ceiling_round_f64_quotient [OF assms(1,2,3) True] show ?thesis
        by (simp add: f64_div_def)
    next
      case False
      then have large: "2 ^ 53 < pageSize"
        by simp
      then have p': "2 ^ 53 \<le> float64 pageSize"
        by (intro float64_large) simp
      show ?thesis
      proof (cases "totalItems = 0")
        case True
        with t have "float64 totalItems = 0"
          by simp
        then have "f64_div (float64 totalItems) (float64 pageSize) = 0"
          by (simp add: f64_div_def round_f64_def)
        moreover from True have "?exact = 0"
          by simp
        ultimately show ?thesis
          by simp
      next
        case False
        with assms(1) have pos: "0 < totalItems"
          by simp
        let ?q' = "of_int totalItems / float64 pageSize"
        from assms(2) have "(of_int totalItems :: real) \<le> of_int (2 ^ 53)"
          by (simp only: of_int_le_iff)
        then have "(of_int totalItems :: real) \<le> 2 ^ 53"
          by simp
        with p' pos have q': "0 < ?q'" "?q' \<le> 1"
          by (simp_all add: field_simps)
        from round_f64_unit_interval [OF q']
        have "\<lceil>round_f64 ?q'\<rceil> = 1"
          by (intro ceiling_unique) simp_all
        moreover have "?exact = 1"
        proof (rule ceiling_unique)
          from pos assms(3) show "of_int 1 - 1 < (of_int totalItems / of_int pageSize :: real)"
            by simp
          from assms(2) large have "totalItems \<le> pageSize"
            by linarith
          then have "(of_int totalItems :: real) \<le> of_int pageSize"
            by (simp only: of_int_le_iff)
          with assms(3) show "(of_int totalItems / of_int pageSize :: real) \<le> of_int 1"
            by (simp add: field_simps)
        qed
        ultimately show ?thesis
          by (simp add: t f64_div_def)
      qed
    qed
    show "float64 pageSize \<noteq> 0"
    proof (cases "pageSize \<le> 2 ^ 53")
      case True
      with assms(3) have "float64 pageSize = of_int pageSize"
        by (intro float64_exact) simp_all
      with assms(3) show ?thesis
        by simp
    next
      case False
      then have "2 ^ 53 \<le> float64 pageSize"
        by (intro float64_large) simp
      moreover have "(0::real) < 2 ^ 53"
        by simp
      ultimately show ?thesis
        by linarith
    qed
  qed
  from range have "int_of_f64 (Ceil (f64_div (float64 totalItems) (float64 pageSize)))
      = Some ?exact"
    using int_of_f64_Ceil [of "f64_div (float64 totalItems) (float64 pageSize)"]
    by (simp only: ceil)
  with nonzero show ?thesis
    by (simp add: CalculateTotalPages_def)
qed

text \<open>
  The claim as it is written fails above \<open>2 ^ 53\<close>: \<open>float64(9007199254740993)\<close> is
  \<open>9007199254740992\<close>, so for 9007199254740993 items on pages of one item the metadata
  reports 9007199254740992 pages, one fewer than the ceiling of the quotient, and
  on page 9007199254740992 it reports that no page follows.
\<close>

theorem CreatePaginationMeta_float64_counterexample:
  "CreatePaginationMeta 9007199254740993 9007199254740992 1
     = Some \<lparr> pm_Total = 9007199254740993, pm_Page = 9007199254740992, pm_PageSize = 1,
              pm_TotalPages = 9007199254740992, pm_HasNext = False, pm_HasPrev = True \<rparr> \<and>
   \<lceil>(9007199254740993 :: real) / 1\<rceil> = 9007199254740993"
proof -
  have one: "float64 1 = 1"
    using float64_exact [of 1] by simp
  have quotient: "f64_div 9007199254740992 1 = 9007199254740992"
    using float64_exact [of 9007199254740992] by (simp add: f64_div_def float64_def)
  have "CalculateTotalPages 9007199254740993 1 = Some 9007199254740992"
    by (simp add: CalculateTotalPages_def float64_ties_to_even(1) one quotient Ceil_def
        int_of_f64_def MinInt64_def MaxInt64_def)
  then show ?thesis
    by (simp add: CreatePaginationMeta_def)
qed

text \<open>
  C1, amended. For every total from 0 to \<open>2 ^ 53 = 9007199254740992\<close>, every page size
  of at least 1 and every page, the metadata computed by \<open>CalculateTotalPages\<close>,
  \<open>CreatePaginationMeta\<close> and \<open>Paginated\<close> has \<open>TotalPages\<close> equal to the ceiling of the
  total divided by the page size, \<open>HasNext\<close> true exactly when the page is below
  \<open>TotalPages\<close>, and \<open>HasPrev\<close> true exactly when the page is above 1.
\<close>

theorem pagination_metadata:
  assumes "0 \<le> totalItems" and "totalItems \<le> 2 ^ 53" and "1 \<le> pageSize"
  defines "pages \<equiv> \<lceil>of_int totalItems / of_int pageSize :: real\<rceil>"
  shows "CalculateTotalPages totalItems pageSize = Some pages \<and>
    CreatePaginationMeta totalItems page pageSize
      = Some \<lparr> pm_Total = totalItems, pm_Page = page, pm_PageSize = pageSize,
               pm_TotalPages = pages, pm_HasNext = (page < pages),
               pm_HasPrev = (1 < page) \<rparr> \<and>
    Paginated c data totalItems page pageSize now
      = Some (JSON 200
          (marshal_PaginationResponse
             \<lparr> pr_Data = data, pr_Total = totalItems, pr_Page = page,
               pr_PageSize = pageSize, pr_TotalPages = pages, pr_HasNext = (page < pages),
               pr_HasPrev = (1 < page), pr_Timestamp = now \<rparr>))"
proof -
  have "CalculateTotalPages totalItems pageSize = Some pages"
    unfolding pages_def by (rule CalculateTotalPages_exact [OF assms(1-3)])
  then show ?thesis
    by (simp add: CreatePaginationMeta_def Paginated_def StatusOK_def)
qed

theorem pagination_metadata_witness:
  "CreatePaginationMeta 10 1 3
     = Some \<lparr> pm_Total = 10, pm_Page = 1, pm_PageSize = 3, pm_TotalPages = 4,
              pm_HasNext = True, pm_HasPrev = False \<rparr> \<and>
   Paginated (request_for ''/items'' []) (AList []) 10 1 3 0
     = Some (Inr \<lparr> resp_Status = 200,
                   resp_Body = Some (JObject [(''data'', JArray []),
                                              (''total'', JNumber 10),
                                              (''page'', JNumber 1),
                                              (''page_size'', JNumber 3),
                                              (''total_pages'', JNumber 4),
                                              (''has_next'', JBool True),
                                              (''has_prev'', JBool False),
                                              (''timestamp'', JTime 0)]) \<rparr>)"
proof -
  have range: "(0::int) \<le> 10" "(10::int) \<le> 2 ^ 53" "(1::int) \<le> 3"
    by simp_all
  have pages: "\<lceil>of_int 10 / of_int 3 :: real\<rceil> = 4"
    by simp
  from pagination_metadata [OF range, of 1 "request_for ''/items'' []" "AList []" 0]
  show ?thesis
    by (simp add: pages JSON_200 marshal_PaginationResponse_def members_def)
qed

end
